(* ===== verification/Go_Prelude.thy ===== *)
theory Go_Prelude
  imports Main
begin

section \<open>Go strings, runes and numbers\<close>

text \<open>
  What the sources use of the Go language and of its packages \<open>strings\<close>, \<open>strconv\<close> and
  \<open>unicode/utf8\<close>. A Go \<open>string\<close> and a \<open>[]byte\<close> are lists of bytes, so both are
  \<^typ>\<open>string\<close> (one \<^typ>\<open>char\<close> per byte). A rune and an \<open>int\<close> are \<^typ>\<open>int\<close>;
  every place where the 64-bit width matters writes the bounds out (\<open>int64_ok\<close>,
  \<open>ParseInt\<close>). A run-time panic is a value of \<open>go_panic\<close>, carried in the left summand
  of a sum. The generic lemmas of the development are here.
\<close>

type_synonym rune = int

abbreviation rn :: "char \<Rightarrow> int" where
  "rn c \<equiv> of_char c"

datatype go_panic = IndexPanic | SlicePanic | TypeAssertPanic | NilMapPanic | NilPanic | MakePanic | StackOverflow | Blocked
  | DividePanic | ArgumentPanic

text \<open>The result of a computation that may panic.\<close>

type_synonym 'a result = "go_panic + 'a"

definition bindR :: "'e + 'a \<Rightarrow> ('a \<Rightarrow> 'e + 'b) \<Rightarrow> 'e + 'b" where
  "bindR m k = (case m of Inl e \<Rightarrow> Inl e | Inr x \<Rightarrow> k x)"

text \<open>The same with a bound on the recursion: \<open>None\<close> is the bound being exceeded.\<close>

definition bindO :: "('e + 'a) option \<Rightarrow> ('a \<Rightarrow> ('e + 'b) option) \<Rightarrow> ('e + 'b) option" where
  "bindO m k = (case m of None \<Rightarrow> None | Some (Inl e) \<Rightarrow> Some (Inl e) | Some (Inr x) \<Rightarrow> k x)"

lemma bindO_simps [simp]:
  "bindO None k = None" "bindO (Some (Inl e)) k = Some (Inl e)" "bindO (Some (Inr x)) k = k x"
  by (simp_all add: bindO_def)

subsection \<open>Slicing and indexing\<close>

text \<open>\<open>s[a:b]\<close> and \<open>s[i]\<close>, which panic out of range.\<close>

definition slice :: "'a list \<Rightarrow> int \<Rightarrow> int \<Rightarrow> 'a list result" where
  "slice s a b =
     (if 0 \<le> a \<and> a \<le> b \<and> b \<le> int (length s)
      then Inr (take (nat b - nat a) (drop (nat a) s)) else Inl SlicePanic)"

definition get_at :: "'a list \<Rightarrow> int \<Rightarrow> 'a result" where
  "get_at s i = (if 0 \<le> i \<and> i < int (length s) then Inr (s ! nat i) else Inl IndexPanic)"

definition set_at :: "'a list \<Rightarrow> int \<Rightarrow> 'a \<Rightarrow> 'a list result" where
  "set_at s i x =
     (if 0 \<le> i \<and> i < int (length s) then Inr (s[nat i := x]) else Inl IndexPanic)"

text \<open>
  \<open>copy(f[a:b], w)\<close>: the slice expression panics out of range, the copy writes
  \<open>min(b - a, len(w))\<close> bytes.
\<close>

definition copy_into :: "'a list \<Rightarrow> int \<Rightarrow> int \<Rightarrow> 'a list \<Rightarrow> 'a list result" where
  "copy_into f a b w =
     (if 0 \<le> a \<and> a \<le> b \<and> b \<le> int (length f)
      then (let n = min (nat b - nat a) (length w)
            in Inr (take (nat a) f @ take n w @ drop (nat a + n) f))
      else Inl SlicePanic)"

subsection \<open>Package strings\<close>

fun has_prefix :: "'a list \<Rightarrow> 'a list \<Rightarrow> bool" where
  "has_prefix [] s = True"
| "has_prefix (p # ps) [] = False"
| "has_prefix (p # ps) (c # s) = (p = c \<and> has_prefix ps s)"

fun index_of :: "'a list \<Rightarrow> 'a list \<Rightarrow> nat option" where
  "index_of [] sub = (if sub = [] then Some 0 else None)"
| "index_of (c # s) sub =
     (if has_prefix sub (c # s) then Some 0 else map_option Suc (index_of s sub))"

text \<open>\<open>strings.Index\<close>: the first occurrence, or \<open>-1\<close>.\<close>

definition Index :: "string \<Rightarrow> string \<Rightarrow> int" where
  "Index s sub = (case index_of s sub of None \<Rightarrow> -1 | Some n \<Rightarrow> int n)"

text \<open>
  \<open>strings.Replace(s, old, new, -1)\<close> for a non-empty \<open>old\<close>: every call of the sources
  has one. The scan goes on after the replaced text.
\<close>

function Replace :: "string \<Rightarrow> string \<Rightarrow> string \<Rightarrow> string" where
  "Replace [] old new = []"
| "Replace (c # s) old new =
     (if old \<noteq> [] \<and> has_prefix old (c # s)
      then new @ Replace (drop (length old) (c # s)) old new
      else c # Replace s old new)"
  by pat_completeness auto
termination
  by (relation "measure (\<lambda>(s, old, new). length s)") (auto simp: length_greater_0_conv)

text \<open>\<open>strings.Split(s, sep)\<close> for a separator of one byte.\<close>

fun split_byte :: "char \<Rightarrow> string \<Rightarrow> string list" where
  "split_byte sep [] = [[]]"
| "split_byte sep (c # s) =
     (if c = sep then [] # split_byte sep s
      else (case split_byte sep s of [] \<Rightarrow> [[c]] | w # ws \<Rightarrow> (c # w) # ws))"

subsection \<open>Runes: UTF-8 as \<open>range\<close> over a string decodes it\<close>

definition RuneError :: rune where
  "RuneError = 65533"

definition cont :: "char \<Rightarrow> bool" where
  "cont c = (128 \<le> rn c \<and> rn c \<le> 191)"

text \<open>
  The rune at the start of a non-empty string and its width; an invalid encoding is
  \<open>RuneError\<close> of width 1. The ranges of the second byte are those of the UTF-8 standard.
\<close>

definition decode_rune :: "string \<Rightarrow> rune \<times> nat" where
  "decode_rune s =
     (case s of
        [] \<Rightarrow> (RuneError, 0)
      | c0 # s1 \<Rightarrow>
          (let b0 = rn c0 in
           if b0 < 128 then (b0, 1)
           else if 194 \<le> b0 \<and> b0 \<le> 223 then
             (case s1 of c1 # _ \<Rightarrow>
                if cont c1 then ((b0 - 192) * 64 + (rn c1 - 128), 2) else (RuneError, 1)
              | _ \<Rightarrow> (RuneError, 1))
           else if 224 \<le> b0 \<and> b0 \<le> 239 then
             (case s1 of c1 # c2 # _ \<Rightarrow>
                if cont c1 \<and> cont c2 \<and> (b0 = 224 \<longrightarrow> 160 \<le> rn c1) \<and> (b0 = 237 \<longrightarrow> rn c1 \<le> 159)
                then ((b0 - 224) * 4096 + (rn c1 - 128) * 64 + (rn c2 - 128), 3)
                else (RuneError, 1)
              | _ \<Rightarrow> (RuneError, 1))
           else if 240 \<le> b0 \<and> b0 \<le> 244 then
             (case s1 of c1 # c2 # c3 # _ \<Rightarrow>
                if cont c1 \<and> cont c2 \<and> cont c3 \<and> (b0 = 240 \<longrightarrow> 144 \<le> rn c1) \<and> (b0 = 244 \<longrightarrow> rn c1 \<le> 143)
                then ((b0 - 240) * 262144 + (rn c1 - 128) * 4096 + (rn c2 - 128) * 64 + (rn c3 - 128), 4)
                else (RuneError, 1)
              | _ \<Rightarrow> (RuneError, 1))
           else (RuneError, 1)))"

definition rune_width :: "string \<Rightarrow> nat" where
  "rune_width s = snd (decode_rune s)"

lemma decode_rune_ascii: "rn c < 128 \<Longrightarrow> decode_rune (c # s) = (rn c, 1)"
  by (simp add: decode_rune_def)

lemma rune_width_pos: "s \<noteq> [] \<Longrightarrow> 1 \<le> rune_width s"
  by (auto simp: rune_width_def decode_rune_def Let_def split: list.splits)

lemma rune_width_le: "rune_width s \<le> length s"
  by (auto simp: rune_width_def decode_rune_def Let_def split: list.splits)

text \<open>The bytes of a string cut into its runes: \<open>(rune, bytes)\<close>.\<close>

function runes :: "string \<Rightarrow> (rune \<times> string) list" where
  "runes s =
     (if s = [] then []
      else (fst (decode_rune s), take (rune_width s) s) # runes (drop (rune_width s) s))"
  by pat_completeness auto
termination
proof (relation "measure length")
  fix s :: string
  assume "s \<noteq> []"
  then show "(drop (rune_width s) s, s) \<in> measure length"
    using rune_width_pos [of s] by (cases s) auto
qed simp

declare runes.simps [simp del]

text \<open>\<open>for qi, r := range q\<close>: the byte offsets and the runes, from offset \<open>k\<close>.\<close>

function range_from :: "int \<Rightarrow> string \<Rightarrow> (int \<times> rune) list" where
  "range_from k s =
     (if s = [] then []
      else (k, fst (decode_rune s)) # range_from (k + int (rune_width s)) (drop (rune_width s) s))"
  by pat_completeness auto
termination
proof (relation "measure (\<lambda>(k, s). length s)")
  fix k :: int and s :: string
  assume "s \<noteq> []"
  then show "((k + int (rune_width s), drop (rune_width s) s), k, s) \<in> measure (\<lambda>(k, s). length s)"
    using rune_width_pos [of s] by (cases s) auto
qed simp

declare range_from.simps [simp del]

definition range_string :: "string \<Rightarrow> (int \<times> rune) list" where
  "range_string s = range_from 0 s"

text \<open>\<open>utf8.EncodeRune\<close>: a rune out of range or a surrogate is written as \<open>RuneError\<close>.\<close>

definition byte :: "int \<Rightarrow> char" where
  "byte n = char_of n"

definition encode_valid :: "rune \<Rightarrow> string" where
  "encode_valid r =
     (if r < 128 then [byte r]
      else if r < 2048 then [byte (192 + r div 64), byte (128 + r mod 64)]
      else if r < 65536
        then [byte (224 + r div 4096), byte (128 + (r div 64) mod 64), byte (128 + r mod 64)]
      else [byte (240 + r div 262144), byte (128 + (r div 4096) mod 64),
            byte (128 + (r div 64) mod 64), byte (128 + r mod 64)])"

definition valid_rune :: "rune \<Rightarrow> bool" where
  "valid_rune r = (0 \<le> r \<and> r \<le> 1114111 \<and> \<not> (55296 \<le> r \<and> r \<le> 57343))"

definition encode_rune :: "rune \<Rightarrow> string" where
  "encode_rune r = (if valid_rune r then encode_valid r else encode_valid RuneError)"

text \<open>
  \<open>strings.ToLower\<close>: bytewise on an ASCII string, otherwise rune by rune through
  \<open>unicode.ToLower\<close>. The Unicode case table above ASCII is the parameter \<open>uni\<close>.
\<close>

definition lower_rune :: "(rune \<Rightarrow> rune) \<Rightarrow> rune \<Rightarrow> rune" where
  "lower_rune uni r = (if 65 \<le> r \<and> r \<le> 90 then r + 32 else if r < 128 then r else uni r)"

definition ToLower :: "(rune \<Rightarrow> rune) \<Rightarrow> string \<Rightarrow> string" where
  "ToLower uni s =
     (if \<forall>c \<in> set s. rn c < 128 then map (\<lambda>c. byte (lower_rune uni (rn c))) s
      else concat (map (\<lambda>(r, _). encode_rune (lower_rune uni r)) (runes s)))"

text \<open>\<open>strings.TrimSpace\<close> removes the runes of \<open>unicode.IsSpace\<close> at both ends.\<close>

definition unicode_IsSpace :: "rune \<Rightarrow> bool" where
  "unicode_IsSpace r =
     (r \<in> set [9, 10, 11, 12, 13, 32, 133, 160, 5760, 8232, 8233, 8239, 8287, 12288] \<or>
      (8192 \<le> r \<and> r \<le> 8202))"

definition TrimSpace :: "string \<Rightarrow> string" where
  "TrimSpace s =
     (let sp = (\<lambda>(r, _). unicode_IsSpace r)
      in concat (map snd (rev (dropWhile sp (rev (dropWhile sp (runes s)))))))"

subsection \<open>Package strconv\<close>

datatype num_error = ErrSyntax | ErrRange

definition is_digit :: "char \<Rightarrow> bool" where
  "is_digit c = (48 \<le> rn c \<and> rn c \<le> 57)"

fun digits_val :: "int \<Rightarrow> string \<Rightarrow> int" where
  "digits_val n [] = n"
| "digits_val n (c # s) = digits_val (n * 10 + (rn c - 48)) s"

fun digits_of :: "nat \<Rightarrow> string" where
  "digits_of n =
     (if n < 10 then [byte (48 + int n)] else digits_of (n div 10) @ [byte (48 + int (n mod 10))])"

declare digits_of.simps [simp del]

text \<open>\<open>strconv.Itoa\<close>.\<close>

definition Itoa :: "int \<Rightarrow> string" where
  "Itoa n = (if n < 0 then CHR ''-'' # digits_of (nat (- n)) else digits_of (nat n))"

definition int64_ok :: "int \<Rightarrow> bool" where
  "int64_ok n = (- (2 ^ 63) \<le> n \<and> n < 2 ^ 63)"

text \<open>The conversion \<open>int64(n)\<close> and the wrap-around of 64-bit arithmetic.\<close>

definition wrap64 :: "int \<Rightarrow> int" where
  "wrap64 n = (n + 2 ^ 63) mod 2 ^ 64 - 2 ^ 63"

text \<open>
  \<open>strconv.ParseUint(s, 10, 64)\<close>: the value and the error. The digits are read from the left, and the
  first one that is no digit or that leaves the range decides the error.
\<close>

fun uint_loop :: "int \<Rightarrow> string \<Rightarrow> int \<times> num_error option" where
  "uint_loop n [] = (n, None)"
| "uint_loop n (c # s) =
     (if \<not> is_digit c then (0, Some ErrSyntax)
      else if 2 ^ 64 \<le> n * 10 + (rn c - 48) then (2 ^ 64 - 1, Some ErrRange)
      else uint_loop (n * 10 + (rn c - 48)) s)"

definition ParseUint :: "string \<Rightarrow> int \<times> num_error option" where
  "ParseUint s = (if s = [] then (0, Some ErrSyntax) else uint_loop 0 s)"

text \<open>
  \<open>strconv.ParseInt(s, 10, 64)\<close>, which is also \<open>strconv.Atoi\<close> where \<open>int\<close> has 64 bits.
\<close>

definition signed_digits :: "string \<Rightarrow> bool \<times> string" where
  "signed_digits s =
     (case s of [] \<Rightarrow> (False, [])
      | c # r \<Rightarrow> if c = CHR ''+'' then (False, r) else if c = CHR ''-'' then (True, r) else (False, s))"

definition ParseInt :: "string \<Rightarrow> int \<times> num_error option" where
  "ParseInt s =
     (case signed_digits s of (neg, ds) \<Rightarrow>
        (case ParseUint ds of (un, err) \<Rightarrow>
           if err = Some ErrSyntax then (0, Some ErrSyntax)
           else if \<not> neg \<and> 2 ^ 63 \<le> un then (2 ^ 63 - 1, Some ErrRange)
           else if neg \<and> 2 ^ 63 < un then (- (2 ^ 63), Some ErrRange)
           else (if neg then - un else un, None)))"

text \<open>\<open>make([]T, n)\<close> for elements of \<open>sz\<close> bytes: a negative or an unaddressable length panics.\<close>

definition make_slice :: "int \<Rightarrow> 'a \<Rightarrow> int \<Rightarrow> 'a list result" where
  "make_slice sz z n = (if 0 \<le> n \<and> n * sz \<le> 2 ^ 48 then Inr (replicate (nat n) z) else Inl MakePanic)"

subsection \<open>Correctness of a computation that may panic\<close>

text \<open>
  \<open>sat b P m\<close>: the computation \<open>m\<close> ends in a value that satisfies \<open>P\<close>, or panics and
  \<open>b\<close> allows it. With \<open>b = True\<close> it is partial correctness, with \<open>b = False\<close> total
  correctness. The equations below compute the weakest precondition of a computation.
\<close>

definition sat :: "bool \<Rightarrow> ('a \<Rightarrow> bool) \<Rightarrow> 'e + 'a \<Rightarrow> bool" where
  "sat b P m = (case m of Inl e \<Rightarrow> b | Inr x \<Rightarrow> P x)"

lemma sat_Inr [simp]: "sat b P (Inr x) = P x"
  by (simp add: sat_def)

lemma sat_Inl [simp]: "sat b P (Inl e) = b"
  by (simp add: sat_def)

lemma sat_bind [simp]: "sat b P (bindR m k) = sat b (\<lambda>x. sat b P (k x)) m"
  by (simp add: sat_def bindR_def split: sum.splits)

lemma sat_if [simp]: "sat b P (if c then m else n) = ((c \<longrightarrow> sat b P m) \<and> (\<not> c \<longrightarrow> sat b P n))"
  by simp

lemma sat_triv [simp]: "sat True (\<lambda>x. True) m"
  by (simp add: sat_def split: sum.splits)

lemma sat_mono: "sat b P m \<Longrightarrow> (\<And>x. P x \<Longrightarrow> Q x) \<Longrightarrow> sat b Q m"
  by (simp add: sat_def split: sum.splits)

lemma sat_FalseE: "sat False P m \<Longrightarrow> (\<And>x. m = Inr x \<Longrightarrow> P x \<Longrightarrow> R) \<Longrightarrow> R"
  by (cases m) (auto simp: sat_def)

lemma sat_TrueD: "sat True P m \<Longrightarrow> m = Inr x \<Longrightarrow> P x"
  by (simp add: sat_def)

lemma sat_slice:
  "sat b P (slice s i j) =
     (if 0 \<le> i \<and> i \<le> j \<and> j \<le> int (length s)
      then P (take (nat j - nat i) (drop (nat i) s)) else b)"
  by (auto simp: slice_def)

lemma sat_get_at:
  "sat b P (get_at s i) = (if 0 \<le> i \<and> i < int (length s) then P (s ! nat i) else b)"
  by (auto simp: get_at_def)

lemma sat_set_at:
  "sat b P (set_at s i x) = (if 0 \<le> i \<and> i < int (length s) then P (s[nat i := x]) else b)"
  by (auto simp: set_at_def)

lemmas sat_access = sat_slice sat_get_at sat_set_at

lemma bindR_Inr [simp]: "bindR (Inr x) k = k x"
  by (simp add: bindR_def)

lemma bindR_Inl [simp]: "bindR (Inl e) k = Inl e"
  by (simp add: bindR_def)

lemma sat_copy_into:
  assumes "\<And>g. length g = length f \<Longrightarrow> set g \<subseteq> set f \<union> set w \<Longrightarrow> P g"
    and "0 \<le> i \<and> i \<le> j \<and> j \<le> int (length f) \<or> b"
  shows "sat b P (copy_into f i j w)"
proof (cases "0 \<le> i \<and> i \<le> j \<and> j \<le> int (length f)")
  case True
  let ?n = "min (nat j - nat i) (length w)"
  let ?g = "take (nat i) f @ take ?n w @ drop (nat i + ?n) f"
  have "length ?g = length f"
    using True by auto
  moreover have "set ?g \<subseteq> set f \<union> set w"
    by (auto dest: in_set_takeD in_set_dropD)
  ultimately have "P ?g" by (rule assms(1))
  with True show ?thesis by (simp add: copy_into_def Let_def)
next
  case False
  with assms(2) show ?thesis by (auto simp: copy_into_def)
qed

subsection \<open>Lemmas on runes and case folding\<close>

lemma rn_byte: "rn (byte n) = n mod 256"
  by (simp add: byte_def)

lemma rn_range: "0 \<le> rn c" "rn c < 256"
  using of_char_mod_256 [of c, where ?'a = int] by (auto simp del: of_char_mod_256 dest: sym)

lemma length_runes: "length (runes s) \<le> length s"
proof (induction s rule: runes.induct)
  case (1 s)
  show ?case
  proof (cases "s = []")
    case False
    have "length (runes (drop (rune_width s) s)) \<le> length (drop (rune_width s) s)"
      by (rule "1.IH" [OF False])
    then show ?thesis
      using rune_width_pos [OF False] rune_width_le [of s] False
      by (subst runes.simps) simp
  qed (simp add: runes.simps)
qed

lemma encode_valid_ascii:
  assumes "\<forall>c \<in> set (encode_valid r). rn c < 128" "valid_rune r"
  shows "length (encode_valid r) = 1"
proof (rule ccontr)
  assume "length (encode_valid r) \<noteq> 1"
  then have r: "128 \<le> r" by (auto simp: encode_valid_def split: if_splits)
  have "128 \<le> rn (hd (encode_valid r))"
    using r assms(2) by (auto simp: encode_valid_def rn_byte valid_rune_def)
  moreover have "hd (encode_valid r) \<in> set (encode_valid r)"
    by (auto simp: encode_valid_def)
  ultimately show False using assms(1) by force
qed

lemma valid_RuneError: "valid_rune RuneError"
  by (simp add: valid_rune_def RuneError_def)

lemma encode_rune_valid: "\<exists>r'. valid_rune r' \<and> encode_rune r = encode_valid r'"
  using valid_RuneError by (auto simp: encode_rune_def)

lemma encode_rune_ascii:
  "\<forall>c \<in> set (encode_rune r). rn c < 128 \<Longrightarrow> length (encode_rune r) = 1"
  using encode_rune_valid [of r] encode_valid_ascii by force

lemma length_concat_le:
  "\<forall>w \<in> set ws. length w \<le> 1 \<Longrightarrow> length (concat ws) \<le> length ws"
  by (induction ws) auto

lemma length_ToLower_ascii:
  assumes "\<forall>c \<in> set (ToLower uni s). rn c < 128"
  shows "length (ToLower uni s) \<le> length s"
proof (cases "\<forall>c \<in> set s. rn c < 128")
  case True
  then show ?thesis by (simp add: ToLower_def)
next
  case False
  let ?ws = "map (\<lambda>(r, _). encode_rune (lower_rune uni r)) (runes s)"
  have eq: "ToLower uni s = concat ?ws" using False by (auto simp: ToLower_def)
  have "length w \<le> 1" if w: "w \<in> set ?ws" for w
  proof -
    obtain r where r: "w = encode_rune r" using w by auto
    have "\<forall>c \<in> set w. rn c < 128" using assms w unfolding eq by auto
    then show ?thesis using encode_rune_ascii [of r] by (simp add: r)
  qed
  then have "\<forall>w \<in> set ?ws. length w \<le> 1" by blast
  then have "length (concat ?ws) \<le> length ?ws" by (rule length_concat_le)
  with length_runes [of s] show ?thesis by (simp add: eq)
qed

lemma rn_byte_small: "0 \<le> n \<Longrightarrow> n < 256 \<Longrightarrow> rn (byte n) = n"
  by (simp add: rn_byte)

lemma cont_byte: "cont (byte (128 + n mod 64))"
proof -
  have "0 \<le> n mod 64" "n mod 64 < 64" by simp_all
  then show ?thesis by (simp add: cont_def rn_byte_small)
qed

lemma rn_cont: "rn (byte (128 + n mod 64)) = 128 + n mod 64"
proof -
  have "0 \<le> n mod 64" "n mod 64 < 64" by simp_all
  then show ?thesis by (simp add: rn_byte_small)
qed

lemma decode_encode_valid:
  assumes "valid_rune r"
  shows "decode_rune (encode_valid r @ s) = (r, length (encode_valid r))"
proof -
  have r: "0 \<le> r" "r \<le> 1114111" "\<not> (55296 \<le> r \<and> r \<le> 57343)"
    using assms by (auto simp: valid_rune_def)
  define a b c d where "a = r mod 64" and "b = r div 64 mod 64" and "c = r div 4096 mod 64"
    and "d = r div 262144"
  have div: "r div 64 div 64 = r div 4096" "r div 4096 div 64 = r div 262144"
    by (simp_all add: zdiv_zmult2_eq [symmetric])
  have e1: "r = 64 * (r div 64) + a" and e2: "r div 64 = 64 * (r div 4096) + b"
    and e3: "r div 4096 = 64 * d + c"
    using mult_div_mod_eq [of 64 r] mult_div_mod_eq [of 64 "r div 64"] mult_div_mod_eq [of 64 "r div 4096"]
    by (simp_all add: a_def b_def c_def d_def div)
  have m: "0 \<le> a" "a < 64" "0 \<le> b" "b < 64" "0 \<le> c" "c < 64"
    by (simp_all add: a_def b_def c_def)
  have conts: "cont (byte (128 + a))" "cont (byte (128 + b))" "cont (byte (128 + c))"
    "rn (byte (128 + a)) = 128 + a" "rn (byte (128 + b)) = 128 + b" "rn (byte (128 + c)) = 128 + c"
    by (simp_all add: a_def b_def c_def cont_byte rn_cont)
  consider "r < 128" | "128 \<le> r" "r < 2048" | "2048 \<le> r" "r < 65536" | "65536 \<le> r" by linarith
  then show ?thesis
  proof cases
    case 1
    then show ?thesis using r by (simp add: encode_valid_def decode_rune_def rn_byte_small)
  next
    case 2
    then have q: "2 \<le> r div 64" "r div 64 < 32" using e1 m by linarith+
    then have "rn (byte (192 + r div 64)) = 192 + r div 64" by (simp add: rn_byte_small)
    with 2 q e1 conts show ?thesis
      by (simp add: encode_valid_def decode_rune_def Let_def a_def [symmetric])
  next
    case 3
    then have q: "0 \<le> r div 4096" "r div 4096 < 16" using e1 e2 m by linarith+
    then have "rn (byte (224 + r div 4096)) = 224 + r div 4096" by (simp add: rn_byte_small)
    moreover have "r div 4096 = 0 \<Longrightarrow> 32 \<le> b" "r div 4096 = 13 \<Longrightarrow> b \<le> 31"
      using 3 e1 e2 m r(3) by linarith+
    ultimately show ?thesis using 3 q e1 e2 conts
      by (simp add: encode_valid_def decode_rune_def Let_def a_def [symmetric] b_def [symmetric])
  next
    case 4
    then have q: "0 \<le> d" "d \<le> 4" using e1 e2 e3 m r by linarith+
    then have "rn (byte (240 + d)) = 240 + d" by (simp add: rn_byte_small)
    moreover have "d = 0 \<Longrightarrow> 16 \<le> c" "d = 4 \<Longrightarrow> c \<le> 15" using 4 e1 e2 e3 m r(2) by linarith+
    moreover have "encode_valid r = [byte (240 + d), byte (128 + c), byte (128 + b), byte (128 + a)]"
      using 4 by (simp add: encode_valid_def a_def b_def c_def d_def)
    moreover have "d * 262144 + c * 4096 + b * 64 + a = r" using e1 e2 e3 by linarith
    ultimately show ?thesis using q conts by (simp add: decode_rune_def Let_def)
  qed
qed

lemma length_encode_valid: "encode_valid r \<noteq> []"
  by (simp add: encode_valid_def)

lemma length_runes_encode:
  "length (runes (encode_rune r @ s)) = Suc (length (runes s))"
proof -
  obtain r' where r': "valid_rune r'" "encode_rune r = encode_valid r'"
    using encode_rune_valid by blast
  have "decode_rune (encode_valid r' @ s) = (r', length (encode_valid r'))"
    by (rule decode_encode_valid [OF r'(1)])
  then show ?thesis
    unfolding r'(2) by (subst runes.simps) (simp add: rune_width_def length_encode_valid)
qed

lemma length_runes_concat:
  "length (runes (concat (map encode_rune rs))) = length rs"
proof (induction rs)
  case Nil
  then show ?case by (simp add: runes.simps)
qed (simp add: length_runes_encode)

lemma length_runes_ascii: "\<forall>c \<in> set s. rn c < 128 \<Longrightarrow> length (runes s) = length s"
proof (induction s)
  case Nil
  then show ?case by (simp add: runes.simps)
next
  case (Cons c s)
  then show ?case by (subst runes.simps) (simp add: decode_rune_ascii rune_width_def)
qed

lemma lower_rune_ascii: "0 \<le> r \<Longrightarrow> r < 128 \<Longrightarrow> 0 \<le> lower_rune uni r \<and> lower_rune uni r < 128"
  by (simp add: lower_rune_def)

lemma length_runes_ToLower: "length (runes (ToLower uni s)) = length (runes s)"
proof (cases "\<forall>c \<in> set s. rn c < 128")
  case True
  have "rn (byte (lower_rune uni (rn c))) < 128" if "c \<in> set s" for c
    using True that lower_rune_ascii [of "rn c" uni] by (simp add: rn_range rn_byte_small)
  then have "\<forall>c \<in> set (ToLower uni s). rn c < 128"
    using True by (auto simp: ToLower_def)
  then have "length (runes (ToLower uni s)) = length (ToLower uni s)" by (rule length_runes_ascii)
  also have "\<dots> = length (runes s)" using True by (simp add: ToLower_def length_runes_ascii)
  finally show ?thesis .
next
  case False
  have "ToLower uni s = concat (map encode_rune (map (\<lambda>(r, _). lower_rune uni r) (runes s)))"
    using False by (auto simp: ToLower_def comp_def case_prod_unfold)
  then show ?thesis by (simp only: length_runes_concat length_map)
qed

lemma rune_ascii_byte:
  assumes "s \<noteq> []" "fst (decode_rune s) < 128"
  shows "\<exists>c. c \<in> set s \<and> rn c = fst (decode_rune s)"
proof -
  obtain c t where s: "s = c # t" using assms(1) by (cases s) auto
  have "rn c < 128" using assms(2) 
    by (auto simp: s decode_rune_def Let_def RuneError_def cont_def split: list.splits if_splits)
  then show ?thesis by (auto simp: s decode_rune_ascii)
qed

lemma range_from_ascii:
  "(i, r) \<in> set (range_from k s) \<Longrightarrow> r < 128 \<Longrightarrow> \<exists>c. c \<in> set s \<and> rn c = r"
proof (induction k s rule: range_from.induct)
  case (1 k s)
  show ?case
  proof (cases "s = []")
    case False
    have "(i, r) = (k, fst (decode_rune s)) \<or>
        (i, r) \<in> set (range_from (k + int (rune_width s)) (drop (rune_width s) s))"
      using "1.prems"(1) False by (subst (asm) range_from.simps) auto
    then show ?thesis
      using rune_ascii_byte [OF False] "1.IH" [OF False] "1.prems"(2) by (auto dest: in_set_dropD)
  qed (use "1.prems" in \<open>simp add: range_from.simps\<close>)
qed

lemma rn_inj: "rn c = rn d \<longleftrightarrow> c = d"
  by (simp add: of_char_eq_iff)

lemma range_from_rune: "(i, rn c) \<in> set (range_from k s) \<Longrightarrow> rn c < 128 \<Longrightarrow> c \<in> set s"
  by (drule (1) range_from_ascii) (auto simp only: rn_inj)

lemma list_all_update [simp]: "list_all P xs \<Longrightarrow> P a \<Longrightarrow> list_all P (xs[i := a])"
  using set_update_subset_insert [of xs i a] by (auto simp: list_all_iff)

lemma list_all_take [simp]: "list_all P xs \<Longrightarrow> list_all P (take n xs)"
  by (auto simp: list_all_iff dest: in_set_takeD)

lemma list_all_drop [simp]: "list_all P xs \<Longrightarrow> list_all P (drop n xs)"
  by (auto simp: list_all_iff dest: in_set_dropD)

lemma decode_rune_append:
  "s \<noteq> [] \<Longrightarrow> t = [] \<or> rn (hd t) < 128 \<Longrightarrow> decode_rune (s @ t) = decode_rune s"
  by (cases s; cases t) (auto simp: decode_rune_def cont_def Let_def split: list.splits)

lemma range_from_append:
  "t = [] \<or> rn (hd t) < 128 \<Longrightarrow> range_from k (s @ t) = range_from k s @ range_from (k + int (length s)) t"
proof (induction k s rule: range_from.induct)
  case (1 k s)
  show ?case
  proof (cases "s = []")
    case True
    then show ?thesis by (simp add: range_from.simps [of k "[]"])
  next
    case False
    have d: "decode_rune (s @ t) = decode_rune s" "rune_width (s @ t) = rune_width s"
      using decode_rune_append [OF False "1.prems"] by (simp_all add: rune_width_def)
    have w: "rune_width s \<le> length s" by (rule rune_width_le)
    show ?thesis
      using "1.IH" [OF False "1.prems"] False w
      by (subst (1 2) range_from.simps) (simp add: d of_nat_diff)
  qed
qed

lemma map_snd_range_from: "map snd (range_from k s) = map snd (range_from j s)"
proof (induction k s arbitrary: j rule: range_from.induct)
  case (1 k s)
  show ?case
  proof (cases "s = []")
    case False
    have eq: "map snd (range_from i s) =
        fst (decode_rune s) # map snd (range_from (i + int (rune_width s)) (drop (rune_width s) s))" for i
      using False by (subst range_from.simps) simp
    show ?thesis unfolding eq using "1.IH" [OF False] by simp
  qed (simp add: range_from.simps)
qed

lemma range_from_Nil [simp]: "range_from k [] = []"
  by (simp add: range_from.simps)

lemma range_from_snoc: "rn c < 128 \<Longrightarrow> range_from k (a @ [c]) = range_from k a @ [(k + int (length a), rn c)]"
  by (simp add: range_from_append range_from.simps [of _ "[c]"] decode_rune_ascii rune_width_def)

lemma range_from_Cons: "rn c < 128 \<Longrightarrow> range_from k (c # v) = (k, rn c) # range_from (k + 1) v"
  by (subst range_from.simps) (simp add: decode_rune_ascii rune_width_def)


subsection \<open>Decimal numbers are read back\<close>

lemma digits_of_nonempty [simp]: "digits_of n \<noteq> []"
  by (subst digits_of.simps) simp

lemma rn_digit: "d < 10 \<Longrightarrow> rn (byte (48 + int d)) = 48 + int d"
  by (rule rn_byte_small) auto

lemma is_digit_digits_of: "list_all is_digit (digits_of n)"
proof (induction n rule: digits_of.induct)
  case (1 n)
  have "is_digit (byte (48 + int d))" if "d < 10" for d
    using that by (simp add: is_digit_def rn_digit)
  with 1 show ?case by (subst digits_of.simps) simp
qed

lemma uint_loop_append:
  "list_all is_digit s \<Longrightarrow> uint_loop n s = (m, None) \<Longrightarrow> uint_loop n (s @ t) = uint_loop m t"
  by (induction n s rule: uint_loop.induct) (auto split: if_splits)

lemma uint_loop_digits_of: "int n < 2 ^ 64 \<Longrightarrow> uint_loop 0 (digits_of n) = (int n, None)"
proof (induction n rule: digits_of.induct)
  case (1 n)
  have d: "is_digit (byte (48 + int d))" if "d < 10" for d
    using that by (simp add: is_digit_def rn_digit)
  show ?case
  proof (cases "n < 10")
    case True
    then show ?thesis by (subst digits_of.simps) (simp add: d rn_digit)
  next
    case False
    have "uint_loop 0 (digits_of (n div 10)) = (int (n div 10), None)"
      using 1 False by simp
    then have "uint_loop 0 (digits_of n) = uint_loop (int (n div 10)) [byte (48 + int (n mod 10))]"
      using False by (subst digits_of.simps) (simp add: uint_loop_append is_digit_digits_of)
    moreover have "int (n div 10) * 10 + int (n mod 10) = int n"
      by (metis div_mult_mod_eq of_nat_add of_nat_mult of_nat_numeral)
    ultimately show ?thesis using "1.prems" by (simp add: d rn_digit)
  qed
qed

lemma hd_digits_of: "is_digit (hd (digits_of n))"
  using is_digit_digits_of [of n] by (cases "digits_of n") auto

lemma ParseUint_digits_of: "int n < 2 ^ 64 \<Longrightarrow> ParseUint (digits_of n) = (int n, None)"
  by (simp add: ParseUint_def uint_loop_digits_of)

lemma signed_digits_digits_of: "signed_digits (digits_of n) = (False, digits_of n)"
  using hd_digits_of [of n] by (cases "digits_of n") (auto simp: signed_digits_def is_digit_def)

lemma ParseInt_Itoa: "int64_ok n \<Longrightarrow> ParseInt (Itoa n) = (n, None)"
  by (auto simp: ParseInt_def Itoa_def int64_ok_def signed_digits_digits_of ParseUint_digits_of)
     (auto simp: signed_digits_def ParseUint_digits_of)

lemma wrap64_id: "int64_ok n \<Longrightarrow> wrap64 n = n"
  by (simp add: wrap64_def int64_ok_def)

lemma int64_ok_wrap64: "int64_ok (wrap64 n)"
  by (simp add: wrap64_def int64_ok_def) 

subsection \<open>Computations with a bound\<close>

text \<open>\<open>satO E P m\<close>: the bound is not exceeded, a panic satisfies \<open>E\<close> and a value satisfies \<open>P\<close>.\<close>

definition satO :: "('e \<Rightarrow> bool) \<Rightarrow> ('a \<Rightarrow> bool) \<Rightarrow> ('e + 'a) option \<Rightarrow> bool" where
  "satO E P m = (case m of None \<Rightarrow> False | Some (Inl e) \<Rightarrow> E e | Some (Inr x) \<Rightarrow> P x)"

lemma satO_simps [simp]:
  "satO E P None = False" "satO E P (Some (Inl e)) = E e" "satO E P (Some (Inr x)) = P x"
  by (simp_all add: satO_def)

lemma satO_bind [simp]: "satO E P (bindO m k) = satO E (\<lambda>x. satO E P (k x)) m"
  by (simp add: satO_def bindO_def split: option.splits sum.splits)

lemma satO_bindR [simp]: "satO E P (Some (bindR m k)) = satO E (\<lambda>x. satO E P (Some (k x))) (Some m)"
  by (simp add: satO_def bindR_def split: sum.splits)

lemma satO_mono: "satO E P m \<Longrightarrow> (\<And>x. P x \<Longrightarrow> Q x) \<Longrightarrow> satO E Q m"
  by (auto simp: satO_def split: option.splits sum.splits)

lemma satO_make_slice [simp]:
  "satO E P (Some (make_slice sz z n)) \<longleftrightarrow>
     (if 0 \<le> n \<and> n * sz \<le> 2 ^ 48 then P (replicate (nat n) z) else E MakePanic)"
  by (simp add: make_slice_def)

lemma length_digits_of: "n < 10 ^ k \<Longrightarrow> 0 < k \<Longrightarrow> length (digits_of n) \<le> k"
proof (induction k arbitrary: n)
  case (Suc k)
  show ?case
  proof (cases "n < 10")
    case False
    then have "0 < k" using Suc.prems by (cases k) auto
    moreover have "n div 10 < 10 ^ k" using Suc.prems by (simp add: less_mult_imp_div_less mult.commute)
    ultimately show ?thesis using Suc.IH [of "n div 10"] False by (subst digits_of.simps) simp
  qed (subst digits_of.simps, simp)
qed simp

lemma wrap64_mod: "wrap64 x mod 2 ^ 64 = x mod 2 ^ 64"
  unfolding wrap64_def by (simp only: mod_diff_left_eq add_diff_cancel_right')

lemma wrap64_cong: "x mod 2 ^ 64 = y mod 2 ^ 64 \<Longrightarrow> wrap64 x = wrap64 y"
  unfolding wrap64_def using mod_add_cong [OF _ refl, of x "2 ^ 64" y "2 ^ 63"] by simp

lemma wrap64_step: "wrap64 (wrap64 (wrap64 n * 10) + d) = wrap64 (n * 10 + d)"
proof (rule wrap64_cong, rule mod_add_cong [OF _ refl])
  show "wrap64 (wrap64 n * 10) mod 2 ^ 64 = n * 10 mod 2 ^ 64"
    unfolding wrap64_mod by (rule mod_mult_cong [OF wrap64_mod refl])
qed

end
