(* ===== verification/Fingerprint.thy ===== *)
theory Fingerprint
  imports Go_Prelude
begin

section \<open>Query fingerprints (\<open>src/lib/fingerprint.go\<close>)\<close>

text \<open>
  The lexer that turns a query into its canonical form. \<open>fp_state\<close> is the function's
  local variables, \<open>skip\<close>, \<open>change\<close> and \<open>copy_word\<close> are the three numbered parts of its
  loop body, \<open>fp_step\<close> is one iteration and \<open>fp_run\<close> the loop over the runes of the query.
  Every index and slice expression of the source may panic, so each is checked in the
  model and a panic is an \<open>Inl\<close>. Parameters: \<open>uni\<close>, the Unicode case table that
  \<open>strings.ToLower\<close> uses above ASCII, and \<open>rnw\<close>, the package variable
  \<open>ReplaceNumbersInWords\<close>.
\<close>

subsection \<open>States\<close>

datatype lexstate =
    unknown | inWord | inNumber | inSpace | inOp | opOrNumber | inQuote | subOrOLC | inDash
  | inOLC | divOrMLC | mlcOrMySQLCode | inMLC | inValues | moreValuesOrUnknown | orderBy
  | onDupeKeyUpdate | inNumberInWord | inBackticks | inMySQLCode

record fp_state =
  prevWord :: string
  fp_f :: string
  fp_fi :: int
  fp_pr :: rune
  fp_s :: lexstate
  sqlState :: lexstate
  quoteChar :: rune
  cpFromOffset :: int
  cpToOffset :: int
  addSpace :: bool
  escape :: bool
  parOpen :: int
  parOpenTotal :: int
  valueNo :: int
  firstPar :: int

text \<open>How an iteration goes on: \<open>continue\<close>, fall through to the next part, or \<open>return\<close>.\<close>

datatype fp_next = Cont fp_state | Fall fp_state | Ret string

definition fp_init :: "string \<Rightarrow> fp_state" where
  "fp_init q =
     \<lparr>prevWord = [], fp_f = replicate (length q) CHR 0x00, fp_fi = 0, fp_pr = 0, fp_s = unknown,
      sqlState = unknown, quoteChar = 0, cpFromOffset = 0, cpToOffset = 0, addSpace = False,
      escape = False, parOpen = 0, parOpenTotal = 0, valueNo = 0, firstPar = 0\<rparr>"

definition isSpace :: "rune \<Rightarrow> bool" where
  "isSpace r = (r = 0x20 \<or> r = 0x09 \<or> r = 0x0D \<or> r = 0x0A)"

definition wordIn :: "(rune \<Rightarrow> rune) \<Rightarrow> string \<Rightarrow> string list \<Rightarrow> bool" where
  "wordIn uni q words = (ToLower uni q \<in> set words)"

text \<open>\<open>f[fi] = c; fi++\<close>, and the same with the write guarded by \<open>len(f) > fi\<close>.\<close>

definition put_byte :: "char \<Rightarrow> fp_state \<Rightarrow> fp_state result" where
  "put_byte c x =
     bindR (set_at (fp_f x) (fp_fi x) c) (\<lambda>f. Inr (x\<lparr>fp_f := f, fp_fi := fp_fi x + 1\<rparr>))"

definition put_space :: "fp_state \<Rightarrow> fp_state result" where
  "put_space x =
     (if fp_fi x < int (length (fp_f x)) then put_byte CHR '' '' x
      else Inr (x\<lparr>fp_fi := fp_fi x + 1\<rparr>))"

definition put_string :: "string \<Rightarrow> fp_state \<Rightarrow> fp_state result" where
  "put_string w x =
     (let l = int (length w) in
      bindR (copy_into (fp_f x) (fp_fi x) (fp_fi x + l) w)
        (\<lambda>f. Inr (x\<lparr>fp_f := f, fp_fi := fp_fi x + l\<rparr>)))"

subsection \<open>Part 1: skip parts of the query\<close>

definition isDigit :: "rune \<Rightarrow> bool" where
  "isDigit r = (rn CHR ''0'' \<le> r \<and> r \<le> rn CHR ''9'')"

definition isNumberChar :: "rune \<Rightarrow> bool" where
  "isNumberChar r =
     (isDigit r \<or> (rn CHR ''a'' \<le> r \<and> r \<le> rn CHR ''f'') \<or> (rn CHR ''A'' \<le> r \<and> r \<le> rn CHR ''F'')
      \<or> r = rn CHR ''.'' \<or> r = rn CHR ''x'' \<or> r = rn CHR ''-'')"

definition isWordChar :: "rune \<Rightarrow> bool" where
  "isWordChar r =
     ((rn CHR ''g'' \<le> r \<and> r \<le> rn CHR ''z'') \<or> (rn CHR ''G'' \<le> r \<and> r \<le> rn CHR ''Z'') \<or> r = rn CHR ''_'')"

definition skip_inQuote :: "int \<Rightarrow> rune \<Rightarrow> fp_state \<Rightarrow> fp_next result" where
  "skip_inQuote qi r x =
     (if r \<noteq> quoteChar x then
        (if escape x then Inr (Cont (x\<lparr>escape := False\<rparr>))
         else if r = rn CHR 0x5C then Inr (Cont (x\<lparr>escape := True\<rparr>))
         else Inr (Cont x))
      else if escape x then Inr (Cont (x\<lparr>escape := False\<rparr>))
      else
        let x = x\<lparr>escape := False, cpFromOffset := qi + 1\<rparr> in
        if sqlState x = inValues then Inr (Cont (x\<lparr>fp_s := inValues\<rparr>))
        else bindR (put_byte CHR ''?'' x) (\<lambda>x. Inr (Cont (x\<lparr>fp_s := unknown\<rparr>))))"

definition skip_inBackticks :: "int \<Rightarrow> rune \<Rightarrow> fp_state \<Rightarrow> fp_next result" where
  "skip_inBackticks qi r x =
     (if r \<noteq> rn CHR 0x60 then
        (if escape x then Inr (Cont (x\<lparr>escape := False\<rparr>))
         else if r = rn CHR 0x5C then Inr (Cont (x\<lparr>escape := True\<rparr>))
         else Inr (Cont x))
      else if escape x then Inr (Cont (x\<lparr>escape := False\<rparr>))
      else Inr (Cont (x\<lparr>escape := False, cpToOffset := qi + 1, fp_s := inWord\<rparr>)))"

definition skip_inNumberInWord :: "int \<Rightarrow> rune \<Rightarrow> fp_state \<Rightarrow> fp_next result" where
  "skip_inNumberInWord qi r x =
     (if isDigit r then Inr (Cont x)
      else bindR (put_byte CHR ''?'' x)
        (\<lambda>x. Inr (Fall (x\<lparr>cpFromOffset := qi, fp_s := (if isSpace r then unknown else inWord)\<rparr>))))"

definition skip_inNumber :: "int \<Rightarrow> rune \<Rightarrow> fp_state \<Rightarrow> fp_next result" where
  "skip_inNumber qi r x =
     (if isNumberChar r then Inr (Cont x)
      else if isWordChar r then Inr (Fall (x\<lparr>cpToOffset := qi, fp_s := inWord\<rparr>))
      else if sqlState x = inMySQLCode
        then Inr (Fall (x\<lparr>cpToOffset := qi, fp_s := inWord, sqlState := unknown\<rparr>))
      else bindR (put_byte CHR ''?'' x)
        (\<lambda>x. Inr (Fall (x\<lparr>cpFromOffset := qi, cpToOffset := qi, fp_s := unknown\<rparr>))))"

text \<open>The end of a value list: \<open>(?+)\<close> or \<open>()\<close> for the first value, nothing for the others.\<close>

definition values_end :: "int \<Rightarrow> rune \<Rightarrow> fp_state \<Rightarrow> fp_next result" where
  "values_end qi r x =
     (let x = x\<lparr>valueNo := valueNo x + 1\<rparr> in
      bindR
        (if valueNo x = 1 then
           bindR (if qi - firstPar x > 1 then put_string ''(?+)'' x else put_string ''()'' x)
             (\<lambda>x. Inr (x\<lparr>firstPar := 0\<rparr>))
         else Inr x)
        (\<lambda>x. Inr (Cont (x\<lparr>fp_s := moreValuesOrUnknown, fp_pr := r, cpFromOffset := qi + 1,
                          parOpenTotal := 0\<rparr>))))"

definition values_check :: "int \<Rightarrow> rune \<Rightarrow> fp_state \<Rightarrow> fp_next result" where
  "values_check qi r x =
     (if parOpen x > 0 then Inr (Cont x)
      else if parOpenTotal x = 0 then Inr (Cont (x\<lparr>fp_s := inWord\<rparr>))
      else values_end qi r x)"

definition skip_inValues :: "int \<Rightarrow> rune \<Rightarrow> fp_state \<Rightarrow> fp_next result" where
  "skip_inValues qi r x =
     (if r = rn CHR '')'' then
        values_check qi r (x\<lparr>parOpen := parOpen x - 1, parOpenTotal := parOpenTotal x + 1\<rparr>)
      else if r = rn CHR ''('' then
        (let x = x\<lparr>parOpen := parOpen x + 1\<rparr>;
             x = (if parOpen x = 1 then x\<lparr>firstPar := qi\<rparr> else x)
         in values_check qi r x)
      else if r = rn CHR 0x27 \<or> r = rn CHR 0x22 then
        Inr (Cont (x\<lparr>fp_s := inQuote, quoteChar := r\<rparr>))
      else if isSpace r then Inr (Cont x)
      else values_check qi r x)"

definition skip_inMLC :: "int \<Rightarrow> rune \<Rightarrow> fp_state \<Rightarrow> fp_next result" where
  "skip_inMLC qi r x =
     (if fp_pr x = rn CHR ''*'' \<and> r = rn CHR ''/'' then Inr (Cont (x\<lparr>fp_s := unknown\<rparr>))
      else Inr (Cont (x\<lparr>fp_pr := r\<rparr>)))"

definition skip_mlcOrMySQLCode :: "int \<Rightarrow> rune \<Rightarrow> fp_state \<Rightarrow> fp_next result" where
  "skip_mlcOrMySQLCode qi r x =
     (if r \<noteq> rn CHR ''!'' then Inr (Cont (x\<lparr>fp_pr := r, fp_s := inMLC\<rparr>))
      else Inr (Fall (x\<lparr>fp_s := inWord, sqlState := inMySQLCode\<rparr>)))"

definition skip_inOLC :: "int \<Rightarrow> rune \<Rightarrow> fp_state \<Rightarrow> fp_next result" where
  "skip_inOLC qi r x =
     (if r = 0x0A then Inr (Cont (x\<lparr>fp_s := unknown\<rparr>)) else Inr (Cont x))"

definition skip :: "int \<Rightarrow> rune \<Rightarrow> fp_state \<Rightarrow> fp_next result" where
  "skip qi r x =
     (case fp_s x of
        inQuote \<Rightarrow> skip_inQuote qi r x
      | inBackticks \<Rightarrow> skip_inBackticks qi r x
      | inNumberInWord \<Rightarrow> skip_inNumberInWord qi r x
      | inNumber \<Rightarrow> skip_inNumber qi r x
      | inValues \<Rightarrow> skip_inValues qi r x
      | inMLC \<Rightarrow> skip_inMLC qi r x
      | mlcOrMySQLCode \<Rightarrow> skip_mlcOrMySQLCode qi r x
      | inOLC \<Rightarrow> skip_inOLC qi r x
      | _ \<Rightarrow> if isSpace r \<and> isSpace (fp_pr x)
             then Inr (Cont (x\<lparr>cpFromOffset := qi + 1, fp_pr := r\<rparr>))
             else Inr (Fall x))"

subsection \<open>Part 2: change state\<close>

definition change_digit :: "bool \<Rightarrow> int \<Rightarrow> fp_state \<Rightarrow> fp_state" where
  "change_digit rnw qi x =
     (case fp_s x of
        opOrNumber \<Rightarrow> x\<lparr>cpToOffset := qi - 1, fp_s := inNumber\<rparr>
      | inOp \<Rightarrow> x\<lparr>cpToOffset := qi, fp_s := inNumber\<rparr>
      | inWord \<Rightarrow>
          if fp_pr x = rn CHR ''('' then x\<lparr>cpToOffset := qi, fp_s := inNumber\<rparr>
          else if fp_pr x = rn CHR '','' then x\<lparr>fp_s := inNumber, cpToOffset := qi\<rparr>
          else if rnw then x\<lparr>fp_s := inNumberInWord, cpToOffset := qi\<rparr>
          else x
      | _ \<Rightarrow> x\<lparr>fp_s := inNumber, cpToOffset := qi\<rparr>)"

definition isNullValue :: "string \<Rightarrow> string \<Rightarrow> bool" where
  "isNullValue pw word =
     ((word = ''null'' \<and> (pw \<noteq> ''is'' \<and> pw \<noteq> ''not'')) \<or> word = ''null,'')"

text \<open>NULL as a value, and \<open>asc\<close> in an \<open>ORDER BY\<close>: both rewrite the output directly.\<close>

definition null_value :: "string \<Rightarrow> int \<Rightarrow> fp_state \<Rightarrow> fp_state result" where
  "null_value word qi x =
     bindR (put_byte CHR ''?'' x) (\<lambda>x.
     bindR (if last word = CHR '','' then put_byte CHR '','' x else Inr x) (\<lambda>x.
     bindR (put_space x) (\<lambda>x. Inr (x\<lparr>cpFromOffset := qi + 1\<rparr>))))"

definition order_asc :: "string \<Rightarrow> int \<Rightarrow> fp_state \<Rightarrow> fp_state result" where
  "order_asc word qi x =
     (let x = x\<lparr>cpFromOffset := qi\<rparr> in
      if last word = CHR '','' then
        bindR (set_at (fp_f x) (fp_fi x - 1) CHR '','') (\<lambda>f.
        bindR (set_at f (fp_fi x) CHR '' '') (\<lambda>f.
        Inr (x\<lparr>fp_f := f, fp_fi := fp_fi x + 1\<rparr>)))
      else Inr x)"

definition word_effect :: "(rune \<Rightarrow> rune) \<Rightarrow> string \<Rightarrow> int \<Rightarrow> fp_state \<Rightarrow> fp_state result" where
  "word_effect uni word qi x =
     (if isNullValue (prevWord x) word then null_value word qi x
      else if prevWord x = ''order'' \<and> word = ''by'' then Inr (x\<lparr>sqlState := orderBy\<rparr>)
      else if sqlState x = orderBy \<and> wordIn uni word [''asc'', ''asc,'', ''asc ''] then order_asc word qi x
      else if prevWord x = ''key'' \<and> word = ''update'' then Inr (x\<lparr>sqlState := onDupeKeyUpdate\<rparr>)
      else Inr x)"

definition word_end :: "(rune \<Rightarrow> rune) \<Rightarrow> string \<Rightarrow> int \<Rightarrow> fp_state \<Rightarrow> fp_next result" where
  "word_end uni q qi x =
     bindR (slice q (cpFromOffset x) qi) (\<lambda>sub.
     let word = ToLower uni sub in
     if word = ''use'' \<and> prevWord x = [] then Inr (Ret ''use ?'')
     else bindR (word_effect uni word qi x)
       (\<lambda>x. Inr (Fall (x\<lparr>fp_s := inSpace, cpToOffset := qi, addSpace := True\<rparr>))))"

definition change_space :: "(rune \<Rightarrow> rune) \<Rightarrow> string \<Rightarrow> int \<Rightarrow> fp_state \<Rightarrow> fp_next result" where
  "change_space uni q qi x =
     (if fp_s x = unknown then
        (if fp_fi x > 0 then
           bindR (get_at (fp_f x) (fp_fi x - 1)) (\<lambda>c.
             if \<not> isSpace (rn c)
             then bindR (put_space x) (\<lambda>x. Inr (Fall (x\<lparr>cpFromOffset := qi + 1\<rparr>)))
             else Inr (Fall x))
         else Inr (Fall x))
      else if fp_s x = inDash then
        Inr (Fall (let x = x\<lparr>fp_s := inOLC\<rparr> in
                   if cpToOffset x > 2 then x\<lparr>cpToOffset := qi - 2\<rparr> else x))
      else if fp_s x = moreValuesOrUnknown then
        (if valueNo x = 1 then bindR (put_space x) (\<lambda>x. Inr (Fall x)) else Inr (Fall x))
      else word_end uni q qi x)"

definition change_quote :: "int \<Rightarrow> rune \<Rightarrow> fp_state \<Rightarrow> fp_state" where
  "change_quote qi r x =
     (if fp_pr x \<noteq> rn CHR 0x5C \<and> fp_s x \<noteq> inQuote then
        let x = x\<lparr>fp_s := inQuote, quoteChar := r, cpToOffset := qi\<rparr> in
        if fp_pr x = rn CHR ''x'' \<or> fp_pr x = rn CHR ''b'' then x\<lparr>cpToOffset := -2\<rparr> else x
      else x)"

definition change_paren :: "(rune \<Rightarrow> rune) \<Rightarrow> string \<Rightarrow> int \<Rightarrow> fp_state \<Rightarrow> fp_next result" where
  "change_paren uni q qi x =
     (if prevWord x = ''call'' then
        bindR (slice q (cpFromOffset x) qi) (\<lambda>w. Inr (Ret (''call '' @ w)))
      else bindR
        (if sqlState x \<noteq> onDupeKeyUpdate then
           (if (fp_s x = inSpace \<or> fp_s x = moreValuesOrUnknown) \<and>
               (prevWord x = ''value'' \<or> prevWord x = ''values'' \<or> prevWord x = ''in'')
            then Inr True
            else bindR (slice q (cpFromOffset x) qi)
                   (\<lambda>w. Inr (wordIn uni w [''value'', ''values'', ''in''])))
         else Inr False)
        (\<lambda>b. Inr (Fall
           (if b then
              let x = x\<lparr>fp_s := inValues, sqlState := inValues, parOpen := 1, firstPar := qi\<rparr>
              in if valueNo x = 0 then x\<lparr>cpToOffset := qi\<rparr> else x
            else if fp_s x \<noteq> inWord then x\<lparr>valueNo := 0, cpFromOffset := qi, fp_s := inWord\<rparr>
            else x))))"

definition change_default :: "int \<Rightarrow> fp_state \<Rightarrow> fp_state" where
  "change_default qi x =
     (let x = (if fp_s x \<noteq> inWord \<and> fp_s x \<noteq> inOp then
                 let x = x\<lparr>valueNo := 0, cpFromOffset := qi\<rparr>
                 in if sqlState x = inValues then x\<lparr>sqlState := unknown\<rparr> else x
               else x)
      in x\<lparr>fp_s := inWord\<rparr>)"

definition change :: "(rune \<Rightarrow> rune) \<Rightarrow> bool \<Rightarrow> string \<Rightarrow> int \<Rightarrow> rune \<Rightarrow> fp_state \<Rightarrow> fp_next result" where
  "change uni rnw q qi r x =
     (if 0x30 \<le> r \<and> r \<le> 0x39 then Inr (Fall (change_digit rnw qi x))
      else if isSpace r then change_space uni q qi x
      else if r = rn CHR 0x27 \<or> r = rn CHR 0x22 then Inr (Fall (change_quote qi r x))
      else if r = rn CHR 0x60 then
        Inr (Fall (if fp_pr x \<noteq> rn CHR 0x5C \<and> fp_s x \<noteq> inBackticks then x\<lparr>fp_s := inBackticks\<rparr> else x))
      else if r = rn CHR ''='' \<or> r = rn CHR ''<'' \<or> r = rn CHR ''>'' \<or> r = rn CHR ''!'' then
        Inr (Fall (let x = (if fp_s x \<noteq> inWord \<and> fp_s x \<noteq> inOp then x\<lparr>cpFromOffset := qi\<rparr> else x)
                   in x\<lparr>fp_s := inOp\<rparr>))
      else if r = rn CHR ''/'' then Inr (Fall (x\<lparr>fp_s := divOrMLC\<rparr>))
      else if r = rn CHR ''*'' \<and> fp_s x = divOrMLC then Inr (Fall (x\<lparr>fp_s := mlcOrMySQLCode\<rparr>))
      else if r = rn CHR ''+'' then Inr (Fall (x\<lparr>fp_s := opOrNumber\<rparr>))
      else if r = rn CHR ''-'' then
        Inr (Fall (if fp_pr x = rn CHR ''-'' then x\<lparr>fp_s := inDash\<rparr> else x\<lparr>fp_s := opOrNumber\<rparr>))
      else if r = rn CHR ''.'' then
        Inr (Fall (if fp_s x = inNumber \<or> fp_s x = inOp then x\<lparr>fp_s := inNumber, cpToOffset := qi\<rparr> else x))
      else if r = rn CHR ''('' then change_paren uni q qi x
      else if r = rn CHR '','' \<and> fp_s x = moreValuesOrUnknown then Inr (Fall x)
      else if r = rn CHR '':'' \<and> prevWord x = ''administrator'' then
        bindR (slice q 0 (int (length q) - 1)) (\<lambda>w. Inr (Ret w))
      else if r = rn CHR ''#'' then Inr (Fall (x\<lparr>addSpace := False, fp_s := inOLC\<rparr>))
      else Inr (Fall (change_default qi x)))"

subsection \<open>Part 3: copy a slice of the query\<close>

definition after_copy ::
    "(rune \<Rightarrow> rune) \<Rightarrow> string \<Rightarrow> int \<Rightarrow> string \<Rightarrow> fp_state \<Rightarrow> fp_state result" where
  "after_copy uni pw l f x =
     (let x = x\<lparr>prevWord := pw, fp_f := f, fp_fi := fp_fi x + l, cpFromOffset := cpToOffset x\<rparr> in
      if wordIn uni pw [''in'', ''value'', ''values''] \<and> sqlState x \<noteq> onDupeKeyUpdate then
        Inr (x\<lparr>addSpace := False, fp_s := inValues, sqlState := inValues\<rparr>)
      else if addSpace x then
        bindR (put_space x) (\<lambda>x. Inr (x\<lparr>cpFromOffset := cpFromOffset x + 1, addSpace := False\<rparr>))
      else Inr x)"

definition copy_word :: "(rune \<Rightarrow> rune) \<Rightarrow> string \<Rightarrow> fp_state \<Rightarrow> fp_state result" where
  "copy_word uni q x =
     (if cpToOffset x > cpFromOffset x then
        let l = cpToOffset x - cpFromOffset x in
        bindR (slice q (cpFromOffset x) (cpToOffset x)) (\<lambda>sub.
        let pw = ToLower uni sub in
        bindR (copy_into (fp_f x) (fp_fi x) (fp_fi x + l) pw) (\<lambda>f. after_copy uni pw l f x))
      else Inr x)"

subsection \<open>One iteration, the loop and the function\<close>

definition fp_step ::
    "(rune \<Rightarrow> rune) \<Rightarrow> bool \<Rightarrow> string \<Rightarrow> int \<Rightarrow> rune \<Rightarrow> fp_state \<Rightarrow> fp_next result" where
  "fp_step uni rnw q qi r x =
     bindR (skip qi r x) (\<lambda>n. case n of Fall x \<Rightarrow>
       bindR (change uni rnw q qi r x) (\<lambda>n. case n of Fall x \<Rightarrow>
         bindR (copy_word uni q x) (\<lambda>x. Inr (Cont (x\<lparr>fp_pr := r\<rparr>)))
       | n \<Rightarrow> Inr n)
     | n \<Rightarrow> Inr n)"

text \<open>The loop: \<open>Cont\<close> of the last state when it runs off the end, \<open>Ret\<close> of an early return.\<close>

fun fp_run ::
    "(rune \<Rightarrow> rune) \<Rightarrow> bool \<Rightarrow> string \<Rightarrow> (int \<times> rune) list \<Rightarrow> fp_state \<Rightarrow> fp_next result" where
  "fp_run uni rnw q [] x = Inr (Cont x)"
| "fp_run uni rnw q ((qi, r) # rs) x =
     bindR (fp_step uni rnw q qi r x) (\<lambda>n. case n of Cont x \<Rightarrow> fp_run uni rnw q rs x | n \<Rightarrow> Inr n)"

text \<open>\<open>for fi > 0 && len(f) > fi-1 && isSpace(f[fi-1]) { fi-- }\<close>\<close>

fun trim_spaces :: "string \<Rightarrow> nat \<Rightarrow> nat" where
  "trim_spaces f 0 = 0"
| "trim_spaces f (Suc n) =
     (if n < length f \<and> isSpace (rn (f ! n)) then trim_spaces f n else Suc n)"

definition fp_finish :: "fp_state \<Rightarrow> string" where
  "fp_finish x =
     (let n = trim_spaces (fp_f x) (nat (fp_fi x)) in
      if n \<le> length (fp_f x) then filter (\<lambda>c. c \<noteq> CHR 0x00) (take n (fp_f x)) else [])"

definition Fingerprint :: "(rune \<Rightarrow> rune) \<Rightarrow> bool \<Rightarrow> string \<Rightarrow> string result" where
  "Fingerprint uni rnw q0 =
     (let q = q0 @ '' '' in
      bindR (fp_run uni rnw q (range_string q) (fp_init q)) (\<lambda>n.
        case n of Cont x \<Rightarrow> Inr (fp_finish x) | Fall x \<Rightarrow> Inr (fp_finish x) | Ret w \<Rightarrow> Inr w))"

text \<open>\<open>Id\<close>: the last 16 hexadecimal digits of the MD5 sum, in upper case.\<close>

definition hex_digit :: "bool \<Rightarrow> int \<Rightarrow> char" where
  "hex_digit upper n =
     (if n < 10 then byte (48 + n) else if upper then byte (55 + n) else byte (87 + n))"

definition hex :: "string \<Rightarrow> string" where
  "hex s = concat (map (\<lambda>c. [hex_digit False (rn c div 16), hex_digit False (rn c mod 16)]) s)"

definition upper_byte :: "char \<Rightarrow> char" where
  "upper_byte c = (if 97 \<le> rn c \<and> rn c \<le> 122 then byte (rn c - 32) else c)"

definition Id_fp :: "(string \<Rightarrow> string) \<Rightarrow> string \<Rightarrow> string result" where
  "Id_fp md5 fingerprint =
     bindR (slice (hex (md5 fingerprint)) 16 32) (\<lambda>h. Inr (map upper_byte h))"

end
