(* ===== verification/Fingerprint_Safety.thy ===== *)
theory Fingerprint_Safety
  imports Fingerprint
begin

section \<open>The fingerprint lexer stays inside the query and its buffer\<close>

text \<open>
  Two invariants of the loop of \<open>Fingerprint\<close>. \<open>offs_inv\<close>: both offsets into the query
  never pass the rune being read, so that no slice of the query is out of range, for any
  query. \<open>buf_inv\<close>: on a query with no closing parenthesis the output never gets ahead
  of the input, so that no write is out of range and the function returns.
\<close>


named_theorems fp_defs

lemmas fp_ops [fp_defs] = put_byte_def put_space_def put_string_def sat_access Let_def

definition offs_inv :: "int \<Rightarrow> fp_state \<Rightarrow> bool" where
  "offs_inv k x \<longleftrightarrow> 0 \<le> cpFromOffset x \<and> cpFromOffset x \<le> k \<and> cpToOffset x \<le> k"

definition next_ok :: "(fp_state \<Rightarrow> bool) \<Rightarrow> (fp_state \<Rightarrow> bool) \<Rightarrow> fp_next \<Rightarrow> bool" where
  "next_ok C F n = (case n of Cont x \<Rightarrow> C x | Fall x \<Rightarrow> F x | Ret w \<Rightarrow> True)"

lemma next_ok_simps [simp]:
  "next_ok C F (Cont x) = C x" "next_ok C F (Fall x) = F x" "next_ok C F (Ret w)"
  by (simp_all add: next_ok_def)

lemmas skip_defs = skip_def skip_inQuote_def skip_inBackticks_def skip_inNumberInWord_def
  skip_inNumber_def skip_inValues_def values_check_def values_end_def skip_inMLC_def
  skip_mlcOrMySQLCode_def skip_inOLC_def

lemma skip_offs:
  "offs_inv qi x \<Longrightarrow> sat True (next_ok (offs_inv (qi + 1)) (offs_inv qi)) (skip qi r x)"
  by (cases "fp_s x")
     (auto simp: skip_defs fp_defs copy_into_def offs_inv_def)

lemmas word_defs = word_end_def word_effect_def null_value_def order_asc_def

lemma word_end_offs:
  "offs_inv qi x \<Longrightarrow> sat True (next_ok C (\<lambda>y. offs_inv (qi + 1) y \<and> cpToOffset y \<le> qi)) (word_end uni q qi x)"
  by (auto simp: word_defs fp_defs offs_inv_def)

lemma change_space_offs:
  "offs_inv qi x \<Longrightarrow>
   sat True (next_ok C (\<lambda>y. offs_inv (qi + 1) y \<and> cpToOffset y \<le> qi)) (change_space uni q qi x)"
  using word_end_offs [of qi x C uni q]
  by (auto simp: change_space_def fp_defs offs_inv_def)


abbreviation offs_pre :: "int \<Rightarrow> fp_state \<Rightarrow> bool" where
  "offs_pre qi y \<equiv> offs_inv (qi + 1) y \<and> cpToOffset y \<le> qi"

lemma change_digit_offs: "offs_inv qi x \<Longrightarrow> offs_pre qi (change_digit rnw qi x)"
  by (cases "fp_s x") (auto simp: change_digit_def offs_inv_def)

lemma change_quote_offs: "offs_inv qi x \<Longrightarrow> offs_pre qi (change_quote qi r x)"
  by (auto simp: change_quote_def offs_inv_def Let_def)

lemma change_paren_offs:
  "offs_inv qi x \<Longrightarrow> sat True (next_ok C (offs_pre qi)) (change_paren uni q qi x)"
  by (auto simp: change_paren_def offs_inv_def fp_defs)

lemma change_default_offs: "offs_inv qi x \<Longrightarrow> offs_pre qi (change_default qi x)"
  by (auto simp: change_default_def offs_inv_def Let_def)

lemma change_offs:
  assumes "offs_inv qi x"
  shows "sat True (next_ok C (offs_pre qi)) (change uni rnw q qi r x)"
  using change_space_offs [OF assms] change_digit_offs [OF assms] change_quote_offs [OF assms]
    change_paren_offs [OF assms] change_default_offs [OF assms] assms
  unfolding change_def
  by (auto simp: offs_inv_def sat_slice Let_def)

lemma copy_word_offs:
  "offs_inv (qi + 1) x \<Longrightarrow> cpToOffset x \<le> qi \<Longrightarrow> sat True (offs_inv (qi + 1)) (copy_word uni q x)"
  by (auto simp: copy_word_def after_copy_def copy_into_def fp_defs offs_inv_def)

lemma offs_inv_pr [simp]: "offs_inv k (x\<lparr>fp_pr := r\<rparr>) = offs_inv k x"
  by (simp add: offs_inv_def)

lemma sat_next:
  assumes "sat b (next_ok C F) m" and "\<And>y. F y \<Longrightarrow> sat b (next_ok C G) (k y)"
  shows "sat b (next_ok C G)
    (bindR m (\<lambda>n. case n of Cont x \<Rightarrow> Inr (Cont x) | Fall x \<Rightarrow> k x | Ret w \<Rightarrow> Inr (Ret w)))"
  unfolding sat_bind
  by (rule sat_mono [OF assms(1)]) (auto simp: assms(2) split: fp_next.splits)

lemma sat_step:
  assumes "sat b (next_ok C F) (skip qi r x)"
    and "\<And>y. F y \<Longrightarrow> sat b (next_ok C G) (change uni rnw q qi r y)"
    and "\<And>y. G y \<Longrightarrow> sat b (\<lambda>z. C (z\<lparr>fp_pr := r\<rparr>)) (copy_word uni q y)"
  shows "sat b (next_ok C (\<lambda>_. False)) (fp_step uni rnw q qi r x)"
  unfolding fp_step_def
  by (intro sat_next [OF assms(1)] sat_next [OF assms(2)]) (auto simp: assms(3))

lemma sat_run:
  assumes step: "\<And>k r x. I k x \<Longrightarrow> 0 \<le> k \<Longrightarrow> k < int (length q) \<Longrightarrow> R r \<Longrightarrow>
      sat b (next_ok (I (k + 1)) (\<lambda>_. False)) (fp_step uni rnw q k r x)"
    and mono: "\<And>k k' x. I k x \<Longrightarrow> k \<le> k' \<Longrightarrow> I k' x"
    and "I k x" "0 \<le> k" "k + int (length s) = e" "e \<le> int (length q)"
    and "\<forall>(i, r) \<in> set (range_from k s). R r"
  shows "sat b (next_ok (I e) (\<lambda>_. False)) (fp_run uni rnw q (range_from k s) x)"
  using assms(3-7)
proof (induction k s arbitrary: x rule: range_from.induct)
  case (1 k s)
  show ?case
  proof (cases "s = []")
    case True
    with "1.prems" show ?thesis by (simp add: range_from.simps)
  next
    case False
    let ?w = "rune_width s" and ?r = "fst (decode_rune s)"
    have w: "1 \<le> ?w" "?w \<le> length s"
      using rune_width_pos [OF False] rune_width_le [of s] by simp_all
    have eq: "range_from k s = (k, ?r) # range_from (k + int ?w) (drop ?w s)"
      using False by (subst range_from.simps) simp
    have st: "sat b (next_ok (I (k + 1)) (\<lambda>_. False)) (fp_step uni rnw q k ?r x)"
      using "1.prems" w by (intro step) (auto simp: eq)
    have IH: "sat b (next_ok (I e) (\<lambda>_. False))
        (fp_run uni rnw q (range_from (k + int ?w) (drop ?w s)) y)" if "I (k + 1) y" for y
      using "1.prems" w False
      by (intro "1.IH" mono [OF that]) (auto simp: eq)
    show ?thesis
      unfolding eq fp_run.simps sat_bind
      by (rule sat_mono [OF st]) (auto simp: IH split: fp_next.splits)
  qed
qed

lemma offs_inv_mono: "offs_inv k x \<Longrightarrow> k \<le> k' \<Longrightarrow> offs_inv k' x"
  by (simp add: offs_inv_def)

lemma step_offs:
  "offs_inv k x \<Longrightarrow> sat True (next_ok (offs_inv (k + 1)) (\<lambda>_. False)) (fp_step uni rnw q k r x)"
  by (rule sat_step [OF skip_offs, where G = "offs_pre k"])
     (auto intro: change_offs copy_word_offs)

subsection \<open>Without a closing parenthesis the output fits the buffer\<close>

definition settled :: "int \<Rightarrow> fp_state \<Rightarrow> bool" where
  "settled k x \<longleftrightarrow> cpFromOffset x < k \<or> fp_fi x + 2 \<le> cpFromOffset x \<or> fp_s x = unknown"

definition buf_base :: "nat \<Rightarrow> fp_state \<Rightarrow> bool" where
  "buf_base n x \<longleftrightarrow>
     length (fp_f x) = n \<and> 0 \<le> fp_fi x \<and> fp_fi x \<le> cpFromOffset x \<and>
     parOpenTotal x = 0 \<and> fp_s x \<noteq> moreValuesOrUnknown \<and>
     (prevWord x \<noteq> [] \<longrightarrow> 0 < fp_fi x) \<and> (sqlState x = orderBy \<longrightarrow> 0 < fp_fi x)"

definition buf_inv :: "nat \<Rightarrow> int \<Rightarrow> fp_state \<Rightarrow> bool" where
  "buf_inv n k x \<longleftrightarrow>
     buf_base n x \<and> cpFromOffset x \<le> k \<and> cpToOffset x \<le> k \<and>
     (addSpace x \<longrightarrow> fp_fi x + 2 \<le> cpFromOffset x) \<and>
     (settled k x \<or> fp_s x = inSpace \<and> isSpace (fp_pr x)) \<and>
     (addSpace x \<and> (fp_s x = inNumber \<or> fp_s x = inNumberInWord) \<longrightarrow> cpFromOffset x < k)"

definition buf_mid :: "nat \<Rightarrow> int \<Rightarrow> rune \<Rightarrow> fp_state \<Rightarrow> bool" where
  "buf_mid n qi r x \<longleftrightarrow>
     buf_base n x \<and> cpFromOffset x \<le> qi \<and> cpToOffset x \<le> qi \<and>
     (addSpace x \<longrightarrow> fp_fi x + 2 \<le> cpFromOffset x) \<and> (isSpace r \<longrightarrow> settled qi x)"

definition buf_pre :: "nat \<Rightarrow> int \<Rightarrow> rune \<Rightarrow> fp_state \<Rightarrow> bool" where
  "buf_pre n qi r x \<longleftrightarrow>
     buf_base n x \<and> cpFromOffset x \<le> qi + 1 \<and> cpToOffset x \<le> qi \<and>
     (addSpace x \<longrightarrow> fp_fi x + 2 \<le> cpFromOffset x \<or>
        cpFromOffset x < cpToOffset x \<and> fp_s x = inSpace \<and> isSpace r) \<and>
     settled (qi + 1) x \<and>
     (fp_s x = inNumber \<or> fp_s x = inNumberInWord \<longrightarrow> cpFromOffset x \<le> qi)"

lemmas buf_defs = buf_inv_def buf_mid_def buf_pre_def buf_base_def settled_def

lemma skip_buf:
  assumes "buf_inv n qi x" "qi < int n" "r \<noteq> rn CHR '')''"
  shows "sat False (next_ok (buf_inv n (qi + 1)) (buf_mid n qi r)) (skip qi r x)"
  using assms
  by (cases "fp_s x") (auto simp: skip_defs fp_defs buf_defs isDigit_def)

lemma null_value_buf:
  assumes "buf_mid n qi r x" "qi < int n" "isSpace r"
    and "cpFromOffset x + int (length word) \<le> qi" "word = ''null'' \<or> word = ''null,''"
  shows "sat False (\<lambda>y. buf_base n y \<and> cpFromOffset y = qi + 1 \<and> fp_fi y + 2 \<le> qi)
    (null_value word qi x)"
  using assms by (auto simp: null_value_def fp_defs buf_defs)

lemma order_asc_buf:
  assumes "buf_mid n qi r x" "qi < int n" "isSpace r" "sqlState x = orderBy"
    and "cpFromOffset x + 3 \<le> qi"
  shows "sat False (\<lambda>y. buf_base n y \<and> cpFromOffset y = qi \<and> fp_fi y + 2 \<le> qi)
    (order_asc word qi x)"
  using assms by (auto simp: order_asc_def fp_defs buf_defs)

lemma word_end_buf:
  assumes "buf_mid n qi r x" "qi < int n" "isSpace r" "fp_s x \<noteq> unknown" "length q = n"
  shows "sat False (next_ok C (buf_pre n qi r)) (word_end uni q qi x)"
proof -
  let ?sub = "take (nat qi - nat (cpFromOffset x)) (drop (nat (cpFromOffset x)) q)"
  let ?word = "ToLower uni ?sub"
  let ?ended = "\<lambda>y. y\<lparr>fp_s := inSpace, cpToOffset := qi, addSpace := True\<rparr>"
  have offs: "0 \<le> cpFromOffset x" "cpFromOffset x \<le> qi" "qi \<le> int (length q)"
    using assms by (auto simp: buf_defs)
  have len: "cpFromOffset x + int (length ?sub) = qi" using offs by auto
  have plain: "buf_pre n qi r (?ended y)"
    if "y = x \<or> y = x\<lparr>sqlState := orderBy\<rparr> \<and> prevWord x \<noteq> [] \<or> y = x\<lparr>sqlState := onDupeKeyUpdate\<rparr>" for y
    using that assms by (auto simp: buf_defs)
  have fin: "buf_pre n qi r (?ended y)"
    if "buf_base n y" "fp_fi y + 2 \<le> qi" "cpFromOffset y = qi \<or> cpFromOffset y = qi + 1" for y
    using that by (auto simp: buf_defs)
  have null: "sat False (\<lambda>y. buf_pre n qi r (?ended y)) (null_value ?word qi x)"
    if "isNullValue (prevWord x) ?word"
  proof (rule sat_mono [OF null_value_buf [OF assms(1-3)]])
    show "?word = ''null'' \<or> ?word = ''null,''" using that by (auto simp: isNullValue_def)
    then have "\<forall>c \<in> set ?word. rn c < 128" by auto
    then have "length ?word \<le> length ?sub" by (rule length_ToLower_ascii)
    then show "cpFromOffset x + int (length ?word) \<le> qi" using len by linarith
  qed (simp add: fin)
  have asc: "sat False (\<lambda>y. buf_pre n qi r (?ended y)) (order_asc ?word qi x)"
    if "sqlState x = orderBy" "wordIn uni ?word [''asc'', ''asc,'', ''asc '']"
  proof (rule sat_mono [OF order_asc_buf [OF assms(1-3) that(1)]])
    have "\<forall>c \<in> set (ToLower uni ?word). rn c < 128" "3 \<le> length (ToLower uni ?word)"
      using that(2) by (auto simp: wordIn_def)
    then have "3 \<le> length (runes ?sub)"
      using length_runes_ascii [of "ToLower uni ?word"] by (simp add: length_runes_ToLower)
    then show "cpFromOffset x + 3 \<le> qi" using length_runes [of ?sub] len by linarith
  qed (simp add: fin)
  show ?thesis
    using offs null asc plain unfolding word_end_def word_effect_def sat_bind sat_slice Let_def by auto
qed

lemma change_space_buf:
  assumes "buf_mid n qi r x" "qi < int n" "isSpace r" "length q = n"
  shows "sat False (next_ok C (buf_pre n qi r)) (change_space uni q qi x)"
proof (cases "fp_s x = unknown \<or> fp_s x = inDash \<or> fp_s x = moreValuesOrUnknown")
  case True
  then show ?thesis using assms by (auto simp: change_space_def fp_defs buf_defs)
next
  case False
  then show ?thesis using word_end_buf [OF assms(1-3)] assms(4) by (simp add: change_space_def)
qed

lemma change_digit_buf:
  "buf_mid n qi r x \<Longrightarrow> buf_pre n qi r (change_digit rnw qi x)"
  by (cases "fp_s x") (auto simp: change_digit_def buf_defs)

lemma change_quote_buf:
  "buf_mid n qi r x \<Longrightarrow> buf_pre n qi r (change_quote qi r x)"
  by (auto simp: change_quote_def buf_defs Let_def)

lemma change_paren_buf:
  "buf_mid n qi r x \<Longrightarrow> qi < int (length q) \<Longrightarrow>
   sat False (next_ok C (buf_pre n qi r)) (change_paren uni q qi x)"
  by (auto simp: change_paren_def buf_defs fp_defs)

lemma change_default_buf: "buf_mid n qi r x \<Longrightarrow> buf_pre n qi r (change_default qi x)"
  by (auto simp: change_default_def buf_defs Let_def)

lemma change_buf:
  assumes "buf_mid n qi r x" "0 \<le> qi" "qi < int n" "length q = n"
  shows "sat False (next_ok C (buf_pre n qi r)) (change uni rnw q qi r x)"
proof -
  have idle: "buf_pre n qi r x" and st: "\<And>s. s \<noteq> moreValuesOrUnknown \<Longrightarrow> s \<noteq> inNumber \<Longrightarrow> s \<noteq> inNumberInWord \<Longrightarrow> 
      buf_pre n qi r (x\<lparr>fp_s := s\<rparr>) \<and> buf_pre n qi r (x\<lparr>fp_s := s, cpFromOffset := qi\<rparr>) \<and>
      buf_pre n qi r (x\<lparr>addSpace := False, fp_s := s\<rparr>) \<and> buf_pre n qi r (x\<lparr>cpFromOffset := qi, fp_s := s\<rparr>)"
    and num: "buf_pre n qi r (x\<lparr>fp_s := inNumber, cpToOffset := qi\<rparr>)"
    using assms(1) by (auto simp: buf_defs)
  show ?thesis
    using change_space_buf [OF assms(1,3) _ assms(4), of C uni] change_digit_buf [OF assms(1)]
      change_quote_buf [OF assms(1)] change_paren_buf [OF assms(1), of q] change_default_buf [OF assms(1)]
      assms idle st num
    unfolding change_def
    by (auto simp: sat_slice Let_def)
qed

lemma after_copy_buf:
  assumes "buf_pre n qi r x" "qi < int n" "cpToOffset x > cpFromOffset x" "length f = n"
  shows "sat False (\<lambda>z. buf_inv n (qi + 1) (z\<lparr>fp_pr := r\<rparr>))
    (after_copy uni pw (cpToOffset x - cpFromOffset x) f x)"
  using assms by (auto simp: after_copy_def buf_defs fp_defs)

lemma copy_word_buf:
  assumes "buf_pre n qi r x" "qi < int n" "length q = n"
  shows "sat False (\<lambda>z. buf_inv n (qi + 1) (z\<lparr>fp_pr := r\<rparr>)) (copy_word uni q x)"
proof (cases "cpToOffset x > cpFromOffset x")
  case True
  have "0 \<le> cpFromOffset x \<and> cpFromOffset x \<le> cpToOffset x \<and> cpToOffset x \<le> int (length q)"
    "0 \<le> fp_fi x \<and> cpToOffset x \<le> int (length (fp_f x)) \<and> fp_fi x \<le> cpFromOffset x" "length (fp_f x) = n"
    using assms True by (auto simp: buf_defs)
  with True show ?thesis
    by (simp add: copy_word_def sat_slice Let_def sat_copy_into after_copy_buf [OF assms(1,2) True])
next
  case False
  then show ?thesis using assms by (auto simp: copy_word_def buf_defs)
qed

lemma step_buf:
  assumes "buf_inv n k x" "0 \<le> k" "k < int n" "length q = n" "r \<noteq> rn CHR '')''"
  shows "sat False (next_ok (buf_inv n (k + 1)) (\<lambda>_. False)) (fp_step uni rnw q k r x)"
  by (rule sat_step [OF skip_buf [OF assms(1,3,5)], where G = "buf_pre n k r"])
     (use assms in \<open>auto intro: change_buf copy_word_buf\<close>)

lemma buf_inv_mono: "buf_inv n k x \<Longrightarrow> k \<le> k' \<Longrightarrow> buf_inv n k' x"
  by (auto simp: buf_defs)

lemma buf_inv_init: "buf_inv (length q) 0 (fp_init q)"
  by (simp add: buf_defs fp_init_def)

lemma run_buf:
  assumes "CHR '')'' \<notin> set s" "buf_inv (length q) k x" "0 \<le> k"
    and "k + int (length s) = e" "e \<le> int (length q)"
  shows "sat False (next_ok (buf_inv (length q) e) (\<lambda>_. False)) (fp_run uni rnw q (range_from k s) x)"
proof (rule sat_run [where R = "\<lambda>r. r \<noteq> rn CHR '')''"])
  show "\<forall>(i, r) \<in> set (range_from k s). r \<noteq> rn CHR '')''"
    using assms(1) range_from_rune [of _ "CHR '')''" k s] by auto
qed (use assms in \<open>auto intro: step_buf buf_inv_mono\<close>)

text \<open>C2. Fingerprinting a query without a closing parenthesis never panics: every slice and index of the
  source stays in range and the output fits the buffer of \<open>len(q)\<close> bytes that the code allocates for it.\<close>

theorem Fingerprint_total:
  assumes "CHR '')'' \<notin> set q"
  shows "\<exists>w. Fingerprint uni rnw q = Inr w"
proof -
  let ?q = "q @ '' ''"
  have "sat False (next_ok (buf_inv (length ?q) (int (length ?q))) (\<lambda>_. False))
      (fp_run uni rnw ?q (range_from 0 ?q) (fp_init ?q))"
    using assms by (intro run_buf buf_inv_init) simp_all
  then show ?thesis
    by (auto simp: Fingerprint_def range_string_def Let_def elim!: sat_FalseE split: fp_next.splits)
qed

theorem Fingerprint_total_witness:
  "\<exists>w. Fingerprint (\<lambda>r. r) True ''SELECT c FROM t1 WHERE id IN (3, NULL'' = Inr w"
  using Fingerprint_total [of "''SELECT c FROM t1 WHERE id IN (3, NULL''" "\<lambda>r. r" True] by simp

text \<open>
  With a closing parenthesis the buffer can be too small: a list \<open>(1)\<close> of one byte is replaced by the
  four bytes \<open>(?+)\<close>. The fingerprint of the first query is empty, and the second query panics.
\<close>

lemma Fingerprint_in_list_lost:
  "Fingerprint (\<lambda>r. r) False ''select a from t where b in(1)'' = Inr []"
  by code_simp

lemma Fingerprint_in_list_panic:
  "Fingerprint (\<lambda>r. r) False ''b in(1) or c in(2)'' = Inl SlicePanic"
  by code_simp

end
