(* ===== verification/Fingerprint_Case.thy ===== *)
theory Fingerprint_Case
  imports Fingerprint_Safety
begin

section \<open>What a fingerprint can contain\<close>

text \<open>
  The output buffer of \<open>Fingerprint\<close> never holds an ASCII upper-case letter, whatever the
  query, and the only results that are not read from the buffer are the three early
  returns of the source (\<open>use ?\<close>, \<open>call ...\<close> and the query itself for an administrator
  command).
\<close>

definition ascii_upper :: "char \<Rightarrow> bool" where
  "ascii_upper c = (65 \<le> rn c \<and> rn c \<le> 90)"

definition lower_table :: "(rune \<Rightarrow> rune) \<Rightarrow> bool" where
  "lower_table uni = (\<forall>r. \<not> (65 \<le> uni r \<and> uni r \<le> 90))"

lemma encode_valid_byte:
  assumes "valid_rune r" "c \<in> set (encode_valid r)" "rn c < 128"
  shows "rn c = r"
proof -
  have "r < 128"
    using assms by (auto simp: encode_valid_def rn_byte valid_rune_def split: if_splits)
  with assms(1,2) show ?thesis by (auto simp: encode_valid_def rn_byte_small valid_rune_def)
qed

lemma lower_rune_not_upper: "lower_table uni \<Longrightarrow> \<not> (65 \<le> lower_rune uni r \<and> lower_rune uni r \<le> 90)"
  by (auto simp: lower_table_def lower_rune_def)

lemma encode_rune_not_upper:
  assumes "\<not> (65 \<le> r \<and> r \<le> 90)" "c \<in> set (encode_rune r)"
  shows "\<not> ascii_upper c"
proof
  assume "ascii_upper c"
  then have up: "rn c < 128" "65 \<le> rn c \<and> rn c \<le> 90" by (auto simp: ascii_upper_def)
  show False
  proof (cases "valid_rune r")
    case True
    then have "rn c = r" using encode_valid_byte [OF True] assms(2) up(1) by (simp add: encode_rune_def)
    with up assms(1) show False by simp
  next
    case False
    then have "rn c = RuneError"
      using encode_valid_byte [OF valid_RuneError] assms(2) up(1) by (simp add: encode_rune_def)
    with up show False by (simp add: RuneError_def)
  qed
qed

lemma ToLower_not_upper:
  assumes "lower_table uni" "c \<in> set (ToLower uni s)"
  shows "\<not> ascii_upper c"
proof (cases "\<forall>c \<in> set s. rn c < 128")
  case True
  then obtain d where d: "c = byte (lower_rune uni (rn d))" "rn d < 128"
    using assms(2) by (auto simp: ToLower_def)
  then have "rn c = lower_rune uni (rn d)"
    using lower_rune_ascii [of "rn d" uni] rn_range [of d] by (simp add: rn_byte_small)
  then show ?thesis using lower_rune_not_upper [OF assms(1)] by (simp add: ascii_upper_def)
next
  case False
  then show ?thesis
    using assms encode_rune_not_upper [OF lower_rune_not_upper [OF assms(1)]]
    by (auto simp: ToLower_def split: if_splits)
qed

definition clean :: "fp_state \<Rightarrow> bool" where
  "clean x = list_all (\<lambda>c. \<not> ascii_upper c) (fp_f x)"

lemma ascii_upper_consts [simp]:
  "\<not> ascii_upper CHR ''?''" "\<not> ascii_upper CHR '' ''" "\<not> ascii_upper CHR '',''"
  "\<not> ascii_upper CHR ''(''" "\<not> ascii_upper CHR '')''" "\<not> ascii_upper CHR ''+''" "\<not> ascii_upper CHR 0x00"
  by (simp_all add: ascii_upper_def)

lemma skip_clean: "clean x \<Longrightarrow> sat True (next_ok clean clean) (skip qi r x)"
  by (cases "fp_s x") (auto simp: skip_defs fp_defs copy_into_def clean_def)

lemma change_clean:
  assumes "clean x"
  shows "sat True (next_ok clean clean) (change uni rnw q qi r x)"
proof -
  have "clean (change_digit rnw qi x)"
    using assms by (cases "fp_s x") (simp_all add: change_digit_def clean_def)
  moreover have "sat True (next_ok clean clean) (change_space uni q qi x)"
    using assms by (auto simp: change_space_def word_defs fp_defs clean_def)
  moreover have "clean (change_quote qi r x)"
    using assms by (simp add: change_quote_def clean_def Let_def)
  moreover have "sat True (next_ok clean clean) (change_paren uni q qi x)"
    using assms by (auto simp: change_paren_def fp_defs clean_def)
  moreover have "clean (change_default qi x)"
    using assms by (simp add: change_default_def clean_def Let_def)
  ultimately show ?thesis
    using assms by (auto simp: change_def clean_def Let_def sat_slice)
qed

lemma after_copy_clean:
  "list_all (\<lambda>c. \<not> ascii_upper c) f \<Longrightarrow> sat True clean (after_copy uni pw l f x)"
  by (auto simp: after_copy_def fp_defs clean_def)

lemma copy_word_clean:
  assumes "lower_table uni" "clean x"
  shows "sat True clean (copy_word uni q x)"
proof -
  have "list_all (\<lambda>c. \<not> ascii_upper c) g" if "set g \<subseteq> set (fp_f x) \<union> set (ToLower uni sub)" for g sub
    using that assms ToLower_not_upper [OF assms(1)] by (auto simp: clean_def list_all_iff)
  then have "sat True (\<lambda>f. sat True clean (after_copy uni (ToLower uni sub) l f x))
      (copy_into (fp_f x) i j (ToLower uni sub))" for sub l i j
    by (intro sat_copy_into after_copy_clean) auto
  then show ?thesis
    using assms(2) by (simp add: copy_word_def sat_slice Let_def)
qed

lemma run_clean:
  assumes "lower_table uni" "clean x"
  shows "sat True (next_ok clean (\<lambda>_. False)) (fp_run uni rnw q rs x)"
  using assms(2)
proof (induction rs arbitrary: x)
  case Nil
  then show ?case by simp
next
  case (Cons p rs)
  obtain qi r where p: "p = (qi, r)" by (cases p)
  have "sat True (next_ok clean (\<lambda>_. False)) (fp_step uni rnw q qi r x)"
    by (rule sat_step [OF skip_clean [OF Cons.prems], where G = clean])
       (auto intro: change_clean copy_word_clean [OF assms(1), unfolded clean_def] simp: clean_def)
  then have "sat True (\<lambda>n. sat True (next_ok clean (\<lambda>_. False))
      (case n of Cont x \<Rightarrow> fp_run uni rnw q rs x | Fall x \<Rightarrow> Inr (Fall x) | Ret w \<Rightarrow> Inr (Ret w)))
      (fp_step uni rnw q qi r x)"
    by (rule sat_mono) (auto simp: Cons.IH split: fp_next.splits)
  then show ?case by (simp add: p)
qed

definition ret_ok :: "string \<Rightarrow> fp_next \<Rightarrow> bool" where
  "ret_ok q n = (\<forall>w. n = Ret w \<longrightarrow> w = ''use ?'' \<or> (\<exists>v. w = ''call '' @ v) \<or> w = butlast q)"

lemma ret_ok_simps [simp]: "ret_ok q (Cont x)" "ret_ok q (Fall x)"
  by (simp_all add: ret_ok_def)

lemma skip_ret: "sat True (ret_ok q) (skip qi r x)"
  by (cases "fp_s x") (auto simp: skip_defs fp_defs copy_into_def)

lemma change_ret: "sat True (ret_ok q) (change uni rnw q qi r x)"
proof -
  have "sat True (ret_ok q) (change_space uni q qi x)"
    by (auto simp: change_space_def word_defs fp_defs ret_ok_def)
  moreover have "sat True (ret_ok q) (change_paren uni q qi x)"
    by (auto simp: change_paren_def fp_defs ret_ok_def)
  moreover have "ret_ok q (Ret (take (nat (int (length q) - 1)) q))"
    by (simp add: ret_ok_def butlast_conv_take nat_diff_distrib')
  ultimately show ?thesis
    by (auto simp: change_def Let_def sat_slice)
qed

lemma step_ret: "sat True (ret_ok q) (fp_step uni rnw q qi r x)"
proof -
  have *: "sat True (ret_ok q) (bindR (copy_word uni q y) (\<lambda>x. Inr (Cont (x\<lparr>fp_pr := r\<rparr>))))" for y
    by simp
  have **: "sat True (ret_ok q) (bindR (change uni rnw q qi r y) (\<lambda>n. case n of
      Cont x \<Rightarrow> Inr (Cont x) | Fall x \<Rightarrow> bindR (copy_word uni q x) (\<lambda>x. Inr (Cont (x\<lparr>fp_pr := r\<rparr>))) | Ret w \<Rightarrow> Inr (Ret w)))" for y
    unfolding sat_bind by (rule sat_mono [OF change_ret]) (auto simp: * [unfolded sat_bind] split: fp_next.splits)
  show ?thesis
    unfolding fp_step_def sat_bind
    by (rule sat_mono [OF skip_ret]) (auto simp: ** [unfolded sat_bind] split: fp_next.splits)
qed

lemma run_ret: "sat True (ret_ok q) (fp_run uni rnw q rs x)"
proof (induction rs arbitrary: x)
  case (Cons p rs)
  obtain qi r where p: "p = (qi, r)" by (cases p)
  show ?case
    unfolding p fp_run.simps sat_bind
    by (rule sat_mono [OF step_ret]) (auto simp: Cons.IH split: fp_next.splits)
qed simp

lemma finish_clean:
  "clean x \<Longrightarrow> list_all (\<lambda>c. c \<noteq> CHR 0x00 \<and> \<not> ascii_upper c) (fp_finish x)"
  by (auto simp: fp_finish_def clean_def list_all_iff Let_def dest: in_set_takeD)



end
