(* ===== verification/Fingerprint_Literal.thy ===== *)
theory Fingerprint_Literal
  imports Fingerprint_Safety
begin

text \<open>
  Literals are abstracted away: the fingerprint of a query does not depend on the text of a quoted
  literal. The proof is a simulation between the runs of \<open>Fingerprint\<close> (lib/fingerprint.go) over the two
  queries: up to the opening quote they are in the same state, inside the literal only \<open>escape\<close> changes,
  and after the closing quote every offset into the longer query is moved by the same distance.
\<close>

subsection \<open>Two runs side by side\<close>

text \<open>
  \<open>shifted d e st x y\<close>: the state \<open>y\<close> of a run over a longer query is the state \<open>x\<close> with its buffer
  longer by \<open>e\<close> bytes and its offsets moved by \<open>d\<close>; \<open>st\<close> is the offset in the shorter query from which
  the two queries agree again. \<open>both R m m'\<close>: neither computation panics and their results are
  related by \<open>R\<close>.
\<close>

definition shifted :: "int \<Rightarrow> nat \<Rightarrow> int \<Rightarrow> fp_state \<Rightarrow> fp_state \<Rightarrow> bool" where
  "shifted d e st x y \<longleftrightarrow>
     prevWord y = prevWord x \<and> fp_f y = fp_f x @ replicate e CHR 0x00 \<and> fp_fi y = fp_fi x \<and>
     fp_pr y = fp_pr x \<and> fp_s y = fp_s x \<and> sqlState y = sqlState x \<and> quoteChar y = quoteChar x \<and>
     cpFromOffset y = cpFromOffset x + d \<and>
     cpToOffset y = (if st \<le> cpToOffset x then cpToOffset x + d else cpToOffset x) \<and>
     addSpace y = addSpace x \<and> escape y = escape x \<and> parOpen y = parOpen x \<and>
     parOpenTotal y = parOpenTotal x \<and> valueNo y = valueNo x"

fun shifted_next :: "int \<Rightarrow> nat \<Rightarrow> int \<Rightarrow> fp_next \<Rightarrow> fp_next \<Rightarrow> bool" where
  "shifted_next d e st (Cont x) (Cont y) = shifted d e st x y"
| "shifted_next d e st (Fall x) (Fall y) = shifted d e st x y"
| "shifted_next d e st (Ret v) (Ret w) = (v = w)"
| "shifted_next d e st _ _ = False"

definition both :: "('a \<Rightarrow> 'a \<Rightarrow> bool) \<Rightarrow> 'e + 'a \<Rightarrow> 'e + 'a \<Rightarrow> bool" where
  "both R m m' = (case m of Inl _ \<Rightarrow> False | Inr a \<Rightarrow> (case m' of Inl _ \<Rightarrow> False | Inr b \<Rightarrow> R a b))"

lemma both_simps [simp]: "both R (Inr a) (Inr b) = R a b"
  by (simp add: both_def)

lemma both_bind:
  "both R m m' \<Longrightarrow> (\<And>a b. R a b \<Longrightarrow> both S (k a) (k' b)) \<Longrightarrow> both S (bindR m k) (bindR m' k')"
  by (cases m; cases m') (auto simp: both_def)

lemma both_if:
  "(c \<Longrightarrow> both R m m') \<Longrightarrow> (\<not> c \<Longrightarrow> both R n n') \<Longrightarrow> both R (if c then m else n) (if c then m' else n')"
  by simp

lemmas sim_defs = shifted_def buf_defs Let_def put_byte_def put_space_def set_at_def get_at_def
  list_update_append nth_append

subsection \<open>One rune: the loop body respects the shift\<close>

text \<open>
  \<open>window\<close>: the two queries have the same bytes between \<open>st\<close> and \<open>k\<close>. \<open>dash_inv\<close>: the states that
  make the code look back behind the current rune (a sign before a number, a dash that opens a
  comment) were entered after \<open>st\<close>.
\<close>

lemma skip_sim:
  assumes "buf_inv n qi x" "qi < int n" "r \<noteq> rn CHR '')''" "shifted d e st x y" "st \<le> qi"
  shows "both (shifted_next d e st) (skip qi r x) (skip (qi + d) r y)"
  using assms by (cases "fp_s x") (simp_all add: skip_defs sim_defs nat_less_iff)

definition window :: "string \<Rightarrow> string \<Rightarrow> int \<Rightarrow> int \<Rightarrow> int \<Rightarrow> bool" where
  "window q q' d st k \<longleftrightarrow>
     (\<forall>i j. st \<le> i \<and> i \<le> j \<and> j \<le> k \<longrightarrow> slice q' (i + d) (j + d) = slice q i j)"

definition dash_inv :: "int \<Rightarrow> int \<Rightarrow> fp_state \<Rightarrow> bool" where
  "dash_inv st k x \<longleftrightarrow>
     st \<le> cpFromOffset x \<and> (fp_s x = opOrNumber \<longrightarrow> st + 1 \<le> k) \<and>
     (fp_pr x = rn CHR ''-'' \<longrightarrow> st + 1 \<le> k) \<and> (fp_s x = inDash \<longrightarrow> st + 2 \<le> k)"

lemma change_digit_sim:
  assumes "shifted d e st x y" "dash_inv st qi x" "st \<le> qi"
  shows "shifted d e st (change_digit rnw qi x) (change_digit rnw (qi + d) y)"
  using assms by (cases "fp_s x") (simp_all add: change_digit_def shifted_def dash_inv_def)

lemma change_quote_sim:
  assumes "shifted d e st x y" "0 \<le> st" "st \<le> qi"
  shows "shifted d e st (change_quote qi r x) (change_quote (qi + d) r y)"
  using assms by (simp add: change_quote_def shifted_def Let_def)

lemma change_default_sim:
  assumes "shifted d e st x y"
  shows "shifted d e st (change_default qi x) (change_default (qi + d) y)"
  using assms by (simp add: change_default_def shifted_def Let_def)

lemma change_paren_sim:
  assumes "shifted d e st x y" "buf_mid n qi r x" "dash_inv st qi x" "window q q' d st qi" "qi < int (length q)"
    "st \<le> qi"
  shows "both (shifted_next d e st) (change_paren uni q qi x) (change_paren uni q' (qi + d) y)"
proof -
  have "slice q' (cpFromOffset x + d) (qi + d) = slice q (cpFromOffset x) qi"
    using assms by (auto simp: window_def dash_inv_def buf_defs)
  moreover have "\<exists>w. slice q (cpFromOffset x) qi = Inr w"
    using assms by (auto simp: slice_def buf_defs)
  ultimately show ?thesis
    using assms(1,6) by (auto simp: change_paren_def shifted_def Let_def)
qed

lemma null_value_sim:
  assumes "shifted d e st x y" "0 \<le> fp_fi x" "fp_fi x + 4 \<le> int (length (fp_f x))"
  shows "both (shifted d e st) (null_value word qi x) (null_value word (qi + d) y)"
  using assms by (simp add: null_value_def sim_defs nat_less_iff)

lemma order_asc_sim:
  assumes "shifted d e st x y" "0 < fp_fi x" "fp_fi x < int (length (fp_f x))"
  shows "both (shifted d e st) (order_asc word qi x) (order_asc word (qi + d) y)"
  using assms by (simp add: order_asc_def sim_defs nat_less_iff)

lemma word_end_sim:
  assumes sh: "shifted d e st x y" and mid: "buf_mid n qi r x" and "dash_inv st qi x" "window q q' d st qi"
    "qi < int n" "length q = n" "st \<le> qi"
  shows "both (shifted_next d e st) (word_end uni q qi x) (word_end uni q' (qi + d) y)"
proof -
  let ?sub = "take (nat qi - nat (cpFromOffset x)) (drop (nat (cpFromOffset x)) q)"
  let ?word = "ToLower uni ?sub"
  have offs: "0 \<le> cpFromOffset x" "cpFromOffset x \<le> qi" "qi \<le> int (length q)"
    using assms by (auto simp: buf_defs)
  have s: "slice q (cpFromOffset x) qi = Inr ?sub" "slice q' (cpFromOffset x + d) (qi + d) = Inr ?sub"
    using assms offs by (auto simp: window_def dash_inv_def slice_def)
  have null: "both (shifted d e st) (null_value ?word qi x) (null_value ?word (qi + d) y)"
    if "isNullValue (prevWord x) ?word"
  proof (rule null_value_sim [OF sh])
    have a: "\<forall>c \<in> set ?word. rn c < 128" "4 \<le> length ?word"
      using that by (auto simp: isNullValue_def)
    then have "4 \<le> length ?sub" using length_ToLower_ascii [OF a(1)] by linarith
    then show "fp_fi x + 4 \<le> int (length (fp_f x))" using mid offs assms by (auto simp: buf_defs)
  qed (use mid in \<open>simp add: buf_defs\<close>)
  have asc: "both (shifted d e st) (order_asc ?word qi x) (order_asc ?word (qi + d) y)"
    if "sqlState x = orderBy"
    using that assms by (intro order_asc_sim [OF sh]) (auto simp: buf_defs)
  have fin: "shifted d e st (u\<lparr>fp_s := inSpace, cpToOffset := qi, addSpace := True\<rparr>)
      (v\<lparr>fp_s := inSpace, cpToOffset := qi + d, addSpace := True\<rparr>)" if "shifted d e st u v" for u v
    using that assms(7) by (simp add: shifted_def)
  have y: "prevWord y = prevWord x" "sqlState y = sqlState x" "cpFromOffset y = cpFromOffset x + d"
    using sh by (simp_all add: shifted_def)
  have upd: "shifted d e st (x\<lparr>sqlState := v\<rparr>) (y\<lparr>sqlState := v\<rparr>)" for v
    using sh by (simp add: shifted_def)
  have eff: "both (shifted d e st) (word_effect uni ?word qi x) (word_effect uni ?word (qi + d) y)"
    unfolding word_effect_def y by (intro both_if null asc) (simp_all add: upd sh)
  show ?thesis
    unfolding word_end_def s(1) y s(2) bindR_Inr Let_def
    by (intro both_if both_bind [OF eff]) (simp_all add: fin)
qed

lemma change_space_sim:
  assumes sh: "shifted d e st x y" and mid: "buf_mid n qi r x" and "isSpace r" and di: "dash_inv st qi x"
    and win: "window q q' d st qi" and q: "qi < int n" "length q = n" and st: "st \<le> qi"
    and d: "0 \<le> d" "d = 0 \<or> 2 < st"
  shows "both (shifted_next d e st) (change_space uni q qi x) (change_space uni q' (qi + d) y)"
proof -
  have y: "fp_s y = fp_s x" using sh by (simp add: shifted_def)
  have nm: "fp_s x \<noteq> moreValuesOrUnknown" using mid by (simp add: buf_defs)
  consider "fp_s x = unknown" | "fp_s x = inDash" | "fp_s x \<noteq> unknown" "fp_s x \<noteq> inDash" by blast
  then show ?thesis
  proof cases
    case 1
    have rng: "0 \<le> fp_fi x" "fp_fi x < int (length (fp_f x))"
      using mid q by (auto simp: buf_defs)
    then show ?thesis using 1 sh
      by (simp add: change_space_def shifted_def get_at_def put_space_def put_byte_def set_at_def
          list_update_append nth_append nat_less_iff)
  next
    case 2
    then show ?thesis using sh di d st by (auto simp: change_space_def shifted_def dash_inv_def Let_def)
  next
    case 3
    then show ?thesis
      using word_end_sim [OF sh mid di win q st] y nm by (simp add: change_space_def)
  qed
qed

lemma change_sim:
  assumes sh: "shifted d e st x y" and mid: "buf_mid n qi r x" and di: "dash_inv st qi x"
    and win: "window q q' d st qi" and q: "qi < int n" "length q = n" and st: "0 \<le> st" "st \<le> qi"
    and d: "0 \<le> d" "d = 0 \<or> 2 < st" and r: "r \<noteq> rn CHR '':''"
  shows "both (shifted_next d e st) (change uni rnw q qi r x) (change uni rnw q' (qi + d) r y)"
proof -
  have y: "fp_pr y = fp_pr x" "fp_s y = fp_s x" using sh by (simp_all add: shifted_def)
  have st: "shifted d e st (x\<lparr>fp_s := v\<rparr>) (y\<lparr>fp_s := v\<rparr>)"
    "shifted d e st (x\<lparr>cpFromOffset := qi, fp_s := v\<rparr>) (y\<lparr>cpFromOffset := qi + d, fp_s := v\<rparr>)"
    "shifted d e st (x\<lparr>addSpace := False, fp_s := v\<rparr>) (y\<lparr>addSpace := False, fp_s := v\<rparr>)"
    "shifted d e st (x\<lparr>fp_s := v, cpToOffset := qi\<rparr>) (y\<lparr>fp_s := v, cpToOffset := qi + d\<rparr>)" for v
    using sh st by (simp_all add: shifted_def)
  have sp: "isSpace r \<Longrightarrow> both (shifted_next d e st) (change_space uni q qi x) (change_space uni q' (qi + d) y)"
    using change_space_sim [OF sh mid _ di win q] assms by blast
  have pa: "both (shifted_next d e st) (change_paren uni q qi x) (change_paren uni q' (qi + d) y)"
    using change_paren_sim [OF sh mid di win] assms by simp
  show ?thesis
    unfolding change_def y Let_def
    by (intro both_if sp pa)
       (use assms in \<open>simp_all add: change_digit_sim change_quote_sim change_default_sim st\<close>)
qed

lemma after_copy_sim:
  assumes "shifted d e st x y" "0 \<le> fp_fi x" "0 \<le> l" "fp_fi x + l < int (length f)" "st \<le> cpToOffset x"
  shows "both (shifted d e st) (after_copy uni pw l f x) (after_copy uni pw l (f @ replicate e CHR 0x00) y)"
  using assms by (simp add: after_copy_def sim_defs nat_less_iff)

lemma copy_into_sim:
  assumes "0 \<le> i" "i \<le> j" "j \<le> int (length f)"
  shows "\<exists>g. copy_into f i j w = Inr g \<and> copy_into (f @ z) i j w = Inr (g @ z) \<and> length g = length f"
  using assms by (auto simp: copy_into_def Let_def)

lemma copy_word_sim:
  assumes sh: "shifted d e st x y" and pre: "buf_pre n qi r x" and st: "st \<le> cpFromOffset x"
    and win: "window q q' d st qi" and q: "qi < int n" "length q = n" "0 \<le> d"
  shows "both (shifted d e st) (copy_word uni q x) (copy_word uni q' y)"
proof (cases "cpToOffset x > cpFromOffset x")
  case True
  let ?l = "cpToOffset x - cpFromOffset x"
  have y: "cpFromOffset y = cpFromOffset x + d" "cpToOffset y = cpToOffset x + d" "fp_fi y = fp_fi x"
    "fp_f y = fp_f x @ replicate e CHR 0x00"
    using sh st True by (simp_all add: shifted_def)
  have b: "0 \<le> cpFromOffset x" "0 \<le> fp_fi x" "fp_fi x \<le> cpFromOffset x" "cpToOffset x \<le> qi" "length (fp_f x) = n"
    using pre by (simp_all add: buf_defs)
  obtain w where w: "slice q (cpFromOffset x) (cpToOffset x) = Inr w"
    using True b q by (simp add: slice_def)
  have w': "slice q' (cpFromOffset x + d) (cpToOffset x + d) = Inr w"
    using win st True b w by (simp add: window_def)
  obtain g where g: "copy_into (fp_f x) (fp_fi x) (fp_fi x + ?l) (ToLower uni w) = Inr g"
      "copy_into (fp_f x @ replicate e CHR 0x00) (fp_fi x) (fp_fi x + ?l) (ToLower uni w) = Inr (g @ replicate e CHR 0x00)"
      "length g = n"
    using copy_into_sim [of "fp_fi x" "fp_fi x + ?l" "fp_f x" "ToLower uni w" "replicate e CHR 0x00"] True b q
    by auto
  have "both (shifted d e st) (after_copy uni (ToLower uni w) ?l g x)
      (after_copy uni (ToLower uni w) ?l (g @ replicate e CHR 0x00) y)"
    using True b q g(3) st by (intro after_copy_sim [OF sh]) auto
  then show ?thesis using True by (simp add: copy_word_def Let_def y w w' g)
next
  case False
  then have "\<not> cpToOffset y > cpFromOffset y" using sh st q by (simp add: shifted_def split: if_splits)
  with False show ?thesis using sh by (simp add: copy_word_def)
qed

subsection \<open>The look-back invariant is kept\<close>

lemma skip_dash:
  "dash_inv st qi x \<Longrightarrow> st \<le> qi \<Longrightarrow> sat True (next_ok (dash_inv st (qi + 1)) (dash_inv st qi)) (skip qi r x)"
  by (cases "fp_s x") (auto simp: skip_defs fp_defs copy_into_def dash_inv_def)

definition dash_pre :: "int \<Rightarrow> int \<Rightarrow> fp_state \<Rightarrow> bool" where
  "dash_pre st qi y \<longleftrightarrow> st \<le> cpFromOffset y \<and> (fp_s y = inDash \<longrightarrow> st + 1 \<le> qi)"

lemma change_dash:
  assumes "dash_inv st qi x" "st \<le> qi"
  shows "sat True (next_ok C (dash_pre st qi)) (change uni rnw q qi r x)"
proof -
  have "dash_pre st qi (change_digit rnw qi x)"
    using assms by (cases "fp_s x") (auto simp: change_digit_def dash_inv_def dash_pre_def)
  moreover have "sat True (next_ok C (dash_pre st qi)) (change_space uni q qi x)"
    using assms by (auto simp: change_space_def word_defs fp_defs dash_inv_def dash_pre_def)
  moreover have "dash_pre st qi (change_quote qi r x)"
    using assms by (auto simp: change_quote_def dash_inv_def dash_pre_def Let_def)
  moreover have "sat True (next_ok C (dash_pre st qi)) (change_paren uni q qi x)"
    using assms by (auto simp: change_paren_def fp_defs dash_inv_def dash_pre_def)
  moreover have "dash_pre st qi (change_default qi x)"
    using assms by (auto simp add: change_default_def dash_inv_def dash_pre_def Let_def)
  moreover have "dash_pre st qi (x\<lparr>fp_s := inDash\<rparr>)" if "fp_pr x = rn CHR ''-''"
    using assms that by (simp add: dash_inv_def dash_pre_def)
  moreover have "dash_pre st qi (x\<lparr>fp_s := v\<rparr>)" "dash_pre st qi (x\<lparr>fp_s := v, cpToOffset := qi\<rparr>)"
    "dash_pre st qi (x\<lparr>cpFromOffset := qi, fp_s := v\<rparr>)" "dash_pre st qi (x\<lparr>addSpace := False, fp_s := v\<rparr>)"
    if "v \<noteq> inDash" for v
    using assms that by (simp_all add: dash_inv_def dash_pre_def)
  moreover have "dash_pre st qi x" using assms by (auto simp add: dash_inv_def dash_pre_def)
  ultimately show ?thesis
    by (simp add: change_def Let_def sat_slice)
qed

lemma copy_word_dash:
  "dash_pre st qi x \<Longrightarrow> st \<le> qi \<Longrightarrow> sat True (\<lambda>z. dash_inv st (qi + 1) (z\<lparr>fp_pr := r\<rparr>)) (copy_word uni q x)"
  by (auto simp: copy_word_def after_copy_def copy_into_def fp_defs dash_inv_def dash_pre_def)

subsection \<open>The step and the run\<close>

lemma both_sat: "both R m m' \<Longrightarrow> sat False P m \<Longrightarrow> both (\<lambda>a b. R a b \<and> P a) m m'"
  by (cases m; cases m') (auto simp: both_def elim!: sat_FalseE)

lemma sat_both: "sat False P m \<Longrightarrow> sat True Q m \<Longrightarrow> sat False (\<lambda>a. P a \<and> Q a) m"
  by (auto simp: sat_def split: sum.splits)

lemma both_next:
  assumes "both (shifted_next d e st) m m'" "sat False (next_ok C F) m"
    and "\<And>x y. shifted d e st x y \<Longrightarrow> F x \<Longrightarrow> both (shifted_next d e st) (k x) (k' y)"
  shows "both (shifted_next d e st)
    (bindR m (\<lambda>n. case n of Cont x \<Rightarrow> Inr (Cont x) | Fall x \<Rightarrow> k x | Ret w \<Rightarrow> Inr (Ret w)))
    (bindR m' (\<lambda>n. case n of Cont x \<Rightarrow> Inr (Cont x) | Fall x \<Rightarrow> k' x | Ret w \<Rightarrow> Inr (Ret w)))"
  by (rule both_bind [OF both_sat [OF assms(1,2)]])
     (auto simp: assms(3) split: fp_next.splits)

lemma next_ok_conj: "next_ok (\<lambda>x. C x \<and> D x) (\<lambda>x. F x \<and> G x) n \<longleftrightarrow> next_ok C F n \<and> next_ok D G n"
  by (cases n) auto

lemma sat_next_conj:
  "sat False (next_ok C F) m \<Longrightarrow> sat True (next_ok D G) m \<Longrightarrow> sat False (next_ok (\<lambda>x. C x \<and> D x) (\<lambda>x. F x \<and> G x)) m"
  by (drule (1) sat_both) (erule sat_mono, auto simp: next_ok_conj)

lemma step_dash:
  "dash_inv st qi x \<Longrightarrow> st \<le> qi \<Longrightarrow> sat True (next_ok (dash_inv st (qi + 1)) (\<lambda>_. False)) (fp_step uni rnw q qi r x)"
  by (rule sat_step [OF skip_dash, where G = "dash_pre st qi"]) (auto intro: change_dash copy_word_dash)

lemma step_sim:
  assumes sh: "shifted d e st x y" and inv: "buf_inv n qi x" and di: "dash_inv st qi x"
    and win: "window q q' d st qi" and q: "qi < int n" "length q = n" and st: "0 \<le> st" "st \<le> qi"
    and d: "0 \<le> d" "d = 0 \<or> 2 < st" and r: "r \<noteq> rn CHR '':''" "r \<noteq> rn CHR '')''"
  shows "both (shifted_next d e st) (fp_step uni rnw q qi r x) (fp_step uni rnw q' (qi + d) r y)"
  unfolding fp_step_def
proof (rule both_next)
  show "both (shifted_next d e st) (skip qi r x) (skip (qi + d) r y)"
    using assms by (intro skip_sim)
  show "sat False (next_ok (\<lambda>x. buf_inv n (qi + 1) x \<and> dash_inv st (qi + 1) x)
      (\<lambda>x. buf_mid n qi r x \<and> dash_inv st qi x)) (skip qi r x)"
    using assms by (intro sat_next_conj skip_buf skip_dash)
next
  fix a b assume ab: "shifted d e st a b" "buf_mid n qi r a \<and> dash_inv st qi a"
  show "both (shifted_next d e st)
     (bindR (change uni rnw q qi r a) (\<lambda>n. case n of Cont x \<Rightarrow> Inr (Cont x)
        | Fall x \<Rightarrow> bindR (copy_word uni q x) (\<lambda>x. Inr (Cont (x\<lparr>fp_pr := r\<rparr>))) | Ret w \<Rightarrow> Inr (Ret w)))
     (bindR (change uni rnw q' (qi + d) r b) (\<lambda>n. case n of Cont x \<Rightarrow> Inr (Cont x)
        | Fall x \<Rightarrow> bindR (copy_word uni q' x) (\<lambda>x. Inr (Cont (x\<lparr>fp_pr := r\<rparr>))) | Ret w \<Rightarrow> Inr (Ret w)))"
  proof (rule both_next)
    show "both (shifted_next d e st) (change uni rnw q qi r a) (change uni rnw q' (qi + d) r b)"
      using ab assms by (intro change_sim) auto
    show "sat False (next_ok (\<lambda>x. True \<and> True) (\<lambda>x. buf_pre n qi r x \<and> dash_pre st qi x)) (change uni rnw q qi r a)"
      using ab assms by (intro sat_next_conj change_buf change_dash) auto
  next
    fix u v assume uv: "shifted d e st u v" "buf_pre n qi r u \<and> dash_pre st qi u"
    show "both (shifted_next d e st) (bindR (copy_word uni q u) (\<lambda>x. Inr (Cont (x\<lparr>fp_pr := r\<rparr>))))
      (bindR (copy_word uni q' v) (\<lambda>x. Inr (Cont (x\<lparr>fp_pr := r\<rparr>))))"
      by (rule both_bind [OF copy_word_sim [OF uv(1) _ _ win q d(1)]])
         (use uv in \<open>auto simp: shifted_def dash_pre_def\<close>)
  qed
qed

lemma window_mono: "window q q' d st k \<Longrightarrow> j \<le> k \<Longrightarrow> window q q' d st j"
  by (simp add: window_def)

lemma dash_inv_mono: "dash_inv st k x \<Longrightarrow> k \<le> k' \<Longrightarrow> dash_inv st k' x"
  by (auto simp: dash_inv_def)

lemma run_sim:
  assumes "shifted d e st x y" "buf_inv (length q) k x" "dash_inv st k x"
    and win: "window q q' d st (int (length q))" "k + int (length s) \<le> int (length q)" and "0 \<le> st" "st \<le> k"
    and d: "0 \<le> d" "d = 0 \<or> 2 < st" and "CHR '':'' \<notin> set s" "CHR '')'' \<notin> set s"
  shows "both (shifted_next d e st) (fp_run uni rnw q (range_from k s) x) (fp_run uni rnw q' (range_from (k + d) s) y)"
  using assms
proof (induction k s arbitrary: x y rule: range_from.induct)
  case (1 k s)
  show ?case
  proof (cases "s = []")
    case True
    with "1.prems" show ?thesis by (simp add: range_from.simps)
  next
    case False
    let ?w = "rune_width s" and ?r = "fst (decode_rune s)"
    have w: "1 \<le> ?w" "?w \<le> length s"
      using rune_width_pos [OF False] rune_width_le [of s] by simp_all
    have eq: "range_from k s = (k, ?r) # range_from (k + int ?w) (drop ?w s)" for k
      using False by (subst range_from.simps) simp
    have r: "?r \<noteq> rn c" if "c \<notin> set s" "rn c < 128" for c
      using rune_ascii_byte [OF False] that by auto
    have st: "both (shifted_next d e st) (fp_step uni rnw q k ?r x) (fp_step uni rnw q' (k + d) ?r y)"
      using "1.prems" w by (intro step_sim [where n = "length q"] r) (auto intro: window_mono)
    have sa: "sat False (next_ok (\<lambda>x. buf_inv (length q) (k + 1) x \<and> dash_inv st (k + 1) x) (\<lambda>_. False \<and> False)) (fp_step uni rnw q k ?r x)"
      using "1.prems" w by (intro sat_next_conj step_buf step_dash r) auto
    have IH: "both (shifted_next d e st)
        (fp_run uni rnw q (range_from (k + int ?w) (drop ?w s)) a)
        (fp_run uni rnw q' (range_from (k + d + int ?w) (drop ?w s)) b)"
      if "shifted d e st a b" "buf_inv (length q) (k + 1) a" "dash_inv st (k + 1) a" for a b
    proof -
      have "buf_inv (length q) (k + int ?w) a" using that w by (auto intro: buf_inv_mono)
      moreover have "dash_inv st (k + int ?w) a" using that w by (auto intro: dash_inv_mono)
      ultimately have "both (shifted_next d e st)
        (fp_run uni rnw q (range_from (k + int ?w) (drop ?w s)) a)
        (fp_run uni rnw q' (range_from (k + int ?w + d) (drop ?w s)) b)"
        using "1.prems" w False that(1) by (intro "1.IH") (auto dest: in_set_dropD)
      then show ?thesis by (simp add: ac_simps)
    qed
    show ?thesis
      unfolding eq fp_run.simps
      by (rule both_bind [OF both_sat [OF st sa]])
         (auto simp: IH split: fp_next.splits)
  qed
qed

lemma fp_run_append:
  "fp_run uni rnw q (rs @ rs') x =
     bindR (fp_run uni rnw q rs x) (\<lambda>n. case n of Cont y \<Rightarrow> fp_run uni rnw q rs' y | Fall y \<Rightarrow> Inr (Fall y) | Ret w \<Rightarrow> Inr (Ret w))"
proof (induction rs arbitrary: x)
  case (Cons p rs)
  obtain qi r where p: "p = (qi, r)" by (cases p)
  show ?case
    by (cases "fp_step uni rnw q qi r x") (auto simp: p Cons.IH split: fp_next.splits)
qed simp

subsection \<open>Inside a literal\<close>

text \<open>
  \<open>quoted c esc rs\<close>: the runes \<open>rs\<close> stay inside a literal opened with \<open>c\<close>; \<open>esc\<close> says whether the
  previous rune was an escaping backslash. The runs inside a literal change nothing but the flag
  \<open>escape\<close>.
\<close>

fun quoted :: "rune \<Rightarrow> bool \<Rightarrow> rune list \<Rightarrow> bool" where
  "quoted c esc [] = (\<not> esc)"
| "quoted c esc (r # rs) = (if esc then quoted c False rs else r \<noteq> c \<and> quoted c (r = rn CHR 0x5C) rs)"

lemma run_quoted:
  "fp_s x = inQuote \<Longrightarrow> quoted (quoteChar x) (escape x) (map snd rs) \<Longrightarrow>
    fp_run uni rnw q rs x = Inr (Cont (x\<lparr>escape := False\<rparr>))"
proof (induction rs arbitrary: x)
  case (Cons p rs)
  obtain qi r where p: "p = (qi, r)" by (cases p)
  show ?case
  proof (cases "escape x \<or> r = rn CHR 0x5C")
    case True
    then show ?thesis
      using Cons.prems Cons.IH [of "x\<lparr>escape := \<not> escape x\<rparr>"]
      by (auto simp: p fp_step_def skip_def skip_inQuote_def)
  next
    case False
    then show ?thesis
      using Cons.prems Cons.IH [of x] by (auto simp: p fp_step_def skip_def skip_inQuote_def)
  qed
qed simp

lemma trim_spaces_append: "n \<le> length f \<Longrightarrow> trim_spaces (f @ z) n = trim_spaces f n"
  by (induction n) (auto simp: nth_append)

lemma trim_spaces_le: "trim_spaces f n \<le> n"
  by (induction n) auto

lemma finish_sim:
  assumes "shifted d e st x y" "0 \<le> fp_fi x" "fp_fi x \<le> int (length (fp_f x))"
  shows "fp_finish y = fp_finish x"
  using assms trim_spaces_le [of "fp_f x" "nat (fp_fi x)"]
  by (simp add: fp_finish_def shifted_def trim_spaces_append Let_def)

text \<open>
  \<open>opens_literal\<close>: reading the prefix \<open>a\<close> and the quote \<open>c\<close> leaves the fingerprinter inside a literal
  that \<open>c\<close> opened. \<open>literal_body\<close>: the text \<open>v\<close> has no unescaped quote \<open>c\<close> and no pending backslash.
\<close>

definition opens_literal :: "(rune \<Rightarrow> rune) \<Rightarrow> bool \<Rightarrow> string \<Rightarrow> char \<Rightarrow> bool" where
  "opens_literal uni rnw a c =
     (case fp_run uni rnw (a @ [c]) (range_string (a @ [c])) (fp_init (a @ [c])) of
        Inr (Cont x) \<Rightarrow> fp_s x = inQuote \<and> quoteChar x = rn c \<and> fp_pr x = rn c \<and> \<not> escape x
      | _ \<Rightarrow> False)"

definition literal_body :: "char \<Rightarrow> string \<Rightarrow> bool" where
  "literal_body c v = quoted (rn c) False (map snd (range_string v))"

subsection \<open>From the opening quote to the end of the query\<close>

lemma window_append: "window p (p @ t) 0 0 (int (length p))"
  by (auto simp: window_def slice_def)

lemma window_suffix:
  assumes "length u \<le> length v"
  shows "window (u @ b) (v @ b) (int (length v) - int (length u)) (int (length u)) (int (length (u @ b)))"
  unfolding window_def
proof (intro allI impI)
  fix i j :: int
  assume ij: "int (length u) \<le> i \<and> i \<le> j \<and> j \<le> int (length (u @ b))"
  define k l where "k = nat i - length u" and "l = nat j - nat i"
  have "nat (i + (int (length v) - int (length u))) = length v + k" "nat i = length u + k"
    "nat (j + (int (length v) - int (length u))) = length v + k + l" "nat j = length u + k + l"
    using ij assms by (auto simp: k_def l_def)
  then show "slice (v @ b) (i + (int (length v) - int (length u))) (j + (int (length v) - int (length u))) = slice (u @ b) i j"
    using ij by (simp add: slice_def)
qed

lemma range_from_literal:
  assumes "rn c < 128"
  shows "range_from 0 (a @ [c] @ v @ [c] @ b) =
    range_from 0 (a @ [c]) @ range_from (int (length a) + 1) v @
    (int (length a) + 1 + int (length v), rn c) # range_from (int (length a) + 1 + int (length v) + 1) b"
  using assms by (simp add: range_from_append range_from_snoc range_from_Cons)

definition in_literal :: "char \<Rightarrow> fp_state \<Rightarrow> bool" where
  "in_literal c x \<longleftrightarrow> fp_s x = inQuote \<and> quoteChar x = rn c \<and> fp_pr x = rn c \<and> \<not> escape x"

lemma prefix_run:
  assumes x: "fp_run uni rnw p (range_from 0 p) (fp_init p) = Inr (Cont x)"
    and no: "CHR '':'' \<notin> set p" "CHR '')'' \<notin> set p"
  shows "\<exists>y. fp_run uni rnw (p @ t) (range_from 0 p) (fp_init (p @ t)) = Inr (Cont y) \<and>
      shifted 0 (length t) 0 x y \<and> buf_inv (length (p @ t)) (int (length p)) y"
proof -
  let ?q = "p @ t"
  have sh: "shifted 0 (length t) 0 (fp_init p) (fp_init ?q)"
    by (simp add: shifted_def fp_init_def replicate_add)
  have di: "dash_inv 0 0 (fp_init p)" by (simp add: dash_inv_def fp_init_def)
  have "both (shifted_next 0 (length t) 0) (fp_run uni rnw p (range_from 0 p) (fp_init p))
      (fp_run uni rnw ?q (range_from (0 + 0) p) (fp_init ?q))"
    by (rule run_sim [OF sh buf_inv_init di window_append]) (use no in simp_all)
  then obtain y where y: "fp_run uni rnw ?q (range_from 0 p) (fp_init ?q) = Inr (Cont y)" "shifted 0 (length t) 0 x y"
    unfolding x by (auto simp: both_def split: sum.splits elim: shifted_next.elims)
  have "sat False (next_ok (buf_inv (length ?q) (int (length p))) (\<lambda>_. False))
      (fp_run uni rnw ?q (range_from 0 p) (fp_init ?q))"
    by (rule run_buf [OF no(2) buf_inv_init]) simp_all
  then show ?thesis using y unfolding y(1) by simp
qed

lemma prefix_pair:
  assumes "opens_literal uni rnw a c" "c = CHR 0x27 \<or> c = CHR 0x22" "CHR '':'' \<notin> set a" "CHR '')'' \<notin> set a"
    and le: "length t \<le> length u"
  shows "\<exists>y z. fp_run uni rnw (a @ [c] @ t) (range_from 0 (a @ [c])) (fp_init (a @ [c] @ t)) = Inr (Cont y) \<and>
      fp_run uni rnw (a @ [c] @ u) (range_from 0 (a @ [c])) (fp_init (a @ [c] @ u)) = Inr (Cont z) \<and>
      shifted 0 (length u - length t) 0 y z \<and> in_literal c y \<and> in_literal c z \<and>
      buf_inv (length (a @ [c] @ t)) (int (length a) + 1) y"
proof -
  let ?p = "a @ [c]"
  obtain x where x: "fp_run uni rnw ?p (range_from 0 ?p) (fp_init ?p) = Inr (Cont x)" and "in_literal c x"
    using assms(1) by (auto simp: opens_literal_def in_literal_def range_string_def split: sum.splits fp_next.splits)
  have no: "CHR '':'' \<notin> set ?p" "CHR '')'' \<notin> set ?p" using assms by auto
  obtain y where y: "fp_run uni rnw (?p @ t) (range_from 0 ?p) (fp_init (?p @ t)) = Inr (Cont y)"
      "shifted 0 (length t) 0 x y" "buf_inv (length (?p @ t)) (int (length ?p)) y"
    using prefix_run [OF x no] by blast
  obtain z where z: "fp_run uni rnw (?p @ u) (range_from 0 ?p) (fp_init (?p @ u)) = Inr (Cont z)"
      "shifted 0 (length u) 0 x z"
    using prefix_run [OF x no] by blast
  have "shifted 0 (length u - length t) 0 y z" "in_literal c y" "in_literal c z"
    using y(2) z(2) le \<open>in_literal c x\<close> by (auto simp: shifted_def in_literal_def replicate_add [symmetric])
  with y z show ?thesis by (simp add: add.commute)
qed

lemma run_literal:
  assumes "rn c < 128" "literal_body c v" "in_literal c y"
    and "fp_run uni rnw (a @ [c] @ v @ [c] @ b) (range_from 0 (a @ [c])) (fp_init (a @ [c] @ v @ [c] @ b)) = Inr (Cont y)"
  shows "fp_run uni rnw (a @ [c] @ v @ [c] @ b) (range_string (a @ [c] @ v @ [c] @ b)) (fp_init (a @ [c] @ v @ [c] @ b)) =
      bindR (fp_step uni rnw (a @ [c] @ v @ [c] @ b) (int (length a) + 1 + int (length v)) (rn c) y) (\<lambda>n. case n of
        Cont x \<Rightarrow> fp_run uni rnw (a @ [c] @ v @ [c] @ b) (range_from (int (length a) + 1 + int (length v) + 1) b) x
      | Fall x \<Rightarrow> Inr (Fall x) | Ret w \<Rightarrow> Inr (Ret w))"
proof -
  let ?q = "a @ [c] @ v @ [c] @ b" and ?n = "int (length a) + 1"
  have "quoted (quoteChar y) (escape y) (map snd (range_from ?n v))"
    using assms(2,3) map_snd_range_from [of ?n v 0] by (simp add: literal_body_def in_literal_def range_string_def)
  then have "fp_run uni rnw ?q (range_from ?n v) y = Inr (Cont (y\<lparr>escape := False\<rparr>))"
    using assms(3) by (intro run_quoted) (simp_all add: in_literal_def)
  moreover have "y\<lparr>escape := False\<rparr> = y" using assms(3) by (simp add: in_literal_def)
  ultimately show ?thesis
    using assms(4)
    by (simp only: range_string_def range_from_literal [OF assms(1)] fp_run_append bindR_Inr fp_next.case fp_run.simps)
qed

lemma close_sim:
  assumes "shifted 0 e 0 x y" "fp_s x = inQuote" "quoteChar x = rn c" "\<not> escape x" "fp_pr x = rn c"
    and c: "c = CHR 0x27 \<or> c = CHR 0x22" and "buf_inv n k x" "0 \<le> k" "k < int n" "0 \<le> d" "length q = n"
  shows "both (shifted_next d e (k + 1)) (fp_step uni rnw q k (rn c) x) (fp_step uni rnw q' (k + d) (rn c) y)"
    and "sat False (next_ok (\<lambda>x. buf_inv n (k + 1) x \<and> dash_inv (k + 1) (k + 1) x) (\<lambda>_. False \<and> False)) (fp_step uni rnw q k (rn c) x)"
proof -
  have st: "fp_step uni rnw q k (rn c) x = skip_inQuote k (rn c) x"
    "fp_step uni rnw q' (k + d) (rn c) y = skip_inQuote (k + d) (rn c) y"
    using assms by (auto simp: fp_step_def skip_def skip_inQuote_def shifted_def Let_def put_byte_def set_at_def)
  show "both (shifted_next d e (k + 1)) (fp_step uni rnw q k (rn c) x) (fp_step uni rnw q' (k + d) (rn c) y)"
    using assms unfolding st by (simp add: skip_inQuote_def sim_defs nat_less_iff)
  have "sat True (next_ok (dash_inv (k + 1) (k + 1)) (\<lambda>_. False)) (fp_step uni rnw q k (rn c) x)"
    using assms unfolding st by (auto simp: skip_inQuote_def dash_inv_def fp_defs)
  moreover have "sat False (next_ok (buf_inv n (k + 1)) (\<lambda>_. False)) (fp_step uni rnw q k (rn c) x)"
    using assms by (intro step_buf) auto
  ultimately show "sat False (next_ok (\<lambda>x. buf_inv n (k + 1) x \<and> dash_inv (k + 1) (k + 1) x) (\<lambda>_. False \<and> False)) (fp_step uni rnw q k (rn c) x)"
    by (rule sat_next_conj [rotated])
qed


lemma close_run_sim:
  assumes y: "in_literal c y" "shifted 0 e 0 y z" and c: "c = CHR 0x27 \<or> c = CHR 0x22"
    and k: "buf_inv (length q) k y" "2 \<le> k" "k + 1 + int (length b) = int (length q)"
    and d: "0 \<le> d" and win: "window q q' d (k + 1) (int (length q))"
    and no: "CHR '':'' \<notin> set b" "CHR '')'' \<notin> set b"
  shows "both (\<lambda>m n. shifted_next d e (k + 1) m n \<and> next_ok (buf_inv (length q) (int (length q))) (\<lambda>_. False) m)
    (bindR (fp_step uni rnw q k (rn c) y) (\<lambda>n. case n of
        Cont x \<Rightarrow> fp_run uni rnw q (range_from (k + 1) b) x | Fall x \<Rightarrow> Inr (Fall x) | Ret w \<Rightarrow> Inr (Ret w)))
    (bindR (fp_step uni rnw q' (k + d) (rn c) z) (\<lambda>n. case n of
        Cont x \<Rightarrow> fp_run uni rnw q' (range_from (k + 1 + d) b) x | Fall x \<Rightarrow> Inr (Fall x) | Ret w \<Rightarrow> Inr (Ret w)))"
proof -
  have ys: "fp_s y = inQuote" "quoteChar y = rn c" "\<not> escape y" "fp_pr y = rn c"
    using y(1) by (simp_all add: in_literal_def)
  have b: "0 \<le> k" "k < int (length q)" using k by auto
  have "both (\<lambda>m n. shifted_next d e (k + 1) m n \<and> next_ok (buf_inv (length q) (int (length q))) (\<lambda>_. False) m)
      (fp_run uni rnw q (range_from (k + 1) b) u) (fp_run uni rnw q' (range_from (k + 1 + d) b) v)"
    if "shifted d e (k + 1) u v" "buf_inv (length q) (k + 1) u \<and> dash_inv (k + 1) (k + 1) u" for u v
  proof (rule both_sat)
    show "both (shifted_next d e (k + 1)) (fp_run uni rnw q (range_from (k + 1) b) u) (fp_run uni rnw q' (range_from (k + 1 + d) b) v)"
      using that k d no by (intro run_sim [OF _ _ _ win]) auto
    show "sat False (next_ok (buf_inv (length q) (int (length q))) (\<lambda>_. False)) (fp_run uni rnw q (range_from (k + 1) b) u)"
      using that k no by (intro run_buf [where k = "k + 1"]) auto
  qed
  then show ?thesis
    by (intro both_bind [OF both_sat [OF close_sim [OF y(2) ys c k(1) b d refl]]])
       (auto split: fp_next.splits)
qed

lemma Fingerprint_literal_le:
  assumes op: "opens_literal uni rnw a c" and c: "c = CHR 0x27 \<or> c = CHR 0x22" and a: "a \<noteq> []"
    and no: "CHR '':'' \<notin> set a" "CHR '')'' \<notin> set a" "CHR '':'' \<notin> set b" "CHR '')'' \<notin> set b"
    and v: "literal_body c v" "literal_body c w" and le: "length v \<le> length w"
  shows "Fingerprint uni rnw (a @ [c] @ w @ [c] @ b) = Fingerprint uni rnw (a @ [c] @ v @ [c] @ b)"
proof -
  let ?b = "b @ '' ''"
  let ?q = "\<lambda>v. a @ [c] @ v @ [c] @ ?b" and ?k = "\<lambda>v. int (length a) + 1 + int (length v)"
  let ?d = "int (length w) - int (length v)" and ?e = "length (w @ [c] @ ?b) - length (v @ [c] @ ?b)"
  obtain y z where y: "fp_run uni rnw (?q v) (range_from 0 (a @ [c])) (fp_init (?q v)) = Inr (Cont y)"
      "fp_run uni rnw (?q w) (range_from 0 (a @ [c])) (fp_init (?q w)) = Inr (Cont z)"
      "in_literal c y" "in_literal c z" "shifted 0 ?e 0 y z" "buf_inv (length (?q v)) (int (length a) + 1) y"
    using prefix_pair [OF op c no(1,2), of "v @ [c] @ ?b" "w @ [c] @ ?b"] le by auto
  have small: "rn c < 128" using c by auto
  have buf: "buf_inv (length (?q v)) (?k v) y" by (rule buf_inv_mono [OF y(6)]) simp
  have win: "window (?q v) (?q w) ?d (?k v + 1) (int (length (?q v)))"
    using window_suffix [of "a @ [c] @ v @ [c]" "a @ [c] @ w @ [c]" ?b] le by (simp add: ac_simps)
  have k: "2 \<le> ?k v" "?k v + 1 + int (length ?b) = int (length (?q v))" "0 \<le> ?d" "?k v + ?d = ?k w"
      "?k v + 1 + ?d = ?k w + 1"
    using a le by (cases a; simp)+
  have nb: "CHR '':'' \<notin> set ?b" "CHR '')'' \<notin> set ?b" using no by auto
  have "both (\<lambda>m n. shifted_next ?d ?e (?k v + 1) m n \<and> next_ok (buf_inv (length (?q v)) (int (length (?q v)))) (\<lambda>_. False) m)
      (fp_run uni rnw (?q v) (range_string (?q v)) (fp_init (?q v)))
      (fp_run uni rnw (?q w) (range_string (?q w)) (fp_init (?q w)))"
    unfolding run_literal [OF small v(1) y(3) y(1)] run_literal [OF small v(2) y(4) y(2)]
    using close_run_sim [OF y(3,5) c buf k(1,2,3) win nb, of uni rnw, unfolded k(4,5)] .
  then show ?thesis
    by (auto simp: Fingerprint_def both_def Let_def buf_defs intro: finish_sim
        split: sum.splits fp_next.splits elim!: shifted_next.elims)
qed



end
