(* ===== verification/Redis_Reply.thy ===== *)
theory Redis_Reply
  imports Go_Prelude
begin

section \<open>Replies of a Redis server and their conversion (redis/reply.go)\<close>

text \<open>
  The dynamic types that \<open>readReply\<close> produces are the constructors of \<open>reply\<close>; an \<open>error\<close> of the
  client is a value of \<open>redis_error\<close>, where \<open>ErrMsg\<close> holds the text of \<open>errors.New\<close> and \<open>fmt.Errorf\<close>.
  A Go function that returns a value and an error returns a pair here, because the value that
  accompanies an error is visible to the caller (\<open>strconv\<close> saturates). A \<open>nil\<close> slice or map is the
  empty one.
\<close>

datatype reply = RInt int | RBulk string | RStatus string | RNil | RError string | RArray "reply list"

datatype redis_error =
    ErrNil | ErrServer string | ErrNum num_error | ErrMsg string | ProtocolError string
  | ErrEOF | ErrUnexpectedEOF | ErrNet string | ErrPoolExhausted

type_synonym 'a outcome = "'a \<times> redis_error option"

text \<open>The dynamic type as \<open>%T\<close> prints it.\<close>

fun go_type :: "reply \<Rightarrow> string" where
  "go_type (RInt _) = ''int64''"
| "go_type (RBulk _) = ''[]uint8''"
| "go_type (RStatus _) = ''string''"
| "go_type RNil = ''<nil>''"
| "go_type (RError _) = ''redis.Error''"
| "go_type (RArray _) = ''[]interface {}''"

definition unexpected_type :: "string \<Rightarrow> reply \<Rightarrow> redis_error" where
  "unexpected_type name r = ErrMsg (''redigo: unexpected type for '' @ name @ '', got type '' @ go_type r)"

definition unexpected_element :: "string \<Rightarrow> reply \<Rightarrow> redis_error" where
  "unexpected_element name r = ErrMsg (''redigo: unexpected element type for '' @ name @ '', got type '' @ go_type r)"

subsection \<open>Scalars\<close>

fun Int_reply :: "reply \<Rightarrow> redis_error option \<Rightarrow> int outcome" where
  "Int_reply r (Some e) = (0, Some e)"
| "Int_reply (RInt n) None = (let x = wrap64 n in if x \<noteq> n then (0, Some (ErrNum ErrRange)) else (x, None))"
| "Int_reply (RBulk b) None = (case ParseInt b of (n, err) \<Rightarrow> (n, map_option ErrNum err))"
| "Int_reply RNil None = (0, Some ErrNil)"
| "Int_reply (RError e) None = (0, Some (ErrServer e))"
| "Int_reply r None = (0, Some (unexpected_type ''Int'' r))"

fun Int64 :: "reply \<Rightarrow> redis_error option \<Rightarrow> int outcome" where
  "Int64 r (Some e) = (0, Some e)"
| "Int64 (RInt n) None = (n, None)"
| "Int64 (RBulk b) None = (case ParseInt b of (n, err) \<Rightarrow> (n, map_option ErrNum err))"
| "Int64 RNil None = (0, Some ErrNil)"
| "Int64 (RError e) None = (0, Some (ErrServer e))"
| "Int64 r None = (0, Some (unexpected_type ''Int64'' r))"

definition errNegativeInt :: redis_error where
  "errNegativeInt = ErrMsg ''redigo: unexpected value for Uint64''"

fun Uint64 :: "reply \<Rightarrow> redis_error option \<Rightarrow> int outcome" where
  "Uint64 r (Some e) = (0, Some e)"
| "Uint64 (RInt n) None = (if n < 0 then (0, Some errNegativeInt) else (n, None))"
| "Uint64 (RBulk b) None = (case ParseUint b of (n, err) \<Rightarrow> (n, map_option ErrNum err))"
| "Uint64 RNil None = (0, Some ErrNil)"
| "Uint64 (RError e) None = (0, Some (ErrServer e))"
| "Uint64 r None = (0, Some (unexpected_type ''Uint64'' r))"

text \<open>\<open>strconv.ParseFloat\<close> and the zero of the floats are parameters.\<close>

fun Float64 :: "(string \<Rightarrow> 'f \<times> num_error option) \<Rightarrow> 'f \<Rightarrow> reply \<Rightarrow> redis_error option \<Rightarrow> 'f outcome" where
  "Float64 pf z r (Some e) = (z, Some e)"
| "Float64 pf z (RBulk b) None = (case pf b of (n, err) \<Rightarrow> (n, map_option ErrNum err))"
| "Float64 pf z RNil None = (z, Some ErrNil)"
| "Float64 pf z (RError e) None = (z, Some (ErrServer e))"
| "Float64 pf z r None = (z, Some (unexpected_type ''Float64'' r))"

fun String :: "reply \<Rightarrow> redis_error option \<Rightarrow> string outcome" where
  "String r (Some e) = ([], Some e)"
| "String (RBulk b) None = (b, None)"
| "String (RStatus s) None = (s, None)"
| "String RNil None = ([], Some ErrNil)"
| "String (RError e) None = ([], Some (ErrServer e))"
| "String r None = ([], Some (unexpected_type ''String'' r))"

fun Bytes :: "reply \<Rightarrow> redis_error option \<Rightarrow> string outcome" where
  "Bytes r (Some e) = ([], Some e)"
| "Bytes (RBulk b) None = (b, None)"
| "Bytes (RStatus s) None = (s, None)"
| "Bytes RNil None = ([], Some ErrNil)"
| "Bytes (RError e) None = ([], Some (ErrServer e))"
| "Bytes r None = ([], Some (unexpected_type ''Bytes'' r))"

definition ParseBool :: "string \<Rightarrow> bool \<times> num_error option" where
  "ParseBool s =
     (if s \<in> set [''1'', ''t'', ''T'', ''TRUE'', ''true'', ''True''] then (True, None)
      else if s \<in> set [''0'', ''f'', ''F'', ''FALSE'', ''false'', ''False''] then (False, None)
      else (False, Some ErrSyntax))"

fun Bool :: "reply \<Rightarrow> redis_error option \<Rightarrow> bool outcome" where
  "Bool r (Some e) = (False, Some e)"
| "Bool (RInt n) None = (n \<noteq> 0, None)"
| "Bool (RBulk b) None = (case ParseBool b of (v, err) \<Rightarrow> (v, map_option ErrNum err))"
| "Bool RNil None = (False, Some ErrNil)"
| "Bool (RError e) None = (False, Some (ErrServer e))"
| "Bool r None = (False, Some (unexpected_type ''Bool'' r))"

subsection \<open>Arrays\<close>

fun Values :: "reply \<Rightarrow> redis_error option \<Rightarrow> reply list outcome" where
  "Values r (Some e) = ([], Some e)"
| "Values (RArray rs) None = (rs, None)"
| "Values RNil None = ([], Some ErrNil)"
| "Values (RError e) None = ([], Some (ErrServer e))"
| "Values r None = ([], Some (unexpected_type ''Values'' r))"

text \<open>
  The loop of \<open>sliceHelper\<close> from index \<open>i\<close> on: a nil element is skipped, \<open>assign\<close> gives the value that
  the closure stores at the index (if it stores one) and the error it returns.
\<close>

fun slice_loop ::
    "(reply \<Rightarrow> 'a option \<times> redis_error option) \<Rightarrow> nat \<Rightarrow> reply list \<Rightarrow> 'a list \<Rightarrow> 'a list outcome" where
  "slice_loop assign i [] result = (result, None)"
| "slice_loop assign i (r # rs) result =
     (if r = RNil then slice_loop assign (Suc i) rs result
      else case assign r of (v, err) \<Rightarrow>
        let result = (case v of None \<Rightarrow> result | Some a \<Rightarrow> result[i := a]) in
        (case err of Some e \<Rightarrow> (result, Some e) | None \<Rightarrow> slice_loop assign (Suc i) rs result))"

fun sliceHelper ::
    "string \<Rightarrow> 'a \<Rightarrow> (reply \<Rightarrow> 'a option \<times> redis_error option) \<Rightarrow> reply \<Rightarrow> redis_error option \<Rightarrow> 'a list outcome" where
  "sliceHelper name z assign r (Some e) = ([], Some e)"
| "sliceHelper name z assign (RArray rs) None = slice_loop assign 0 rs (replicate (length rs) z)"
| "sliceHelper name z assign RNil None = ([], Some ErrNil)"
| "sliceHelper name z assign (RError e) None = ([], Some (ErrServer e))"
| "sliceHelper name z assign r None = ([], Some (unexpected_type name r))"

fun assign_float :: "(string \<Rightarrow> 'f \<times> num_error option) \<Rightarrow> reply \<Rightarrow> 'f option \<times> redis_error option" where
  "assign_float pf (RBulk b) = (case pf b of (f, err) \<Rightarrow> (Some f, map_option ErrNum err))"
| "assign_float pf r = (None, Some (unexpected_element ''Floats64'' r))"

definition Float64s :: "(string \<Rightarrow> 'f \<times> num_error option) \<Rightarrow> 'f \<Rightarrow> reply \<Rightarrow> redis_error option \<Rightarrow> 'f list outcome" where
  "Float64s pf z = sliceHelper ''Float64s'' z (assign_float pf)"

fun assign_string :: "reply \<Rightarrow> string option \<times> redis_error option" where
  "assign_string (RStatus s) = (Some s, None)"
| "assign_string (RBulk b) = (Some b, None)"
| "assign_string r = (None, Some (unexpected_element ''Strings'' r))"

definition Strings :: "reply \<Rightarrow> redis_error option \<Rightarrow> string list outcome" where
  "Strings = sliceHelper ''Strings'' [] assign_string"

text \<open>The elements of \<open>[][]byte\<close> can be nil: \<open>None\<close>.\<close>

fun assign_bytes :: "reply \<Rightarrow> string option option \<times> redis_error option" where
  "assign_bytes (RBulk b) = (Some (Some b), None)"
| "assign_bytes r = (None, Some (unexpected_element ''ByteSlices'' r))"

definition ByteSlices :: "reply \<Rightarrow> redis_error option \<Rightarrow> string option list outcome" where
  "ByteSlices = sliceHelper ''ByteSlices'' None assign_bytes"

fun assign_int64 :: "reply \<Rightarrow> int option \<times> redis_error option" where
  "assign_int64 (RInt n) = (Some n, None)"
| "assign_int64 (RBulk b) = (case ParseInt b of (n, err) \<Rightarrow> (Some n, map_option ErrNum err))"
| "assign_int64 r = (None, Some (unexpected_element ''Int64s'' r))"

definition Int64s :: "reply \<Rightarrow> redis_error option \<Rightarrow> int list outcome" where
  "Int64s = sliceHelper ''Int64s'' 0 assign_int64"

fun assign_int :: "reply \<Rightarrow> int option \<times> redis_error option" where
  "assign_int (RInt v) = (let n = wrap64 v in if n \<noteq> v then (None, Some (ErrNum ErrRange)) else (Some n, None))"
| "assign_int (RBulk b) = (case ParseInt b of (n, err) \<Rightarrow> (Some n, map_option ErrNum err))"
| "assign_int r = (None, Some (unexpected_element ''Ints'' r))"

definition Ints :: "reply \<Rightarrow> redis_error option \<Rightarrow> int list outcome" where
  "Ints = sliceHelper ''Ints'' 0 assign_int"

subsection \<open>Maps\<close>

text \<open>
  The loops take the values two at a time; \<open>conv\<close> converts a value, the key has to be a bulk string.
  \<open>StringMap\<close> tests key and value together, the others test the key first.
\<close>

fun string_map_loop :: "reply list \<Rightarrow> (string \<rightharpoonup> string) \<Rightarrow> (string \<rightharpoonup> string) outcome" where
  "string_map_loop (RBulk k # RBulk v # rs) m = string_map_loop rs (m(k \<mapsto> v))"
| "string_map_loop [] m = (m, None)"
| "string_map_loop _ m = (Map.empty, Some (ErrMsg ''redigo: StringMap key not a bulk string value''))"

definition StringMap :: "reply \<Rightarrow> redis_error option \<Rightarrow> (string \<rightharpoonup> string) outcome" where
  "StringMap r err =
     (case Values r err of
        (values, Some e) \<Rightarrow> (Map.empty, Some e)
      | (values, None) \<Rightarrow>
          if length values mod 2 \<noteq> 0
          then (Map.empty, Some (ErrMsg ''redigo: StringMap expects even number of values result''))
          else string_map_loop values Map.empty)"

fun num_map_loop ::
    "string \<Rightarrow> (reply \<Rightarrow> redis_error option \<Rightarrow> int outcome) \<Rightarrow> reply list \<Rightarrow> (string \<rightharpoonup> int) \<Rightarrow> (string \<rightharpoonup> int) outcome" where
  "num_map_loop name conv (RBulk k # v # rs) m =
     (case conv v None of
        (n, Some e) \<Rightarrow> (Map.empty, Some e)
      | (n, None) \<Rightarrow> num_map_loop name conv rs (m(k \<mapsto> n)))"
| "num_map_loop name conv [] m = (m, None)"
| "num_map_loop name conv _ m = (Map.empty, Some (ErrMsg (''redigo: '' @ name @ '' key not a bulk string value'')))"

definition num_map ::
    "string \<Rightarrow> (reply \<Rightarrow> redis_error option \<Rightarrow> int outcome) \<Rightarrow> reply \<Rightarrow> redis_error option \<Rightarrow> (string \<rightharpoonup> int) outcome" where
  "num_map name conv r err =
     (case Values r err of
        (values, Some e) \<Rightarrow> (Map.empty, Some e)
      | (values, None) \<Rightarrow>
          if length values mod 2 \<noteq> 0
          then (Map.empty, Some (ErrMsg (''redigo: '' @ name @ '' expects even number of values result'')))
          else num_map_loop name conv values Map.empty)"

definition IntMap :: "reply \<Rightarrow> redis_error option \<Rightarrow> (string \<rightharpoonup> int) outcome" where
  "IntMap = num_map ''IntMap'' Int_reply"

definition Int64Map :: "reply \<Rightarrow> redis_error option \<Rightarrow> (string \<rightharpoonup> int) outcome" where
  "Int64Map = num_map ''Int64Map'' Int64"

text \<open>\<open>Positions\<close>: a nil element stays nil, every other one is a pair of floats.\<close>

fun positions_loop ::
    "(string \<Rightarrow> 'f \<times> num_error option) \<Rightarrow> 'f \<Rightarrow> reply list \<Rightarrow> ('f \<times> 'f) option list outcome" where
  "positions_loop pf z [] = ([], None)"
| "positions_loop pf z (RNil # rs) =
     (case positions_loop pf z rs of (ps, Some e) \<Rightarrow> ([], Some e) | (ps, None) \<Rightarrow> (None # ps, None))"
| "positions_loop pf z (RArray p # rs) =
     (case p of
        [a, b] \<Rightarrow>
          (case Float64 pf z a None of
             (_, Some e) \<Rightarrow> ([], Some e)
           | (lat, None) \<Rightarrow>
               (case Float64 pf z b None of
                  (_, Some e) \<Rightarrow> ([], Some e)
                | (long, None) \<Rightarrow>
                    (case positions_loop pf z rs of
                       (ps, Some e) \<Rightarrow> ([], Some e) | (ps, None) \<Rightarrow> (Some (lat, long) # ps, None))))
      | _ \<Rightarrow> ([], Some (ErrMsg (''redigo: unexpected number of values for a member position, got '' @ Itoa (int (length p))))))"
| "positions_loop pf z (r # rs) = ([], Some (unexpected_element ''interface slice'' r))"

definition Positions ::
    "(string \<Rightarrow> 'f \<times> num_error option) \<Rightarrow> 'f \<Rightarrow> reply \<Rightarrow> redis_error option \<Rightarrow> ('f \<times> 'f) option list outcome" where
  "Positions pf z r err =
     (case Values r err of (values, Some e) \<Rightarrow> ([], Some e) | (values, None) \<Rightarrow> positions_loop pf z values)"

subsection \<open>What the conversions return\<close>

lemma Int_Itoa: "int64_ok n \<Longrightarrow> Int_reply (RBulk (Itoa n)) None = (n, None)"
  by (simp add: ParseInt_Itoa)

lemma Int_RInt: "int64_ok n \<Longrightarrow> Int_reply (RInt n) None = (n, None)"
  by (simp add: wrap64_id)

text \<open>The loop of \<open>sliceHelper\<close> on a prefix that it accepts, after \<open>filled\<close> has been filled in.\<close>

definition accepted :: "(reply \<Rightarrow> 'a option \<times> redis_error option) \<Rightarrow> 'a \<Rightarrow> reply \<Rightarrow> 'a \<Rightarrow> bool" where
  "accepted assign z r a \<longleftrightarrow> (if r = RNil then a = z else assign r = (Some a, None))"

lemma slice_loop_accepted:
  assumes "list_all2 (accepted assign z) rs as" "length filled = i" "length rest \<ge> length rs"
    and "take (length rs) rest = replicate (length rs) z"
  shows "slice_loop assign i (rs @ rs') (filled @ rest) =
    slice_loop assign (i + length rs) rs' (filled @ as @ drop (length rs) rest)"
  using assms
proof (induction rs as arbitrary: i filled rest rule: list_all2_induct)
  case (Cons r rs a as)
  obtain rest' where rest: "rest = z # rest'" using Cons.prems by (cases rest) auto
  have "slice_loop assign i ((r # rs) @ rs') (filled @ rest) =
      slice_loop assign (Suc i) (rs @ rs') ((filled @ [a]) @ rest')"
    using Cons.hyps(1) Cons.prems(1)
    by (cases "r = RNil") (simp_all add: accepted_def rest list_update_append)
  also have "\<dots> = slice_loop assign (Suc i + length rs) rs' ((filled @ [a]) @ as @ drop (length rs) rest')"
    using Cons.prems by (intro Cons.IH) (auto simp: rest)
  finally show ?case by (simp add: rest)
qed simp

lemma slice_loop_all:
  assumes "list_all2 (accepted assign z) rs as"
  shows "sliceHelper name z assign (RArray rs) None = (as, None)"
  using slice_loop_accepted [OF assms, of "[]" 0 "replicate (length rs) z" "[]"] by simp

lemma slice_loop_stop:
  assumes "list_all2 (accepted assign z) rs as" "r \<noteq> RNil" "assign r = (None, Some e)"
  shows "sliceHelper name z assign (RArray (rs @ r # rs')) None = (as @ replicate (Suc (length rs')) z, Some e)"
proof -
  have eq: "replicate (length (rs @ r # rs')) z = [] @ replicate (length rs) z @ replicate (Suc (length rs')) z"
    by (simp add: replicate_add [symmetric] del: replicate_Suc)
  show ?thesis
    unfolding sliceHelper.simps eq
    by (subst slice_loop_accepted [OF assms(1)]) (use assms(2,3) in simp_all)
qed

text \<open>The text that \<open>Strings\<close> takes from an element.\<close>

fun reply_text :: "reply \<Rightarrow> string option" where
  "reply_text RNil = Some []"
| "reply_text (RStatus s) = Some s"
| "reply_text (RBulk b) = Some b"
| "reply_text _ = None"

lemma accepted_string: "accepted assign_string [] r s \<longleftrightarrow> reply_text r = Some s"
  by (cases r) (auto simp: accepted_def)



text \<open>The pairs of a map reply in the order of the reply.\<close>

definition pairs_reply :: "(string \<times> string) list \<Rightarrow> reply" where
  "pairs_reply kvs = RArray (concat (map (\<lambda>(k, v). [RBulk k, RBulk v]) kvs))"

lemma string_map_loop_pairs:
  "string_map_loop (concat (map (\<lambda>(k, v). [RBulk k, RBulk v]) kvs)) m = (m ++ map_of (rev kvs), None)"
  by (induction kvs arbitrary: m) (auto simp: fun_eq_iff map_add_def split: option.splits)

lemma num_map_loop_pairs:
  assumes "list_all2 (\<lambda>(k, v) n. conv (RBulk v) None = (n, None)) kvs ns"
  shows "num_map_loop name conv (concat (map (\<lambda>(k, v). [RBulk k, RBulk v]) kvs)) m =
    (m ++ map_of (rev (zip (map fst kvs) ns)), None)"
  using assms
  by (induction kvs ns arbitrary: m rule: list_all2_induct) (auto simp: fun_eq_iff map_add_def split: option.splits)

lemma length_pairs: "length (concat (map (\<lambda>(k, v). [f k, g v]) kvs)) = 2 * length kvs"
  by (induction kvs) auto

text \<open>C8. \<open>StringMap\<close> and \<open>IntMap\<close> turn the alternating keys and values of a reply into the map that looks
  up the last value of a key; numbers written by the server in decimal are read back exactly.\<close>

theorem maps_of_pairs:
  assumes ok: "list_all (\<lambda>(k, n). int64_ok n) kns"
  shows "StringMap (pairs_reply kvs) None = (map_of (rev kvs), None) \<and>
    IntMap (pairs_reply (map (\<lambda>(k, n). (k, Itoa n)) kns)) None = (map_of (rev kns), None)"
proof
  show "StringMap (pairs_reply kvs) None = (map_of (rev kvs), None)"
    by (simp add: StringMap_def pairs_reply_def length_pairs string_map_loop_pairs)
  let ?kvs = "map (\<lambda>(k, n). (k, Itoa n)) kns"
  have *: "list_all2 (\<lambda>(k, v) n. Int_reply (RBulk v) None = (n, None)) ?kvs (map snd kns)"
    using ok by (induction kns) (auto simp: ParseInt_Itoa)
  have z: "zip (map fst ?kvs) (map snd kns) = kns"
    by (induction kns) auto
  show "IntMap (pairs_reply ?kvs) None = (map_of (rev kns), None)"
    using num_map_loop_pairs [where conv = Int_reply, OF *, of "''IntMap''" Map.empty] unfolding z
    by (simp only: IntMap_def num_map_def pairs_reply_def Values.simps prod.case option.case length_pairs
        mod_mult_self1_is_0 if_not_P not_not HOL.simp_thms empty_map_add)
qed

theorem maps_of_pairs_witness:
  "StringMap (pairs_reply [(''k'', ''v'')]) None = (map_of (rev [(''k'', ''v'')]), None) \<and>
   IntMap (pairs_reply (map (\<lambda>(k, n). (k, Itoa n)) [(''a'', 1), (''b'', -20), (''a'', 3)])) None =
     (map_of (rev [(''a'', 1), (''b'', -20), (''a'', 3)]), None)"
proof -
  have "list_all (\<lambda>(k, n). int64_ok n) [(''a'', 1), (''b'', -20), (''a'', 3)]" by (simp add: int64_ok_def)
  then show ?thesis by (rule maps_of_pairs)
qed

end
