(* ===== verification/Redis_Conn.thy ===== *)
theory Redis_Conn
  imports Redis_Reply
begin

section \<open>The Redis protocol and the connection (redis/conn.go)\<close>

text \<open>
  The writer side keeps the \<open>bufio.Writer\<close> of 4096 bytes with its sticky error; \<open>bw_net\<close> is the error of a
  network that refuses writes. The bytes the peer has got or will get, in order, are
  \<open>bw_stream\<close>. The reader side is the byte stream \<open>br\<close> that is still to be read and the error \<open>br_end\<close>
  met at its end (\<open>io.EOF\<close> or a time-out of the deadline set before). The mutex is not modelled: each
  method is one step.
\<close>

record bufw =
  bw_buf :: string
  bw_sent :: string
  bw_err :: "redis_error option"
  bw_net :: "redis_error option"

definition bw_stream :: "bufw \<Rightarrow> string" where
  "bw_stream w = bw_sent w @ bw_buf w"

definition bw_flush :: "bufw \<Rightarrow> redis_error option \<times> bufw" where
  "bw_flush w =
     (if bw_err w \<noteq> None then (bw_err w, w)
      else if bw_buf w = [] then (None, w)
      else case bw_net w of
        None \<Rightarrow> (None, w\<lparr>bw_sent := bw_sent w @ bw_buf w, bw_buf := []\<rparr>)
      | Some e \<Rightarrow> (Some e, w\<lparr>bw_err := Some e\<rparr>))"

text \<open>\<open>Write\<close> and \<open>WriteString\<close> fill the buffer and flush it while the data does not fit.\<close>

function bw_write :: "string \<Rightarrow> bufw \<Rightarrow> redis_error option \<times> bufw" where
  "bw_write p w =
     (if bw_err w = None \<and> 4096 < length (bw_buf w) + length p then
        let n = 4096 - length (bw_buf w)
        in bw_write (drop n p) (snd (bw_flush (w\<lparr>bw_buf := bw_buf w @ take n p\<rparr>)))
      else if bw_err w \<noteq> None then (bw_err w, w)
      else (None, w\<lparr>bw_buf := bw_buf w @ p\<rparr>))"
  by pat_completeness auto
termination
proof (relation "measures [\<lambda>(p, w). length p, \<lambda>(p, w). if bw_err w = None then 1 else 0, \<lambda>(p, w). length (bw_buf w)]", goal_cases)
  case (2 p w n)
  let ?w = "w\<lparr>bw_buf := bw_buf w @ take n p\<rparr>"
  show ?case
  proof (cases "n = 0")
    case True
    with 2 have "4096 \<le> length (bw_buf w)" "bw_buf w \<noteq> []" by auto
    then show ?thesis using 2 True by (auto simp: bw_flush_def split: option.splits)
  qed (use 2 in auto)
qed simp

declare bw_write.simps [simp del]

record rconn =
  pending :: nat
  cerr :: "redis_error option"
  cclosed :: bool
  lenScratch :: string
  wr :: bufw
  br :: string
  br_end :: redis_error

subsection \<open>Writing commands\<close>

type_synonym 'a conn_step = "('a \<times> rconn) result"

definition conn_write :: "string \<Rightarrow> rconn \<Rightarrow> redis_error option \<times> rconn" where
  "conn_write p c = (case bw_write p (wr c) of (err, w) \<Rightarrow> (err, c\<lparr>wr := w\<rparr>))"

text \<open>The digits are written from the right end of the scratch array.\<close>

fun len_digits :: "string \<Rightarrow> int \<Rightarrow> nat \<Rightarrow> (string \<times> int) result" where
  "len_digits b i n =
     bindR (set_at b i (byte (48 + int (n mod 10)))) (\<lambda>b.
       if n div 10 = 0 then Inr (b, i - 1) else len_digits b (i - 1) (n div 10))"

declare len_digits.simps [simp del]

abbreviation crlf :: string where
  "crlf \<equiv> [CHR 0x0D, CHR 0x0A]"

definition writeLen :: "char \<Rightarrow> nat \<Rightarrow> rconn \<Rightarrow> redis_error option conn_step" where
  "writeLen prefix n c =
     bindR (set_at (lenScratch c) 31 CHR 0x0A) (\<lambda>b.
     bindR (set_at b 30 CHR 0x0D) (\<lambda>b.
     bindR (len_digits b 29 n) (\<lambda>(b, i).
     bindR (set_at b i prefix) (\<lambda>b.
     bindR (slice b i 32) (\<lambda>p.
       Inr (conn_write p (c\<lparr>lenScratch := b\<rparr>)))))))"

definition writeString :: "string \<Rightarrow> rconn \<Rightarrow> redis_error option conn_step" where
  "writeString s c =
     bindR (writeLen CHR ''$'' (length s) c) (\<lambda>(_, c).
       let c = snd (conn_write s c) in Inr (conn_write crlf c))"

definition writeBytes :: "string \<Rightarrow> rconn \<Rightarrow> redis_error option conn_step" where
  "writeBytes p c =
     bindR (writeLen CHR ''$'' (length p) c) (\<lambda>(_, c).
       let c = snd (conn_write p c) in Inr (conn_write crlf c))"

definition writeInt64 :: "int \<Rightarrow> rconn \<Rightarrow> redis_error option conn_step" where
  "writeInt64 n = writeBytes (Itoa n)"

text \<open>
  The dynamic types of a command argument. \<open>ARedisArg a t\<close> is a value whose method \<open>RedisArg\<close> returns \<open>a\<close>
  and that \<open>fmt.Fprint\<close> prints as \<open>t\<close>; \<open>AOther t\<close> is any other value printed as \<open>t\<close>. A float carries its
  shortest decimal text (\<open>strconv.AppendFloat\<close>).
\<close>

datatype arg = AString string | ABytes string | AInt int | AInt64 int | AFloat64 string
  | ABool bool | ANil | ARedisArg arg string | AOther string

fun writeArg :: "arg \<Rightarrow> bool \<Rightarrow> rconn \<Rightarrow> redis_error option conn_step" where
  "writeArg (AString s) ok c = writeString s c"
| "writeArg (ABytes p) ok c = writeBytes p c"
| "writeArg (AInt n) ok c = writeInt64 n c"
| "writeArg (AInt64 n) ok c = writeInt64 n c"
| "writeArg (AFloat64 t) ok c = writeBytes t c"
| "writeArg (ABool b) ok c = writeString (if b then ''1'' else ''0'') c"
| "writeArg ANil ok c = writeString [] c"
| "writeArg (ARedisArg a t) ok c = (if ok then writeArg a False c else writeBytes t c)"
| "writeArg (AOther t) ok c = writeBytes t c"

fun writeArgs :: "arg list \<Rightarrow> rconn \<Rightarrow> redis_error option conn_step" where
  "writeArgs [] c = Inr (None, c)"
| "writeArgs (a # as) c =
     bindR (writeArg a True c) (\<lambda>(err, c). if err \<noteq> None then Inr (err, c) else writeArgs as c)"

definition writeCommand :: "string \<Rightarrow> arg list \<Rightarrow> rconn \<Rightarrow> redis_error option conn_step" where
  "writeCommand cmd args c =
     bindR (writeLen CHR ''*'' (1 + length args) c) (\<lambda>(_, c).
     bindR (writeString cmd c) (\<lambda>(err, c). if err \<noteq> None then Inr (err, c) else writeArgs args c))"

subsection \<open>Reading replies\<close>

datatype slice_error = BufferFull | ReadError redis_error

text \<open>\<open>ReadSlice('\n')\<close> of a reader with a buffer of 4096 bytes: the bytes, the error, the rest.\<close>

definition ReadSlice :: "redis_error \<Rightarrow> string \<Rightarrow> string \<times> slice_error option \<times> string" where
  "ReadSlice e s =
     (let l = takeWhile (\<lambda>c. c \<noteq> CHR 0x0A) s in
      if length l < length s \<and> length l < 4096 then (l @ [CHR 0x0A], None, drop (Suc (length l)) s)
      else if 4096 \<le> length s then (take 4096 s, Some BufferFull, drop 4096 s)
      else (s, Some (ReadError e), []))"

function more_line :: "redis_error \<Rightarrow> string \<Rightarrow> string \<Rightarrow> string \<times> slice_error option \<times> string" where
  "more_line e buf s =
     (case ReadSlice e s of (p, err, r) \<Rightarrow>
        if err = Some BufferFull then more_line e (buf @ p) r else (buf @ p, err, r))"
  by pat_completeness auto
termination
  by (relation "measure (\<lambda>(e, buf, s). length s)") (auto simp: ReadSlice_def Let_def split: if_splits)

declare more_line.simps [simp del]

definition readLine :: "redis_error \<Rightarrow> string \<Rightarrow> (string outcome \<times> string) result" where
  "readLine e s =
     (case (case ReadSlice e s of (p, err, r) \<Rightarrow> if err = Some BufferFull then more_line e p r else (p, err, r)) of
        (p, Some (ReadError e'), r) \<Rightarrow> Inr (([], Some e'), r)
      | (p, Some BufferFull, r) \<Rightarrow> Inr (([], Some (ErrMsg ''bufio: buffer full'')), r)
      | (p, None, r) \<Rightarrow>
          let i = int (length p) - 2 in
          if i < 0 then Inr (([], Some (ProtocolError ''bad response line terminator'')), r)
          else bindR (get_at p i) (\<lambda>b.
            if b \<noteq> CHR 0x0D then Inr (([], Some (ProtocolError ''bad response line terminator'')), r)
            else bindR (slice p 0 i) (\<lambda>line. Inr ((line, None), r))))"

text \<open>The digits of a length or an integer, with the wrap-around of the 64-bit arithmetic.\<close>

fun parse_digits :: "int \<Rightarrow> string \<Rightarrow> int option" where
  "parse_digits n [] = Some n"
| "parse_digits n (b # p) =
     (if \<not> is_digit b then None else parse_digits (wrap64 (wrap64 (n * 10) + (rn b - 48))) p)"

definition parseLen :: "string \<Rightarrow> int outcome" where
  "parseLen p =
     (if p = [] then (-1, Some (ProtocolError ''malformed length''))
      else if p = ''-1'' then (-1, None)
      else case parse_digits 0 p of
        None \<Rightarrow> (-1, Some (ProtocolError ''illegal bytes in length''))
      | Some n \<Rightarrow> (n, None))"

definition parseInt :: "string \<Rightarrow> reply outcome" where
  "parseInt p =
     (if p = [] then (RInt 0, Some (ProtocolError ''malformed integer''))
      else let negate = (hd p = CHR ''-''); p = (if negate then tl p else p) in
        if p = [] then (RInt 0, Some (ProtocolError ''malformed integer''))
        else case parse_digits 0 p of
          None \<Rightarrow> (RInt 0, Some (ProtocolError ''illegal bytes in length''))
        | Some n \<Rightarrow> (RInt (if negate then wrap64 (- n) else n), None))"

text \<open>\<open>io.ReadFull\<close> of \<open>n\<close> bytes.\<close>

definition ReadFull :: "redis_error \<Rightarrow> nat \<Rightarrow> string \<Rightarrow> string \<times> redis_error option \<times> string" where
  "ReadFull e n s =
     (if n \<le> length s then (take n s, None, drop n s)
      else (s, Some (if e = ErrEOF \<and> s \<noteq> [] then ErrUnexpectedEOF else e), []))"

text \<open>
  \<open>readReply\<close> recurses into arrays. The recursion depth is bounded by the first argument; \<open>None\<close> is the
  depth bound being exceeded, which \<open>readReply\<close> never meets because every level reads at least one byte.
\<close>

type_synonym 'a read = "('a outcome \<times> string) result option"

fun read_elems :: "(string \<Rightarrow> reply read) \<Rightarrow> nat \<Rightarrow> string \<Rightarrow> reply list read" where
  "read_elems rd 0 s = Some (Inr (([], None), s))"
| "read_elems rd (Suc n) s =
     bindO (rd s) (\<lambda>((r, err), s).
       if err \<noteq> None then Some (Inr (([], err), s))
       else bindO (read_elems rd n s) (\<lambda>((rs, err), s).
         Some (Inr ((if err = None then r # rs else [], err), s))))"

definition read_bulk :: "redis_error \<Rightarrow> string \<Rightarrow> string \<Rightarrow> (reply outcome \<times> string) result" where
  "read_bulk e len s =
     (case parseLen len of (n, err) \<Rightarrow>
        if n < 0 \<or> err \<noteq> None then Inr ((RNil, err), s)
        else bindR (make_slice 1 CHR 0x00 n) (\<lambda>_.
          case ReadFull e (nat n) s of
            (p, Some err, s) \<Rightarrow> Inr ((RNil, Some err), s)
          | (p, None, s) \<Rightarrow>
              bindR (readLine e s) (\<lambda>((line, err), s).
                if err \<noteq> None then Inr ((RNil, err), s)
                else if line \<noteq> [] then Inr ((RNil, Some (ProtocolError ''bad bulk string format'')), s)
                else Inr ((RBulk p, None), s))))"

definition read_array :: "(string \<Rightarrow> reply read) \<Rightarrow> string \<Rightarrow> string \<Rightarrow> reply read" where
  "read_array rd len s =
     (case parseLen len of (n, err) \<Rightarrow>
        if n < 0 \<or> err \<noteq> None then Some (Inr ((RNil, err), s))
        else bindO (Some (make_slice 16 RNil n)) (\<lambda>_.
          bindO (read_elems rd (nat n) s) (\<lambda>((rs, err), s).
            Some (Inr ((if err = None then RArray rs else RNil, err), s)))))"

text \<open>The cases on the first byte of the line; the two shortcuts for \<open>+OK\<close> and \<open>+PONG\<close> give the same value.\<close>

definition read_typed :: "(string \<Rightarrow> reply read) \<Rightarrow> redis_error \<Rightarrow> string \<Rightarrow> string \<Rightarrow> reply read" where
  "read_typed rd e line s =
     (case line of
        [] \<Rightarrow> Some (Inr ((RNil, Some (ProtocolError ''short response line'')), s))
      | b # l \<Rightarrow>
          if b = CHR ''+'' then Some (Inr ((RStatus l, None), s))
          else if b = CHR ''-'' then Some (Inr ((RError l, None), s))
          else if b = CHR '':'' then Some (Inr (parseInt l, s))
          else if b = CHR ''$'' then Some (read_bulk e l s)
          else if b = CHR ''*'' then read_array rd l s
          else Some (Inr ((RNil, Some (ProtocolError ''unexpected response line'')), s)))"

fun read_depth :: "nat \<Rightarrow> redis_error \<Rightarrow> string \<Rightarrow> reply read" where
  "read_depth 0 e s = None"
| "read_depth (Suc d) e s =
     bindO (Some (readLine e s)) (\<lambda>((line, err), s).
       if err \<noteq> None then Some (Inr ((RNil, err), s))
       else read_typed (read_depth d e) e line s)"

definition readReply :: "rconn \<Rightarrow> (reply outcome \<times> rconn) result option" where
  "readReply c =
     bindO (read_depth (Suc (length (br c))) (br_end c) (br c)) (\<lambda>(out, s). Some (Inr (out, c\<lparr>br := s\<rparr>)))"

subsection \<open>The connection\<close>

definition fatal :: "redis_error \<Rightarrow> rconn \<Rightarrow> rconn" where
  "fatal err c = (if cerr c = None then c\<lparr>cerr := Some err, cclosed := True\<rparr> else c)"

text \<open>\<open>net\<close> is the error of closing the socket.\<close>

definition Close :: "redis_error option \<Rightarrow> rconn \<Rightarrow> redis_error option \<times> rconn" where
  "Close net c =
     (if cerr c = None then (net, c\<lparr>cerr := Some (ErrMsg ''redigo: closed''), cclosed := True\<rparr>) else (cerr c, c))"

definition Send :: "string \<Rightarrow> arg list \<Rightarrow> rconn \<Rightarrow> redis_error option conn_step" where
  "Send cmd args c =
     bindR (writeCommand cmd args (c\<lparr>pending := pending c + 1\<rparr>)) (\<lambda>(err, c).
       case err of Some e \<Rightarrow> Inr (Some e, fatal e c) | None \<Rightarrow> Inr (None, c))"

definition conn_flush :: "rconn \<Rightarrow> redis_error option \<times> rconn" where
  "conn_flush c = (case bw_flush (wr c) of (err, w) \<Rightarrow> (err, c\<lparr>wr := w\<rparr>))"

definition Flush :: "rconn \<Rightarrow> redis_error option \<times> rconn" where
  "Flush c = (case conn_flush c of (Some e, c) \<Rightarrow> (Some e, fatal e c) | (None, c) \<Rightarrow> (None, c))"

definition Receive :: "rconn \<Rightarrow> (reply outcome \<times> rconn) result option" where
  "Receive c =
     bindO (readReply c) (\<lambda>((reply, err), c).
       case err of
         Some e \<Rightarrow> Some (Inr ((RNil, Some e), fatal e c))
       | None \<Rightarrow>
           let c = (if 0 < pending c then c\<lparr>pending := pending c - 1\<rparr> else c) in
           (case reply of
              RError t \<Rightarrow> Some (Inr ((RNil, Some (ErrServer t)), c))
            | _ \<Rightarrow> Some (Inr ((reply, None), c))))"

text \<open>The two loops of \<open>DoWithTimeout\<close>: all replies of the pending commands, or the last one with the first error.\<close>

fun do_all :: "nat \<Rightarrow> rconn \<Rightarrow> (reply list outcome \<times> rconn) result option" where
  "do_all 0 c = Some (Inr (([], None), c))"
| "do_all (Suc n) c =
     bindO (readReply c) (\<lambda>((r, err), c).
       case err of
         Some e \<Rightarrow> Some (Inr (([], Some e), fatal e c))
       | None \<Rightarrow> bindO (do_all n c) (\<lambda>((rs, err), c). Some (Inr ((if err = None then r # rs else [], err), c))))"

definition first_error :: "redis_error option \<Rightarrow> reply \<Rightarrow> redis_error option" where
  "first_error err r = (case r of RError t \<Rightarrow> (if err = None then Some (ErrServer t) else err) | _ \<Rightarrow> err)"

fun do_last :: "nat \<Rightarrow> reply \<Rightarrow> redis_error option \<Rightarrow> rconn \<Rightarrow> (reply outcome \<times> rconn) result option" where
  "do_last 0 reply err c = Some (Inr ((reply, err), c))"
| "do_last (Suc n) reply err c =
     bindO (readReply c) (\<lambda>((r, e), c).
       case e of
         Some e \<Rightarrow> Some (Inr ((RNil, Some e), fatal e c))
       | None \<Rightarrow> do_last n r (first_error err r) c)"

definition Do_conn :: "string \<Rightarrow> arg list \<Rightarrow> rconn \<Rightarrow> (reply outcome \<times> rconn) result option" where
  "Do_conn cmd args c =
     (let n = pending c; c = c\<lparr>pending := 0\<rparr> in
      if cmd = [] \<and> n = 0 then Some (Inr ((RNil, None), c))
      else bindO (Some (if cmd \<noteq> [] then writeCommand cmd args c else Inr (None, c))) (\<lambda>(err, c).
        case err of
          Some e \<Rightarrow> Some (Inr ((RNil, Some e), fatal e c))
        | None \<Rightarrow>
            (case conn_flush c of
               (Some e, c) \<Rightarrow> Some (Inr ((RNil, Some e), fatal e c))
             | (None, c) \<Rightarrow>
                 if cmd = [] then
                   bindO (do_all n c) (\<lambda>((rs, err), c).
                     Some (Inr ((if err = None then RArray rs else RNil, err), c)))
                 else do_last (Suc n) RNil None c)))"

end
