(* ===== verification/Redis_Protocol.thy ===== *)
theory Redis_Protocol
  imports Redis_Conn
begin

section \<open>What goes over the wire\<close>

text \<open>
  The encoding of replies as the Redis protocol defines it, the proof that the writer of redis/conn.go
  produces it for commands, whatever the state of its buffer, and that the reader inverts it.
\<close>

fun resp :: "reply \<Rightarrow> string" where
  "resp (RInt n) = CHR '':'' # Itoa n @ crlf"
| "resp (RBulk b) = CHR ''$'' # digits_of (length b) @ crlf @ b @ crlf"
| "resp (RStatus s) = CHR ''+'' # s @ crlf"
| "resp RNil = ''$-1'' @ crlf"
| "resp (RError s) = CHR ''-'' # s @ crlf"
| "resp (RArray rs) = CHR ''*'' # digits_of (length rs) @ crlf @ concat (map resp rs)"

text \<open>The replies that can be sent: one-line texts, 64-bit integers, lengths that can be allocated.\<close>

fun wf_reply :: "reply \<Rightarrow> bool" where
  "wf_reply (RInt n) = int64_ok n"
| "wf_reply (RBulk b) = (length b \<le> 2 ^ 48)"
| "wf_reply (RStatus s) = (CHR 0x0A \<notin> set s)"
| "wf_reply RNil = True"
| "wf_reply (RError s) = (CHR 0x0A \<notin> set s)"
| "wf_reply (RArray rs) = (length rs \<le> 2 ^ 44 \<and> list_all wf_reply rs)"

fun arg_text :: "bool \<Rightarrow> arg \<Rightarrow> string" where
  "arg_text ok (AString s) = s"
| "arg_text ok (ABytes p) = p"
| "arg_text ok (AInt n) = Itoa n"
| "arg_text ok (AInt64 n) = Itoa n"
| "arg_text ok (AFloat64 t) = t"
| "arg_text ok (ABool b) = (if b then ''1'' else ''0'')"
| "arg_text ok ANil = []"
| "arg_text ok (ARedisArg a t) = (if ok then arg_text False a else t)"
| "arg_text ok (AOther t) = t"

definition command :: "string \<Rightarrow> arg list \<Rightarrow> reply" where
  "command cmd args = RArray (RBulk cmd # map (\<lambda>a. RBulk (arg_text True a)) args)"

text \<open>Go lengths are non-negative 64-bit integers.\<close>

definition fits :: "'a list \<Rightarrow> bool" where
  "fits s \<longleftrightarrow> int (length s) < 2 ^ 63 - 1"

subsection \<open>The writer\<close>

lemma bw_write_ok:
  assumes "bw_err w = None" "bw_net w = None"
  shows "\<exists>w'. bw_write p w = (None, w') \<and> bw_stream w' = bw_stream w @ p \<and> bw_err w' = None \<and> bw_net w' = None"
  using assms
proof (induction p w rule: bw_write.induct)
  case (1 p w)
  show ?case
  proof (cases "4096 < length (bw_buf w) + length p")
    case True
    let ?n = "4096 - length (bw_buf w)"
    let ?w = "snd (bw_flush (w\<lparr>bw_buf := bw_buf w @ take ?n p\<rparr>))"
    have ne: "bw_buf w @ take ?n p \<noteq> []" using True by (cases "bw_buf w") auto
    have w: "bw_err ?w = None" "bw_net ?w = None" "bw_stream ?w = bw_stream w @ take ?n p"
      using "1.prems" ne by (auto simp: bw_flush_def bw_stream_def)
    obtain w' where w': "bw_write (drop ?n p) ?w = (None, w')" "bw_stream w' = bw_stream ?w @ drop ?n p"
        "bw_err w' = None" "bw_net w' = None"
      using "1.IH" [OF _ refl w(1,2)] True "1.prems" by auto
    then show ?thesis
      using True "1.prems" w(3) by (subst bw_write.simps) (simp add: Let_def)
  next
    case False
    then show ?thesis using "1.prems" by (subst bw_write.simps) (simp add: bw_stream_def)
  qed
qed

definition ready :: "rconn \<Rightarrow> bool" where
  "ready c \<longleftrightarrow> bw_err (wr c) = None \<and> bw_net (wr c) = None \<and> length (lenScratch c) = 32"

text \<open>\<open>wrote p c c'\<close>: the bytes \<open>p\<close> have been written and nothing else has changed.\<close>

definition wrote :: "string \<Rightarrow> rconn \<Rightarrow> rconn \<Rightarrow> bool" where
  "wrote p c c' \<longleftrightarrow> ready c' \<and> bw_stream (wr c') = bw_stream (wr c) @ p \<and>
     pending c' = pending c \<and> cerr c' = cerr c \<and> cclosed c' = cclosed c \<and> br c' = br c \<and> br_end c' = br_end c"

lemma wrote_trans: "wrote p a b \<Longrightarrow> wrote q b c \<Longrightarrow> wrote (p @ q) a c"
  by (simp add: wrote_def)

lemma wrote_ready: "wrote p c c' \<Longrightarrow> ready c'"
  by (simp add: wrote_def)

lemma conn_write_ok: "ready c \<Longrightarrow> \<exists>c'. conn_write p c = (None, c') \<and> wrote p c c'"
  using bw_write_ok [of "wr c" p] by (auto simp: conn_write_def ready_def wrote_def)

lemma length_digits_19: "int n < 2 ^ 63 \<Longrightarrow> length (digits_of n) \<le> 19"
  by (rule length_digits_of) (simp_all add: nat_less_iff [symmetric] zless_nat_eq_int_zless [symmetric])

lemma len_digits_ok:
  "length (digits_of n) \<le> Suc i \<Longrightarrow> i < length b \<Longrightarrow>
    len_digits b (int i) n = Inr (take (Suc i - length (digits_of n)) b @ digits_of n @ drop (Suc i) b,
      int i - int (length (digits_of n)))"
proof (induction n arbitrary: b i rule: digits_of.induct)
  case (1 n)
  let ?b = "b[i := byte (48 + int (n mod 10))]"
  show ?case
  proof (cases "n < 10")
    case True
    then show ?thesis
      using "1.prems" by (subst len_digits.simps, subst (1 2 3) digits_of.simps)
        (simp add: set_at_def upd_conv_take_nth_drop)
  next
    case False
    have d: "digits_of n = digits_of (n div 10) @ [byte (48 + int (n mod 10))]"
      using False by (subst digits_of.simps) simp
    then have i: "0 < i" using "1.prems" by (cases i) (auto simp: Suc_le_eq)
    have "len_digits ?b (int (i - 1)) (n div 10) =
        Inr (take (Suc (i - 1) - length (digits_of (n div 10))) ?b @ digits_of (n div 10) @ drop (Suc (i - 1)) ?b,
          int (i - 1) - int (length (digits_of (n div 10))))"
      using False "1.prems" d i by (intro "1.IH") auto
    moreover have "drop i ?b = byte (48 + int (n mod 10)) # drop (Suc i) b"
      using "1.prems" by (simp add: upd_conv_take_nth_drop)
    moreover have "take (Suc i - length (digits_of n)) ?b = take (Suc i - length (digits_of n)) b"
      using d by (simp add: take_update_cancel)
    ultimately show ?thesis
      using False "1.prems" i d by (subst len_digits.simps) (simp add: set_at_def of_nat_diff)
  qed
qed

lemma update_take: "m < length b \<Longrightarrow> (take (Suc m) b @ ys)[m := x] = take m b @ x # ys"
  by (simp add: list_update_append take_Suc_conv_app_nth)

lemma writeLen_ok:
  assumes "ready c" "int n < 2 ^ 63"
  shows "\<exists>c'. writeLen pre n c = Inr (None, c') \<and> wrote (pre # digits_of n @ crlf) c c'"
proof -
  let ?k = "length (digits_of n)"
  let ?b = "((lenScratch c)[31 := CHR 0x0A])[30 := CHR 0x0D]"
  let ?b' = "take (30 - ?k) ?b @ digits_of n @ drop 30 ?b"
  have k: "?k \<le> 19" using assms(2) by (rule length_digits_19)
  have len: "length ?b = 32" using assms(1) by (simp add: ready_def)
  have dr: "drop 30 ?b = crlf"
    using len by (simp add: list_eq_iff_nth_eq nth_append less_Suc_eq numeral_2_eq_2 nth_list_update)
  have dig: "len_digits ?b 29 n = Inr (?b', 29 - int ?k)"
    using len_digits_ok [of n 29 ?b] k len by simp
  have "?b' = take (Suc (29 - ?k)) ?b @ digits_of n @ crlf"
    unfolding dr using k by (simp add: Suc_diff_le [symmetric])
  then have s: "set_at ?b' (29 - int ?k) pre = Inr (take (29 - ?k) ?b @ pre # digits_of n @ crlf)"
    using k len update_take [of "29 - ?k" ?b "digits_of n @ crlf" pre]
    by (simp add: set_at_def nat_diff_distrib')
  let ?p = "pre # digits_of n @ crlf" and ?B = "take (29 - ?k) ?b @ pre # digits_of n @ crlf"
  have sl: "slice ?B (29 - int ?k) 32 = Inr ?p"
    using k len by (simp add: slice_def nat_diff_distrib')
  have ini: "set_at (lenScratch c) 31 CHR 0x0A = Inr ((lenScratch c)[31 := CHR 0x0A])"
    "set_at ((lenScratch c)[31 := CHR 0x0A]) 30 CHR 0x0D = Inr ?b"
    using assms(1) by (simp_all add: set_at_def ready_def)
  have eq: "writeLen pre n c = Inr (conn_write ?p (c\<lparr>lenScratch := ?B\<rparr>))"
    by (simp only: writeLen_def ini dig s sl bindR_Inr prod.case)
  have "ready (c\<lparr>lenScratch := ?B\<rparr>)" using assms(1) k len by (simp add: ready_def)
  from conn_write_ok [OF this, of ?p] show ?thesis
    unfolding eq by (auto simp: wrote_def)
qed

lemma writeBytes_ok:
  assumes "ready c" "fits p"
  shows "\<exists>c'. writeBytes p c = Inr (None, c') \<and> wrote (resp (RBulk p)) c c'"
proof -
  have "int (length p) < 2 ^ 63" using assms(2) by (simp add: fits_def)
  from writeLen_ok [OF assms(1) this] obtain c1 where
    1: "writeLen CHR ''$'' (length p) c = Inr (None, c1)" "wrote (CHR ''$'' # digits_of (length p) @ crlf) c c1"
    by blast
  obtain c2 where 2: "conn_write p c1 = (None, c2)" "wrote p c1 c2"
    using conn_write_ok [OF wrote_ready [OF 1(2)]] by blast
  obtain c3 where 3: "conn_write crlf c2 = (None, c3)" "wrote crlf c2 c3"
    using conn_write_ok [OF wrote_ready [OF 2(2)]] by blast
  have "wrote (resp (RBulk p)) c c3"
    using wrote_trans [OF 1(2) wrote_trans [OF 2(2) 3(2)]] by simp
  then show ?thesis by (simp add: writeBytes_def 1 2 3)
qed

lemma writeString_eq: "writeString = writeBytes"
  by (simp add: fun_eq_iff writeString_def writeBytes_def)

lemma writeArg_ok:
  "ready c \<Longrightarrow> fits (arg_text ok a) \<Longrightarrow>
    \<exists>c'. writeArg a ok c = Inr (None, c') \<and> wrote (resp (RBulk (arg_text ok a))) c c'"
  by (induction a ok c rule: writeArg.induct)
     (simp_all add: writeString_eq writeInt64_def writeBytes_ok split: if_splits del: resp.simps)

lemma writeArgs_ok:
  "ready c \<Longrightarrow> \<forall>a \<in> set as. fits (arg_text True a) \<Longrightarrow>
    \<exists>c'. writeArgs as c = Inr (None, c') \<and> wrote (concat (map (\<lambda>a. resp (RBulk (arg_text True a))) as)) c c'"
proof (induction as arbitrary: c)
  case Nil
  then show ?case by (simp add: wrote_def)
next
  case (Cons a as)
  obtain c1 where 1: "writeArg a True c = Inr (None, c1)" "wrote (resp (RBulk (arg_text True a))) c c1"
    using writeArg_ok [of c True a] Cons.prems by auto
  obtain c2 where 2: "writeArgs as c1 = Inr (None, c2)"
      "wrote (concat (map (\<lambda>a. resp (RBulk (arg_text True a))) as)) c1 c2"
    using Cons.IH [OF wrote_ready [OF 1(2)]] Cons.prems by auto
  show ?case using wrote_trans [OF 1(2) 2(2)] by (simp add: 1 2 del: resp.simps)
qed

definition fits_command :: "string \<Rightarrow> arg list \<Rightarrow> bool" where
  "fits_command cmd args \<longleftrightarrow> fits cmd \<and> fits args \<and> (\<forall>a \<in> set args. fits (arg_text True a))"

lemma writeCommand_ok:
  assumes "ready c" "fits_command cmd args"
  shows "\<exists>c'. writeCommand cmd args c = Inr (None, c') \<and> wrote (resp (command cmd args)) c c'"
proof -
  have "int (1 + length args) < 2 ^ 63" using assms(2) by (simp add: fits_def fits_command_def)
  from writeLen_ok [OF assms(1) this] obtain c1 where
    1: "writeLen CHR ''*'' (1 + length args) c = Inr (None, c1)" "wrote (CHR ''*'' # digits_of (1 + length args) @ crlf) c c1"
    by blast
  obtain c2 where 2: "writeString cmd c1 = Inr (None, c2)" "wrote (resp (RBulk cmd)) c1 c2"
    using writeBytes_ok [OF wrote_ready [OF 1(2)]] assms(2) by (auto simp: writeString_eq fits_command_def)
  obtain c3 where 3: "writeArgs args c2 = Inr (None, c3)" "wrote (concat (map (\<lambda>a. resp (RBulk (arg_text True a))) args)) c2 c3"
    using writeArgs_ok [OF wrote_ready [OF 2(2)]] assms(2) by (auto simp: fits_command_def)
  have "wrote (resp (command cmd args)) c c3"
    using wrote_trans [OF 1(2) wrote_trans [OF 2(2) 3(2)]] by (simp add: command_def comp_def)
  then show ?thesis by (simp add: writeCommand_def 1 [simplified] 2 3)
qed

subsection \<open>The reader\<close>

abbreviation line_of :: "string \<Rightarrow> string" where
  "line_of s \<equiv> takeWhile (\<lambda>c. c \<noteq> CHR 0x0A) s"

lemma length_line_of: "length (line_of s) \<le> length s"
  by (rule length_takeWhile_le)

lemma line_of_append: "length (line_of s) = length s \<Longrightarrow> line_of (s @ t) = s @ line_of t"
  by (metis takeWhile_append2 takeWhile_eq_all_conv takeWhile_eq_take take_all_iff order_refl)

text \<open>Reading a line through the buffer gives the line, however long it is.\<close>

lemma more_line_spec:
  "more_line e buf s =
     (if length (line_of s) < length s
      then (buf @ line_of s @ [CHR 0x0A], None, drop (Suc (length (line_of s))) s)
      else (buf @ s, Some (ReadError e), []))"
proof (induction e buf s rule: more_line.induct)
  case (1 e buf s)
  let ?l = "line_of s"
  consider "length ?l < length s" "length ?l < 4096"
    | "4096 \<le> length ?l" | "length ?l = length s" "length s < 4096"
    using length_line_of [of s] by linarith
  then show ?case
  proof cases
    case 2
    then have s: "4096 \<le> length s" using length_line_of [of s] by simp
    have "take 4096 s = take 4096 (?l @ dropWhile (\<lambda>c. c \<noteq> CHR 0x0A) s)" by simp
    also have "\<dots> = take 4096 ?l" using 2 by (simp del: takeWhile_dropWhile_id)
    finally have "line_of (take 4096 s) = take 4096 s"
      by (metis in_set_takeD takeWhile_eq_all_conv set_takeWhileD)
    then have l: "?l = take 4096 s @ line_of (drop 4096 s)"
      by (metis append_take_drop_id line_of_append)
    then have len: "length ?l = 4096 + length (line_of (drop 4096 s))" using s by simp
    have rs: "ReadSlice e s = (take 4096 s, Some BufferFull, drop 4096 s)"
      using 2 s by (simp add: ReadSlice_def Let_def)
    have "more_line e buf s = more_line e (buf @ take 4096 s) (drop 4096 s)"
      by (subst more_line.simps) (simp add: rs)
    also have "\<dots> = (if length (line_of (drop 4096 s)) < length (drop 4096 s)
        then ((buf @ take 4096 s) @ line_of (drop 4096 s) @ [CHR 0x0A], None, drop (Suc (length (line_of (drop 4096 s)))) (drop 4096 s))
        else ((buf @ take 4096 s) @ drop 4096 s, Some (ReadError e), []))"
      by (rule "1.IH" [OF rs [symmetric] refl refl])
    finally show ?thesis using s by (simp add: len l add.commute less_diff_conv)
  qed (subst more_line.simps, simp add: ReadSlice_def Let_def)+
qed

lemma readLine_spec:
  "readLine e s =
     (let l = line_of s in
      if length l = length s then Inr (([], Some e), [])
      else if l = [] \<or> last l \<noteq> CHR 0x0D
        then Inr (([], Some (ProtocolError ''bad response line terminator'')), drop (Suc (length l)) s)
      else Inr ((butlast l, None), drop (Suc (length l)) s))"
proof -
  let ?l = "line_of s"
  have "(case ReadSlice e s of (p, err, r) \<Rightarrow> if err = Some BufferFull then more_line e p r else (p, err, r)) = more_line e [] s"
    by (cases "ReadSlice e s") (simp add: more_line.simps [of e "[]"])
  moreover have "length ?l = length s \<or> length ?l < length s" using length_line_of [of s] by linarith
  ultimately show ?thesis
    by (cases ?l rule: rev_cases)
       (auto simp: readLine_def more_line_spec Let_def get_at_def slice_def nth_append nat_diff_distrib')
qed

lemma readLine_line: "CHR 0x0A \<notin> set l \<Longrightarrow> readLine e (l @ crlf @ rest) = Inr ((l, None), rest)"
proof -
  assume "CHR 0x0A \<notin> set l"
  then have "line_of (l @ crlf @ rest) = l @ [CHR 0x0D]"
    by (subst takeWhile_append2) auto
  then show ?thesis by (simp add: readLine_spec)
qed

lemma wrap64_minus: "wrap64 (- wrap64 n) = wrap64 (- n)"
  by (rule wrap64_cong, rule mod_minus_cong, rule wrap64_mod)

lemma parse_digits_append:
  "parse_digits n (s @ t) = (case parse_digits n s of None \<Rightarrow> None | Some m \<Rightarrow> parse_digits m t)"
  by (induction n s rule: parse_digits.induct) auto

lemma parse_digits_of: "parse_digits 0 (digits_of n) = Some (wrap64 (int n))"
proof (induction n rule: digits_of.induct)
  case (1 n)
  have d: "is_digit (byte (48 + int k))" if "k < 10" for k
    using that by (simp add: is_digit_def rn_digit)
  have w: "wrap64 (wrap64 0 + k) = wrap64 k" for k
    using wrap64_step [of 0 k] by (simp add: wrap64_def)
  show ?case
  proof (cases "n < 10")
    case True
    then show ?thesis by (subst digits_of.simps) (simp add: d rn_digit w)
  next
    case False
    have "int (n div 10) * 10 + int (n mod 10) = int n"
      by (metis div_mult_mod_eq of_nat_add of_nat_mult of_nat_numeral)
    moreover have "parse_digits 0 (digits_of n) = parse_digits (wrap64 (int (n div 10))) [byte (48 + int (n mod 10))]"
      using 1 False by (subst digits_of.simps) (simp add: parse_digits_append)
    ultimately show ?thesis using wrap64_step [of "int (n div 10)" "int (n mod 10)"] by (simp add: d rn_digit)
  qed
qed

lemma digits_of_not_minus: "digits_of n \<noteq> CHR ''-'' # l"
  using hd_digits_of [of n] by (auto simp: is_digit_def)

lemma parseLen_digits: "int n < 2 ^ 63 \<Longrightarrow> parseLen (digits_of n) = (int n, None)"
  using digits_of_not_minus [of n "''1''"]
  by (simp add: parseLen_def parse_digits_of wrap64_id int64_ok_def)

lemma parseInt_Itoa: "int64_ok n \<Longrightarrow> parseInt (Itoa n) = (RInt n, None)"
proof (cases "n < 0")
  case True
  assume ok: "int64_ok n"
  have "parseInt (Itoa n) = (RInt (wrap64 (- wrap64 (- n))), None)"
    using True by (simp add: parseInt_def Itoa_def parse_digits_of Let_def)
  then show ?thesis using ok by (simp add: wrap64_minus wrap64_id)
next
  case False
  assume "int64_ok n"
  moreover have "hd (digits_of (nat n)) \<noteq> CHR ''-''"
    using hd_digits_of [of "nat n"] by (auto simp: is_digit_def)
  ultimately show ?thesis
    using False by (simp add: parseInt_def Itoa_def parse_digits_of wrap64_id Let_def)
qed

lemma digits_of_no_lf: "CHR 0x0A \<notin> set (digits_of n)"
  using is_digit_digits_of [of n] by (auto simp: list_all_iff is_digit_def)

lemma Itoa_no_lf: "CHR 0x0A \<notin> set (Itoa n)"
  by (simp add: Itoa_def digits_of_no_lf)

subsection \<open>Reading is total and inverts the encoding\<close>

lemma read_elems_roundtrip:
  assumes "\<And>r rest. r \<in> set rs \<Longrightarrow> rd (resp r @ rest) = Some (Inr ((r, None), rest))"
  shows "read_elems rd (length rs) (concat (map resp rs) @ rest) = Some (Inr ((rs, None), rest))"
  using assms by (induction rs) auto

lemma length_resp_elem: "r \<in> set rs \<Longrightarrow> length (resp r) \<le> length (concat (map resp rs))"
  by (induction rs) auto

lemma read_depth_roundtrip:
  "wf_reply r \<Longrightarrow> length (resp r) \<le> d \<Longrightarrow> read_depth d e (resp r @ rest) = Some (Inr ((r, None), rest))"
proof (induction r arbitrary: d rest)
  case (RArray rs)
  then obtain d' where d: "d = Suc d'" by (cases d) auto
  have l: "readLine e (resp (RArray rs) @ rest) =
      Inr ((CHR ''*'' # digits_of (length rs), None), concat (map resp rs) @ rest)"
    using readLine_line [of "CHR ''*'' # digits_of (length rs)" e "concat (map resp rs) @ rest"]
    by (simp add: digits_of_no_lf)
  have len: "parseLen (digits_of (length rs)) = (int (length rs), None)"
    using RArray.prems(1) by (intro parseLen_digits) auto
  have "read_elems (read_depth d' e) (length rs) (concat (map resp rs) @ rest) = Some (Inr ((rs, None), rest))"
    using RArray length_resp_elem [of _ rs] d
    by (intro read_elems_roundtrip RArray.IH) (fastforce simp: list_all_iff)+
  then show ?case
    using RArray.prems(1) by (simp add: d l read_typed_def read_array_def len make_slice_def del: resp.simps)
next
  case (RBulk b)
  then obtain d' where d: "d = Suc d'" by (cases d) auto
  have l: "readLine e (resp (RBulk b) @ rest) = Inr ((CHR ''$'' # digits_of (length b), None), b @ crlf @ rest)"
    using readLine_line [of "CHR ''$'' # digits_of (length b)" e "b @ crlf @ rest"]
    by (simp add: digits_of_no_lf)
  have len: "parseLen (digits_of (length b)) = (int (length b), None)"
    using RBulk.prems(1) by (intro parseLen_digits) auto
  have "readLine e (crlf @ rest) = Inr (([], None), rest)" using readLine_line [of "[]"] by simp
  then show ?case
    using RBulk.prems(1)
    by (simp add: d l read_typed_def read_bulk_def len make_slice_def ReadFull_def del: resp.simps)
next
  case (RInt n)
  then obtain d' where "d = Suc d'" by (cases d) auto
  then show ?case
    using RInt.prems(1) readLine_line [of "CHR '':'' # Itoa n" e rest]
    by (simp add: read_typed_def parseInt_Itoa Itoa_no_lf)
next
  case RNil
  then obtain d' where "d = Suc d'" by (cases d) auto
  then show ?case
    using readLine_line [of "''$-1''" e rest] by (simp add: read_typed_def read_bulk_def parseLen_def)
next
  case (RStatus s)
  then obtain d' where "d = Suc d'" by (cases d) auto
  then show ?case
    using RStatus.prems(1) readLine_line [of "CHR ''+'' # s" e rest] by (simp add: read_typed_def)
next
  case (RError s)
  then obtain d' where "d = Suc d'" by (cases d) auto
  then show ?case
    using RError.prems(1) readLine_line [of "CHR ''-'' # s" e rest] by (simp add: read_typed_def)
qed



text \<open>Reading from \<open>s\<close> ends with a rest of \<open>s\<close>; only a length that cannot be allocated panics.\<close>

abbreviation progress :: "string \<Rightarrow> 'a read \<Rightarrow> bool" where
  "progress s \<equiv> satO (\<lambda>p. p = MakePanic) (\<lambda>(out, s'). length s' \<le> length s)"

lemma readLine_progress:
  "satO (\<lambda>_. False) (\<lambda>((line, err), s'). length s' \<le> length s \<and> (err = None \<longrightarrow> length s' < length s)) (Some (readLine e s))"
  using length_line_of [of s] by (auto simp: readLine_spec Let_def)

lemma read_bulk_progress: "progress s (Some (read_bulk e l s))"
proof -
  have *: "satO (\<lambda>p. p = MakePanic) (\<lambda>((line, err), s'). length s' \<le> length s) (Some (readLine e (drop n s)))" for n
    using readLine_progress [of "drop n s" e] by (auto simp: satO_def split: sum.splits)
  show ?thesis
    by (cases "parseLen l") (auto simp: read_bulk_def ReadFull_def intro!: satO_mono [OF *])
qed

lemma read_elems_progress:
  assumes rd: "\<And>s. length s \<le> m \<Longrightarrow> progress s (rd s)"
  shows "length s \<le> m \<Longrightarrow> progress s (read_elems rd n s)"
proof (induction n arbitrary: s)
  case (Suc n)
  have "progress s (bindO (read_elems rd n s') (\<lambda>((rs, err), s). Some (Inr ((if err = None then r # rs else [], err), s))))"
    if "length s' \<le> length s" for r s'
    unfolding satO_bind by (rule satO_mono [OF Suc.IH]) (use that Suc.prems in auto)
  then show ?case
    unfolding read_elems.simps satO_bind [of _ _ "rd s"]
    by (intro satO_mono [OF rd [OF Suc.prems]]) (auto simp del: satO_bind)
qed simp

lemma read_typed_progress:
  assumes "\<And>s'. length s' \<le> length s \<Longrightarrow> progress s' (rd s')"
  shows "progress s (read_typed rd e line s)"
proof -
  have "progress s (read_array rd l s)" for l
    using read_elems_progress [where rd = rd and m = "length s", OF assms order_refl]
    by (auto simp: read_array_def split: prod.split intro: satO_mono)
  then show ?thesis by (auto simp: read_typed_def read_bulk_progress split: list.split)
qed

lemma read_depth_progress: "length s < d \<Longrightarrow> progress s (read_depth d e s)"
proof (induction d arbitrary: s)
  case (Suc d)
  have "progress s (read_typed (read_depth d e) e line s')" if "length s' < length s" for line s'
    using that Suc by (intro satO_mono [OF read_typed_progress]) auto
  then show ?case
    unfolding read_depth.simps satO_bind
    by (rule_tac satO_mono [OF satO_mono [OF _ ]])
       (use readLine_progress [of s e] in \<open>auto simp: satO_def split: sum.splits\<close>)
qed simp


lemma readReply_resp:
  "wf_reply r \<Longrightarrow> br c = resp r @ rest \<Longrightarrow> readReply c = Some (Inr ((r, None), c\<lparr>br := rest\<rparr>))"
  by (simp add: readReply_def read_depth_roundtrip del: read_depth.simps)

subsection \<open>Pipelines\<close>

lemma do_last_resp:
  "list_all wf_reply rs \<Longrightarrow> br c = concat (map resp rs) @ rest \<Longrightarrow>
    do_last (length rs) r err c = Some (Inr ((last (r # rs), foldl first_error err rs), c\<lparr>br := rest\<rparr>))"
proof (induction rs arbitrary: r err c)
  case (Cons a rs)
  have "readReply c = Some (Inr ((a, None), c\<lparr>br := concat (map resp rs) @ rest\<rparr>))"
    using Cons.prems by (intro readReply_resp) auto
  then show ?case using Cons by simp
qed simp

lemma conn_flush_ok:
  assumes "ready c"
  shows "\<exists>w. conn_flush c = (None, c\<lparr>wr := w\<rparr>) \<and> bw_sent w = bw_stream (wr c) \<and> bw_buf w = [] \<and>
    bw_err w = None \<and> bw_net w = None"
  using assms
  by (intro exI [of _ "(wr c)\<lparr>bw_sent := bw_stream (wr c), bw_buf := []\<rparr>"])
     (auto simp: conn_flush_def bw_flush_def ready_def bw_stream_def)

lemma Do_resp:
  assumes "ready c" "fits_command cmd args" "cmd \<noteq> []"
    and "length rs = Suc (pending c)" "list_all wf_reply rs" "br c = concat (map resp rs) @ rest"
  shows "\<exists>c'. Do_conn cmd args c = Some (Inr ((last rs, foldl first_error None rs), c')) \<and> ready c' \<and>
    bw_sent (wr c') = bw_stream (wr c) @ resp (command cmd args) \<and> bw_buf (wr c') = [] \<and>
    pending c' = 0 \<and> br c' = rest \<and> cerr c' = cerr c"
proof -
  have "ready (c\<lparr>pending := 0\<rparr>)" using assms(1) by (simp add: ready_def)
  from writeCommand_ok [OF this assms(2)] obtain c1 where
    1: "writeCommand cmd args (c\<lparr>pending := 0\<rparr>) = Inr (None, c1)"
      "wrote (resp (command cmd args)) (c\<lparr>pending := 0\<rparr>) c1"
    by blast
  obtain w where 2: "conn_flush c1 = (None, c1\<lparr>wr := w\<rparr>)" "bw_sent w = bw_stream (wr c1)" "bw_buf w = []"
      "bw_err w = None" "bw_net w = None"
    using conn_flush_ok [OF wrote_ready [OF 1(2)]] by blast
  have "do_last (length rs) RNil None (c1\<lparr>wr := w\<rparr>) =
      Some (Inr ((last (RNil # rs), foldl first_error None rs), c1\<lparr>wr := w, br := rest\<rparr>))"
    using 1(2) assms(5,6) by (subst do_last_resp [where rest = rest]) (auto simp: wrote_def)
  moreover have "last (RNil # rs) = last rs" using assms(4) by (cases rs) auto
  ultimately have "Do_conn cmd args c = Some (Inr ((last rs, foldl first_error None rs), c1\<lparr>wr := w, br := rest\<rparr>))"
    using assms(3,4) by (simp add: Do_conn_def Let_def 1 2 del: do_last.simps)
  then show ?thesis using 1(2) 2 by (auto simp: wrote_def ready_def)
qed

text \<open>A client that sends several commands before it waits.\<close>

fun Sends :: "(string \<times> arg list) list \<Rightarrow> rconn \<Rightarrow> redis_error option conn_step" where
  "Sends [] c = Inr (None, c)"
| "Sends ((cmd, args) # cs) c =
     bindR (Send cmd args c) (\<lambda>(err, c). if err \<noteq> None then Inr (err, c) else Sends cs c)"

lemma Sends_ok:
  "ready c \<Longrightarrow> \<forall>(cmd, args) \<in> set cs. fits_command cmd args \<Longrightarrow>
    \<exists>c'. Sends cs c = Inr (None, c') \<and>
      wrote (concat (map (\<lambda>(cmd, args). resp (command cmd args)) cs)) (c\<lparr>pending := pending c + length cs\<rparr>) c'"
proof (induction cs arbitrary: c)
  case Nil
  then show ?case by (simp add: wrote_def)
next
  case (Cons x cs)
  obtain cmd args where x: "x = (cmd, args)" by (cases x)
  have "ready (c\<lparr>pending := pending c + 1\<rparr>)" using Cons.prems by (simp add: ready_def)
  from writeCommand_ok [OF this, of cmd args] Cons.prems x obtain c1 where
    1: "writeCommand cmd args (c\<lparr>pending := pending c + 1\<rparr>) = Inr (None, c1)"
      "wrote (resp (command cmd args)) (c\<lparr>pending := pending c + 1\<rparr>) c1"
    by auto
  obtain c2 where 2: "Sends cs c1 = Inr (None, c2)"
      "wrote (concat (map (\<lambda>(cmd, args). resp (command cmd args)) cs)) (c1\<lparr>pending := pending c1 + length cs\<rparr>) c2"
    using Cons.IH [OF wrote_ready [OF 1(2)]] Cons.prems by auto
  have "Sends (x # cs) c = Inr (None, c2)" by (simp add: x Send_def 1 [simplified] 2)
  then show ?case using 1(2) 2(2) by (auto simp: x wrote_def)
qed

text \<open>C4. A pipeline keeps the order: after any number of \<open>Send\<close>s, \<open>Do\<close> puts all the commands on the wire one
  after the other in the encoding of the protocol, whatever was in the write buffer before, reads exactly
  one reply per command from the stream of replies that the server sends, and returns the reply to its own
  command together with the first error among all the replies.\<close>

theorem pipeline:
  assumes "ready c" "pending c = 0" "cmd \<noteq> []" "list_all (\<lambda>(cmd, args). fits_command cmd args) (cs @ [(cmd, args)])"
    and "length rs = length cs" "list_all wf_reply (rs @ [r])" "br c = concat (map resp (rs @ [r])) @ rest"
  shows "\<exists>c1 c2. Sends cs c = Inr (None, c1) \<and>
    Do_conn cmd args c1 = Some (Inr ((r, foldl first_error None (rs @ [r])), c2)) \<and>
    bw_sent (wr c2) = bw_stream (wr c) @ concat (map (\<lambda>(cmd, args). resp (command cmd args)) (cs @ [(cmd, args)])) \<and>
    bw_buf (wr c2) = [] \<and> pending c2 = 0 \<and> br c2 = rest \<and> ready c2"
proof -
  obtain c1 where 1: "Sends cs c = Inr (None, c1)"
      "wrote (concat (map (\<lambda>(cmd, args). resp (command cmd args)) cs)) (c\<lparr>pending := pending c + length cs\<rparr>) c1"
    using Sends_ok [OF assms(1), of cs] assms(4) by (auto simp: list_all_iff)
  have "fits_command cmd args" using assms(4) by simp
  from Do_resp [OF wrote_ready [OF 1(2)] this assms(3), of "rs @ [r]" rest] 1(2) assms
  obtain c2 where "Do_conn cmd args c1 = Some (Inr ((last (rs @ [r]), foldl first_error None (rs @ [r])), c2))"
      "ready c2" "bw_sent (wr c2) = bw_stream (wr c1) @ resp (command cmd args)" "bw_buf (wr c2) = []"
      "pending c2 = 0" "br c2 = rest"
    by (auto simp: wrote_def)
  with 1 show ?thesis by (auto simp: wrote_def)
qed

definition new_conn :: "string \<Rightarrow> rconn" where
  "new_conn s =
     \<lparr>pending = 0, cerr = None, cclosed = False, lenScratch = replicate 32 CHR 0x00,
      wr = \<lparr>bw_buf = [], bw_sent = [], bw_err = None, bw_net = None\<rparr>, br = s, br_end = ErrEOF\<rparr>"

theorem pipeline_witness:
  "\<exists>c1 c2. Sends [(''SET'', [AString ''k'', AInt 7])] (new_conn (concat (map resp ([RError ''ERR x''] @ [RBulk ''7''])) @ [])) = Inr (None, c1) \<and>
    Do_conn ''GET'' [AString ''k''] c1 = Some (Inr ((RBulk ''7'', foldl first_error None ([RError ''ERR x''] @ [RBulk ''7''])), c2)) \<and>
    bw_sent (wr c2) = bw_stream (wr (new_conn (concat (map resp ([RError ''ERR x''] @ [RBulk ''7''])) @ []))) @
      concat (map (\<lambda>(cmd, args). resp (command cmd args)) ([(''SET'', [AString ''k'', AInt 7])] @ [(''GET'', [AString ''k''])])) \<and>
    bw_buf (wr c2) = [] \<and> pending c2 = 0 \<and> br c2 = [] \<and> ready c2"
  by (rule pipeline)
     (simp_all add: new_conn_def ready_def fits_command_def fits_def Itoa_def digits_of.simps)

end
