(* ===== verification/Idle_List.thy ===== *)
theory Idle_List
  imports Go_Prelude
begin

section \<open>The list of idle connections (redis/pool.go, idleList)\<close>

text \<open>
  The pool keeps its idle connections in a doubly linked list of \<open>poolConn\<close> objects. The model has the
  pointers: a heap maps the address of an object to its fields, \<open>nil\<close> is \<open>None\<close>, and following a nil
  pointer panics. The contract that the pool relies on is the locale \<open>deque\<close>: the three operations act on a
  represented list of addresses as at the two ends of a list, and leave the other objects and
  the fields \<open>c\<close>, \<open>t\<close> and \<open>created\<close> of every object alone.
\<close>

record poolConn =
  pc_c :: nat
  pc_t :: int
  pc_created :: int
  pc_next :: "nat option"
  pc_prev :: "nat option"

type_synonym heap = "nat \<rightharpoonup> poolConn"

record idleList =
  il_count :: int
  il_front :: "nat option"
  il_back :: "nat option"

definition deref :: "heap \<Rightarrow> nat option \<Rightarrow> (nat \<times> poolConn) result" where
  "deref h p =
     (case p of None \<Rightarrow> Inl NilPanic
      | Some a \<Rightarrow> (case h a of None \<Rightarrow> Inl NilPanic | Some n \<Rightarrow> Inr (a, n)))"

definition set_next :: "nat option \<Rightarrow> nat option \<Rightarrow> heap \<Rightarrow> heap result" where
  "set_next p q h = bindR (deref h p) (\<lambda>(a, n). Inr (h(a \<mapsto> n\<lparr>pc_next := q\<rparr>)))"

definition set_prev :: "nat option \<Rightarrow> nat option \<Rightarrow> heap \<Rightarrow> heap result" where
  "set_prev p q h = bindR (deref h p) (\<lambda>(a, n). Inr (h(a \<mapsto> n\<lparr>pc_prev := q\<rparr>)))"

definition pushFront :: "nat \<Rightarrow> heap \<times> idleList \<Rightarrow> (heap \<times> idleList) result" where
  "pushFront pc = (\<lambda>(h, l).
     bindR (set_next (Some pc) (il_front l) h) (\<lambda>h.
     bindR (set_prev (Some pc) None h) (\<lambda>h.
     bindR (if il_count l = 0 then Inr (h, l\<lparr>il_back := Some pc\<rparr>)
            else bindR (set_prev (il_front l) (Some pc) h) (\<lambda>h. Inr (h, l))) (\<lambda>(h, l).
       Inr (h, l\<lparr>il_front := Some pc, il_count := il_count l + 1\<rparr>)))))"

definition popFront :: "heap \<times> idleList \<Rightarrow> (heap \<times> idleList) result" where
  "popFront = (\<lambda>(h, l).
     let pc = il_front l; l = l\<lparr>il_count := il_count l - 1\<rparr> in
     bindR (if il_count l = 0 then Inr (h, l\<lparr>il_front := None, il_back := None\<rparr>)
            else bindR (deref h pc) (\<lambda>(_, n).
              bindR (set_prev (pc_next n) None h) (\<lambda>h.
              bindR (deref h pc) (\<lambda>(_, n). Inr (h, l\<lparr>il_front := pc_next n\<rparr>))))) (\<lambda>(h, l).
     bindR (set_next pc None h) (\<lambda>h. bindR (set_prev pc None h) (\<lambda>h. Inr (h, l)))))"

definition popBack :: "heap \<times> idleList \<Rightarrow> (heap \<times> idleList) result" where
  "popBack = (\<lambda>(h, l).
     let pc = il_back l; l = l\<lparr>il_count := il_count l - 1\<rparr> in
     bindR (if il_count l = 0 then Inr (h, l\<lparr>il_front := None, il_back := None\<rparr>)
            else bindR (deref h pc) (\<lambda>(_, n).
              bindR (set_next (pc_prev n) None h) (\<lambda>h.
              bindR (deref h pc) (\<lambda>(_, n). Inr (h, l\<lparr>il_back := pc_prev n\<rparr>))))) (\<lambda>(h, l).
     bindR (set_next pc None h) (\<lambda>h. bindR (set_prev pc None h) (\<lambda>h. Inr (h, l)))))"

subsection \<open>The contract\<close>

text \<open>The fields of an object that do not belong to the list.\<close>

definition payload :: "heap \<Rightarrow> nat \<Rightarrow> (nat \<times> int \<times> int) option" where
  "payload h a = map_option (\<lambda>n. (pc_c n, pc_t n, pc_created n)) (h a)"

locale deque =
  fixes rep :: "heap \<times> idleList \<Rightarrow> nat list \<Rightarrow> bool"
    and push :: "nat \<Rightarrow> heap \<times> idleList \<Rightarrow> (heap \<times> idleList) result"
    and pop_front :: "heap \<times> idleList \<Rightarrow> (heap \<times> idleList) result"
    and pop_back :: "heap \<times> idleList \<Rightarrow> (heap \<times> idleList) result"
  assumes rep_distinct: "rep s xs \<Longrightarrow> distinct xs"
    and rep_count: "rep s xs \<Longrightarrow> il_count (snd s) = int (length xs)"
    and rep_front: "rep s xs \<Longrightarrow> il_front (snd s) = (if xs = [] then None else Some (hd xs))"
    and rep_back: "rep s xs \<Longrightarrow> il_back (snd s) = (if xs = [] then None else Some (last xs))"
    and rep_alloc: "rep s xs \<Longrightarrow> a \<in> set xs \<Longrightarrow> payload (fst s) a \<noteq> None"
    and push_rep: "rep s xs \<Longrightarrow> a \<notin> set xs \<Longrightarrow> payload (fst s) a \<noteq> None \<Longrightarrow>
      sat False (\<lambda>s'. rep s' (a # xs) \<and> payload (fst s') = payload (fst s)) (push a s)"
    and pop_front_rep: "rep s (a # xs) \<Longrightarrow>
      sat False (\<lambda>s'. rep s' xs \<and> payload (fst s') = payload (fst s)) (pop_front s)"
    and pop_back_rep: "rep s (xs @ [a]) \<Longrightarrow>
      sat False (\<lambda>s'. rep s' xs \<and> payload (fst s') = payload (fst s)) (pop_back s)"
begin

text \<open>Last in, first out at the front; first in, first out through the back.\<close>

lemma push_pop_front:
  assumes "rep s xs" "a \<notin> set xs" "payload (fst s) a \<noteq> None"
  shows "sat False (\<lambda>s'. rep s' xs) (bindR (push a s) pop_front)"
  unfolding sat_bind
  by (rule sat_mono [OF push_rep [OF assms]]) (auto intro: sat_mono [OF pop_front_rep])

lemma push_pop_back:
  assumes "rep s (xs @ [b])" "a \<notin> set (xs @ [b])" "payload (fst s) a \<noteq> None"
  shows "sat False (\<lambda>s'. rep s' (a # xs)) (bindR (push a s) pop_back)"
proof -
  have "sat False (\<lambda>s'. rep s' (a # xs)) (pop_back s')" if "rep s' ((a # xs) @ [b])" for s'
    by (rule sat_mono [OF pop_back_rep [OF that]]) simp
  then show ?thesis
    unfolding sat_bind by (intro sat_mono [OF push_rep [OF assms]]) auto
qed

end

subsection \<open>The linked list satisfies it\<close>

text \<open>\<open>chain h p xs n\<close>: the objects \<open>xs\<close> are linked in both directions, from \<open>p\<close> before to \<open>n\<close> after them.\<close>

definition head_or :: "nat list \<Rightarrow> nat option \<Rightarrow> nat option" where
  "head_or xs n = (case xs of [] \<Rightarrow> n | a # _ \<Rightarrow> Some a)"

definition last_or :: "nat list \<Rightarrow> nat option \<Rightarrow> nat option" where
  "last_or xs p = (if xs = [] then p else Some (last xs))"

lemma head_or_simps [simp]:
  "head_or [] n = n" "head_or (a # xs) n = Some a" "head_or (xs @ ys) n = head_or xs (head_or ys n)"
  by (simp_all add: head_or_def split: list.splits)

lemma last_or_simps [simp]:
  "last_or [] p = p" "last_or (a # xs) p = last_or xs (Some a)" "last_or (xs @ ys) p = last_or ys (last_or xs p)"
  by (simp_all add: last_or_def)

fun chain :: "heap \<Rightarrow> nat option \<Rightarrow> nat list \<Rightarrow> nat option \<Rightarrow> bool" where
  "chain h p [] n = True"
| "chain h p (a # xs) n =
     (\<exists>v. h a = Some v \<and> pc_prev v = p \<and> pc_next v = head_or xs n \<and> chain h (Some a) xs n)"

lemma chain_append: "chain h p (xs @ ys) n \<longleftrightarrow> chain h p xs (head_or ys n) \<and> chain h (last_or xs p) ys n"
  by (induction xs arbitrary: p) auto

lemma chain_other [simp]: "a \<notin> set xs \<Longrightarrow> chain (h(a \<mapsto> v)) p xs n = chain h p xs n"
  by (induction xs arbitrary: p) auto

lemma chain_alloc: "chain h p xs n \<Longrightarrow> a \<in> set xs \<Longrightarrow> h a \<noteq> None"
  by (induction xs arbitrary: p) auto

definition dll :: "heap \<times> idleList \<Rightarrow> nat list \<Rightarrow> bool" where
  "dll s xs \<longleftrightarrow> distinct xs \<and> chain (fst s) None xs None \<and> il_count (snd s) = int (length xs) \<and>
     il_front (snd s) = head_or xs None \<and> il_back (snd s) = last_or xs None"

lemmas link_defs = set_next_def set_prev_def deref_def

lemma payload_update [simp]:
  "h a = Some n \<Longrightarrow> pc_c v = pc_c n \<Longrightarrow> pc_t v = pc_t n \<Longrightarrow> pc_created v = pc_created n \<Longrightarrow>
    payload (h(a \<mapsto> v)) = payload h"
  by (auto simp: payload_def)

lemma pushFront_dll:
  assumes "dll s xs" "a \<notin> set xs" "payload (fst s) a \<noteq> None"
  shows "sat False (\<lambda>s'. dll s' (a # xs) \<and> payload (fst s') = payload (fst s)) (pushFront a s)"
proof -
  obtain h l where s: "s = (h, l)" by (cases s)
  obtain n where n: "h a = Some n" using assms(3) by (auto simp: s payload_def)
  show ?thesis
    using assms n by (cases xs) (auto simp: s dll_def pushFront_def link_defs)
qed

lemma popFront_dll:
  assumes "dll s (a # xs)"
  shows "sat False (\<lambda>s'. dll s' xs \<and> payload (fst s') = payload (fst s)) (popFront s)"
proof -
  obtain h l where s: "s = (h, l)" by (cases s)
  show ?thesis
    using assms by (cases xs) (auto simp: s dll_def popFront_def link_defs Let_def)
qed

lemma popBack_dll:
  assumes "dll s (xs @ [a])"
  shows "sat False (\<lambda>s'. dll s' xs \<and> payload (fst s') = payload (fst s)) (popBack s)"
proof -
  obtain h l where s: "s = (h, l)" by (cases s)
  show ?thesis
    using assms
    by (cases xs rule: rev_cases) (auto simp: s dll_def popBack_def chain_append link_defs Let_def)
qed

lemma dll_ends:
  "dll s xs \<Longrightarrow> il_front (snd s) = (if xs = [] then None else Some (hd xs))"
  "dll s xs \<Longrightarrow> il_back (snd s) = (if xs = [] then None else Some (last xs))"
  by (auto simp: dll_def head_or_def last_or_def split: list.splits)

lemma dll_alloc: "dll s xs \<Longrightarrow> a \<in> set xs \<Longrightarrow> payload (fst s) a \<noteq> None"
  by (auto simp: dll_def payload_def dest: chain_alloc)

interpretation il: deque dll pushFront popFront popBack
  by unfold_locales
     (simp_all only: dll_ends dll_alloc pushFront_dll popFront_dll popBack_dll not_False_eq_True,
      simp_all add: dll_def)

end
