(* ===== verification/Redis_Pool.thy ===== *)
theory Redis_Pool
  imports Idle_List Redis_Reply
begin

section \<open>The connection pool (redis/pool.go)\<close>

text \<open>
  \<open>get\<close> and \<open>put\<close> give up the mutex of the pool while they close, test or dial a connection, so that
  other goroutines run in between. Each definition \<open>sec_\<dots>\<close> below is one critical section, from a \<open>Lock\<close>
  to the next \<open>Unlock\<close>, together with the call that precedes the \<open>Lock\<close>; it returns where the goroutine
  is afterwards. A goroutine that would wait for ever on the channel while it holds the mutex is the value
  \<open>Blocked\<close>. \<open>p_open\<close> is the set of the \<open>poolConn\<close> objects whose connection is open.
\<close>

record pool =
  MaxIdle :: int
  MaxActive :: int
  IdleTimeout :: int
  Wait :: bool
  MaxConnLifetime :: int
  p_closed :: bool
  p_active :: int
  p_ch :: "int option"
  p_heap :: heap
  p_idle :: idleList
  p_waitCount :: int
  p_waitDuration :: int
  p_open :: "nat set"

datatype thr = Out | Entered | PruneClose int int nat | Testing nat | Dialing | Has nat | PutClosing nat

type_synonym crit = "(pool \<times> thr) result"

definition idle_of :: "pool \<Rightarrow> heap \<times> idleList" where
  "idle_of p = (p_heap p, p_idle p)"

definition with_idle :: "pool \<Rightarrow> heap \<times> idleList \<Rightarrow> pool" where
  "with_idle p s = p\<lparr>p_heap := fst s, p_idle := snd s\<rparr>"

text \<open>\<open>pc.c.Close()\<close> followed by \<open>p.active--\<close> under the lock.\<close>

definition drop_conn :: "nat \<Rightarrow> pool \<Rightarrow> pool" where
  "drop_conn a p = p\<lparr>p_open := p_open p - {a}, p_active := p_active p - 1\<rparr>"

text \<open>\<open>if p.ch != nil && !p.closed { p.ch <- struct{}{} }\<close>, on a channel of capacity \<open>MaxActive\<close>.\<close>

definition send_token :: "pool \<Rightarrow> pool result" where
  "send_token p =
     (case p_ch p of
        None \<Rightarrow> Inr p
      | Some k \<Rightarrow> if p_closed p then Inr p
                  else if k < MaxActive p then Inr (p\<lparr>p_ch := Some (k + 1)\<rparr>) else Inl Blocked)"

subsection \<open>get\<close>

definition lazyInit :: "pool \<Rightarrow> pool" where
  "lazyInit p =
     (case p_ch p of Some _ \<Rightarrow> p | None \<Rightarrow> p\<lparr>p_ch := Some (if p_closed p then 0 else MaxActive p)\<rparr>)"

text \<open>
  Taking a token: \<open>None\<close> is a goroutine that has to wait. Reading from a closed channel never waits.
\<close>

definition take_token :: "pool \<Rightarrow> pool option" where
  "take_token p =
     (if Wait p \<and> 0 < MaxActive p then
        let p = lazyInit p in
        if p_closed p then Some p
        else (case p_ch p of Some k \<Rightarrow> if 0 < k then Some (p\<lparr>p_ch := Some (k - 1)\<rparr>) else None | None \<Rightarrow> None)
      else Some p)"

definition borrow_head :: "pool \<Rightarrow> crit" where
  "borrow_head p =
     (case il_front (p_idle p) of
        Some a \<Rightarrow> bindR (popFront (idle_of p)) (\<lambda>s. Inr (with_idle p s, Testing a))
      | None \<Rightarrow>
          if p_closed p then Inr (p, Out)
          else if \<not> Wait p \<and> 0 < MaxActive p \<and> MaxActive p \<le> p_active p then Inr (p, Out)
          else Inr (p\<lparr>p_active := p_active p + 1\<rparr>, Dialing))"

definition prune_head :: "int \<Rightarrow> int \<Rightarrow> int \<Rightarrow> pool \<Rightarrow> crit" where
  "prune_head now i n p =
     (case il_back (p_idle p) of
        Some a \<Rightarrow>
          if 0 < IdleTimeout p \<and> i < n then
            bindR (deref (p_heap p) (Some a)) (\<lambda>(_, v).
              if pc_t v + IdleTimeout p < now
              then bindR (popBack (idle_of p)) (\<lambda>s. Inr (with_idle p s, PruneClose i n a))
              else borrow_head p)
          else borrow_head p
      | None \<Rightarrow> borrow_head p)"

definition sec_enter :: "int \<Rightarrow> int \<Rightarrow> pool \<Rightarrow> crit" where
  "sec_enter now waited p =
     (let p = (if 0 < waited
               then p\<lparr>p_waitCount := p_waitCount p + 1, p_waitDuration := p_waitDuration p + waited\<rparr> else p)
      in prune_head now 0 (il_count (p_idle p)) p)"

definition sec_pruned :: "int \<Rightarrow> int \<Rightarrow> int \<Rightarrow> nat \<Rightarrow> pool \<Rightarrow> crit" where
  "sec_pruned now i n a p = prune_head now (i + 1) n (drop_conn a p)"

text \<open>\<open>ok\<close> is the result of \<open>TestOnBorrow\<close>, true without one.\<close>

definition sec_tested :: "bool \<Rightarrow> int \<Rightarrow> nat \<Rightarrow> pool \<Rightarrow> crit" where
  "sec_tested ok now a p =
     bindR (deref (p_heap p) (Some a)) (\<lambda>(_, v).
       if ok \<and> (MaxConnLifetime p = 0 \<or> now - pc_created v < MaxConnLifetime p)
       then Inr (p, Has a) else borrow_head (drop_conn a p))"

text \<open>The result of \<open>dial\<close>: a connection, stored in a new object at the address \<open>a\<close>, or an error.\<close>

definition sec_dialed :: "nat option \<Rightarrow> nat \<Rightarrow> int \<Rightarrow> pool \<Rightarrow> crit" where
  "sec_dialed conn a now p =
     (case conn of
        Some c \<Rightarrow>
          Inr (p\<lparr>p_heap := (p_heap p)(a \<mapsto> \<lparr>pc_c = c, pc_t = 0, pc_created = now, pc_next = None, pc_prev = None\<rparr>),
                 p_open := insert a (p_open p)\<rparr>, Has a)
      | None \<Rightarrow>
          bindR (send_token (p\<lparr>p_active := p_active p - 1\<rparr>)) (\<lambda>p. Inr (p, Out)))"

subsection \<open>put and Close\<close>

text \<open>The part of \<open>put\<close> after \<open>pushFront\<close>: an excess connection is taken from the back.\<close>

definition put_rest :: "pool \<Rightarrow> crit" where
  "put_rest p =
     (if MaxIdle p < il_count (p_idle p) then
        (case il_back (p_idle p) of
           Some b \<Rightarrow> bindR (popBack (idle_of p)) (\<lambda>s. Inr (with_idle p s, PutClosing b))
         | None \<Rightarrow> Inl NilPanic)
      else bindR (send_token p) (\<lambda>p. Inr (p, Out)))"

definition sec_put :: "bool \<Rightarrow> int \<Rightarrow> nat \<Rightarrow> pool \<Rightarrow> crit" where
  "sec_put forceClose now a p =
     (if \<not> p_closed p \<and> \<not> forceClose then
        bindR (deref (p_heap p) (Some a)) (\<lambda>(_, v).
        bindR (pushFront a ((p_heap p)(a \<mapsto> v\<lparr>pc_t := now\<rparr>), p_idle p)) (\<lambda>s. put_rest (with_idle p s)))
      else Inr (p, PutClosing a))"

definition sec_put_closed :: "nat \<Rightarrow> pool \<Rightarrow> crit" where
  "sec_put_closed a p = bindR (send_token (drop_conn a p)) (\<lambda>p. Inr (p, Out))"

text \<open>The objects of the list from its front on, as the loop of \<open>Close\<close> follows them: \<open>n\<close> bounds the steps.\<close>

fun follow :: "heap \<Rightarrow> nat \<Rightarrow> nat option \<Rightarrow> nat list" where
  "follow h (Suc n) (Some a) = a # (case h a of None \<Rightarrow> [] | Some v \<Rightarrow> follow h n (pc_next v))"
| "follow h _ _ = []"

definition sec_close :: "pool \<Rightarrow> pool" where
  "sec_close p =
     (if p_closed p then p
      else p\<lparr>p_closed := True, p_active := p_active p - il_count (p_idle p),
             p_idle := \<lparr>il_count = 0, il_front = None, il_back = None\<rparr>,
             p_open := p_open p - set (follow (p_heap p) (nat (il_count (p_idle p))) (il_front (p_idle p)))\<rparr>)"

definition ActiveCount :: "pool \<Rightarrow> int" where
  "ActiveCount p = p_active p"

definition IdleCount :: "pool \<Rightarrow> int" where
  "IdleCount p = il_count (p_idle p)"

subsection \<open>Goroutines\<close>

text \<open>
  Any number of goroutines use the pool: one step is one critical section of one of them, or a \<open>Close\<close>. What
  the environment decides (the clock, \<open>TestOnBorrow\<close>, \<open>Dial\<close>, \<open>forceClose\<close>, where the
  allocator puts a new object) is arbitrary. \<open>Inl\<close> is a panic or a blocked section.
\<close>

inductive sec_of :: "pool \<Rightarrow> thr \<Rightarrow> crit \<Rightarrow> bool" where
  enter: "take_token p = Some p' \<Longrightarrow> sec_of p Out (Inr (p', Entered))"
| first: "sec_of p Entered (sec_enter now waited p)"
| prune: "sec_of p (PruneClose i n a) (sec_pruned now i n a p)"
| tested: "sec_of p (Testing a) (sec_tested ok now a p)"
| dialed: "p_heap p a = None \<Longrightarrow> sec_of p Dialing (sec_dialed conn a now p)"
| put_back: "sec_of p (Has a) (sec_put force now a p)"
| put_end: "sec_of p (PutClosing a) (sec_put_closed a p)"

inductive pool_step :: "pool \<times> thr list \<Rightarrow> (pool \<times> thr list) result \<Rightarrow> bool" where
  run: "i < length ts \<Longrightarrow> sec_of p (ts ! i) m \<Longrightarrow> pool_step (p, ts) (bindR m (\<lambda>(p', t). Inr (p', ts[i := t])))"
| close: "pool_step (p, ts) (Inr (sec_close p, ts))"

inductive_cases sec_ofE: "sec_of p t m"

text \<open>A new pool with \<open>n\<close> goroutines outside of it.\<close>

definition new_pool :: "int \<Rightarrow> int \<Rightarrow> int \<Rightarrow> bool \<Rightarrow> int \<Rightarrow> pool" where
  "new_pool maxIdle maxActive idleTimeout wait lifetime =
     \<lparr>MaxIdle = maxIdle, MaxActive = maxActive, IdleTimeout = idleTimeout, Wait = wait, MaxConnLifetime = lifetime,
      p_closed = False, p_active = 0, p_ch = None, p_heap = Map.empty,
      p_idle = \<lparr>il_count = 0, il_front = None, il_back = None\<rparr>, p_waitCount = 0, p_waitDuration = 0, p_open = {}\<rparr>"

inductive pool_reach :: "pool \<times> thr list \<Rightarrow> (pool \<times> thr list) result \<Rightarrow> bool" where
  start: "pool_reach s (Inr s)"
| step: "pool_reach s (Inr s') \<Longrightarrow> pool_step s' m \<Longrightarrow> pool_reach s m"

subsection \<open>The invariant\<close>

text \<open>
  What a goroutine holds: an object, a unit of \<open>active\<close>, a token of the channel.
\<close>

fun held :: "thr \<Rightarrow> nat set" where
  "held (PruneClose i n a) = {a}"
| "held (Testing a) = {a}"
| "held (Has a) = {a}"
| "held (PutClosing a) = {a}"
| "held _ = {}"

fun holds :: "thr \<Rightarrow> int" where
  "holds Out = 0"
| "holds Entered = 0"
| "holds _ = 1"

fun tok :: "thr \<Rightarrow> int" where
  "tok Out = 0"
| "tok _ = 1"

definition tokens :: "pool \<Rightarrow> int \<Rightarrow> bool" where
  "tokens p K \<longleftrightarrow>
     (if Wait p \<and> 0 < MaxActive p then
        (case p_ch p of None \<Rightarrow> K = 0 | Some k \<Rightarrow> p_closed p \<or> 0 \<le> k \<and> k + K = MaxActive p)
      else p_ch p = None)"

text \<open>
  The pool together with what all the goroutines hold: the objects \<open>H\<close>, \<open>M\<close> units of \<open>active\<close> and \<open>K\<close> tokens.
\<close>

definition pool_ok :: "pool \<Rightarrow> nat list \<Rightarrow> nat set \<Rightarrow> int \<Rightarrow> int \<Rightarrow> bool" where
  "pool_ok p xs H M K \<longleftrightarrow>
     dll (idle_of p) xs \<and> set xs \<inter> H = {} \<and> (\<forall>a \<in> H. payload (p_heap p) a \<noteq> None) \<and>
     p_active p = int (length xs) + M \<and> p_open p = set xs \<union> H \<and>
     (0 \<le> MaxIdle p \<longrightarrow> int (length xs) \<le> MaxIdle p) \<and> (p_closed p \<longrightarrow> xs = []) \<and>
     (0 < MaxActive p \<longrightarrow> p_active p \<le> MaxActive p) \<and> tokens p K"

abbreviation crit_ok :: "nat set \<Rightarrow> int \<Rightarrow> int \<Rightarrow> pool \<times> thr \<Rightarrow> bool" where
  "crit_ok A m k \<equiv> \<lambda>(p, t). A \<inter> held t = {} \<and> (\<exists>xs. pool_ok p xs (A \<union> held t) (m + holds t) (k + tok t))"

lemma idle_simps [simp]: "idle_of (with_idle p s) = s" "p_heap (with_idle p s) = fst s" "p_idle (with_idle p s) = snd s"
  "MaxIdle (with_idle p s) = MaxIdle p" "MaxActive (with_idle p s) = MaxActive p" "p_closed (with_idle p s) = p_closed p"
  "p_active (with_idle p s) = p_active p" "p_open (with_idle p s) = p_open p" "Wait (with_idle p s) = Wait p"
  "p_ch (with_idle p s) = p_ch p"
  by (simp_all add: idle_of_def with_idle_def)

lemma tokens_with_idle [simp]: "tokens (with_idle p s) K = tokens p K"
  by (cases "p_ch p") (simp_all add: tokens_def)

lemma send_token_ok:
  assumes "pool_ok p xs H M (K + 1)" "0 \<le> K"
  shows "sat False (\<lambda>p'. pool_ok p' xs H M K) (send_token p)"
  using assms
  by (auto simp: send_token_def pool_ok_def tokens_def idle_of_def split: option.splits if_splits)

lemma crit_send:
  assumes "pool_ok p xs A m (k + 1)" "0 \<le> k"
  shows "sat False (crit_ok A m k) (bindR (send_token p) (\<lambda>p. Inr (p, Out)))"
  unfolding sat_bind by (rule sat_mono [OF send_token_ok [OF assms]]) auto

lemma drop_conn_ok:
  "pool_ok p xs (insert a A) (M + 1) K \<Longrightarrow> a \<notin> A \<Longrightarrow> pool_ok (drop_conn a p) xs A M K"
  by (auto simp: pool_ok_def drop_conn_def idle_of_def tokens_def split: option.splits)

lemma pop_front_ok:
  assumes "pool_ok p (a # xs) H M K" "il_front (p_idle p) = Some a'"
  shows "a' = a \<and> sat False (\<lambda>s. pool_ok (with_idle p s) xs (insert a H) (M + 1) K) (popFront (idle_of p))"
proof
  show "a' = a" using assms il.rep_front [of "idle_of p" "a # xs"] by (simp add: pool_ok_def idle_of_def)
  have d: "dll (idle_of p) (a # xs)" using assms(1) by (simp add: pool_ok_def)
  note d' = il.rep_distinct [OF d]
  show "sat False (\<lambda>s. pool_ok (with_idle p s) xs (insert a H) (M + 1) K) (popFront (idle_of p))"
    using il.pop_front_rep [OF d] il.rep_alloc [OF d, of a] d' assms(1)
    by (auto simp: pool_ok_def idle_of_def elim!: sat_mono)
qed

lemma pop_back_ok:
  assumes "pool_ok p (xs @ [a]) H M K" "il_back (p_idle p) = Some a'"
  shows "a' = a \<and> sat False (\<lambda>s. pool_ok (with_idle p s) xs (insert a H) (M + 1) K) (popBack (idle_of p))"
proof
  show "a' = a" using assms il.rep_back [of "idle_of p" "xs @ [a]"] by (simp add: pool_ok_def idle_of_def)
  have d: "dll (idle_of p) (xs @ [a])" using assms(1) by (simp add: pool_ok_def)
  note d' = il.rep_distinct [OF d]
  show "sat False (\<lambda>s. pool_ok (with_idle p s) xs (insert a H) (M + 1) K) (popBack (idle_of p))"
    using il.pop_back_rep [OF d] il.rep_alloc [OF d, of a] d' assms(1)
    by (auto simp: pool_ok_def idle_of_def elim!: sat_mono)
qed

lemma borrow_head_ok:
  assumes ok: "pool_ok p xs A m (k + 1)" and mk: "0 \<le> m" "m \<le> k"
  shows "sat False (crit_ok A m k) (borrow_head p)"
proof (cases "il_front (p_idle p)")
  case None
  then have "xs = []" using ok il.rep_front [of "idle_of p" xs] by (auto simp: pool_ok_def idle_of_def split: if_splits)
  then show ?thesis
    using ok mk None
    by (auto simp: borrow_head_def pool_ok_def tokens_def idle_of_def split: option.splits if_splits)
next
  case (Some a)
  then obtain xs' where xs: "xs = a # xs'"
    using ok il.rep_front [of "idle_of p" xs] by (cases xs) (auto simp: pool_ok_def idle_of_def)
  have "a \<notin> A" using ok xs by (auto simp: pool_ok_def)
  then show ?thesis
    using pop_front_ok [OF ok [unfolded xs] Some] Some
    by (auto simp: borrow_head_def elim!: sat_mono)
qed

lemma prune_head_ok:
  assumes ok: "pool_ok p xs A m (k + 1)" and mk: "0 \<le> m" "m \<le> k"
  shows "sat False (crit_ok A m k) (prune_head now i n p)"
proof (cases "il_back (p_idle p)")
  case None
  then show ?thesis using borrow_head_ok [OF assms] by (simp add: prune_head_def)
next
  case (Some a)
  then obtain xs' where xs: "xs = xs' @ [a]"
    using ok il.rep_back [of "idle_of p" xs] by (cases xs rule: rev_cases) (auto simp: pool_ok_def idle_of_def)
  have a: "a \<notin> A" using ok xs by (auto simp: pool_ok_def)
  have "payload (p_heap p) a \<noteq> None"
    using ok xs il.rep_alloc [of "idle_of p" xs a] by (auto simp: pool_ok_def idle_of_def)
  then obtain v where v: "p_heap p a = Some v" by (auto simp: payload_def)
  have pop: "sat False (\<lambda>s. crit_ok A m k (with_idle p s, PruneClose i n a)) (popBack (idle_of p))"
    using pop_back_ok [OF ok [unfolded xs] Some] a by (auto elim!: sat_mono)
  show ?thesis
    using pop borrow_head_ok [OF assms] Some v by (auto simp: prune_head_def deref_def)
qed

lemma take_token_ok:
  assumes "pool_ok p xs A m k" "take_token p = Some p'" "0 \<le> k"
  shows "pool_ok p' xs A m (k + 1)"
  using assms
  by (auto simp: take_token_def lazyInit_def pool_ok_def tokens_def idle_of_def Let_def split: if_splits option.splits)

lemma sec_enter_ok:
  assumes "pool_ok p xs A m (k + 1)" "0 \<le> m" "m \<le> k"
  shows "sat False (crit_ok A m k) (sec_enter now waited p)"
proof -
  let ?p = "if 0 < waited then p\<lparr>p_waitCount := p_waitCount p + 1, p_waitDuration := p_waitDuration p + waited\<rparr> else p"
  have "pool_ok ?p xs A m (k + 1)"
    using assms(1) by (auto simp: pool_ok_def tokens_def idle_of_def split: option.splits)
  from prune_head_ok [OF this assms(2,3)] show ?thesis by (simp add: sec_enter_def Let_def)
qed

lemma sec_pruned_ok:
  assumes "pool_ok p xs (insert a A) (m + 1) (k + 1)" "a \<notin> A" "0 \<le> m" "m \<le> k"
  shows "sat False (crit_ok A m k) (sec_pruned now i n a p)"
  unfolding sec_pruned_def by (rule prune_head_ok [OF drop_conn_ok [OF assms(1,2)] assms(3,4)])

lemma sec_tested_ok:
  assumes "pool_ok p xs (insert a A) (m + 1) (k + 1)" "a \<notin> A" "0 \<le> m" "m \<le> k"
  shows "sat False (crit_ok A m k) (sec_tested ok now a p)"
proof -
  obtain v where v: "p_heap p a = Some v" using assms(1) by (auto simp: pool_ok_def payload_def)
  show ?thesis
    using assms v borrow_head_ok [OF drop_conn_ok [OF assms(1,2)] assms(3,4)]
    by (auto simp: sec_tested_def deref_def)
qed

lemma dll_new:
  "h a = None \<Longrightarrow> dll (h, l) xs \<Longrightarrow> dll (h(a \<mapsto> v), l) xs"
proof -
  assume h: "h a = None" and d: "dll (h, l) xs"
  then have "a \<notin> set xs" using chain_alloc [of h None xs None a] by (auto simp: dll_def)
  with d show ?thesis by (simp add: dll_def)
qed

lemma sec_dialed_ok:
  assumes "pool_ok p xs A (m + 1) (k + 1)" "p_heap p a = None" "0 \<le> m" "m \<le> k"
  shows "sat False (crit_ok A m k) (sec_dialed conn a now p)"
proof (cases conn)
  case None
  have "pool_ok (p\<lparr>p_active := p_active p - 1\<rparr>) xs A m (k + 1)"
    using assms(1) by (auto simp: pool_ok_def tokens_def idle_of_def split: option.splits)
  from crit_send [OF this] show ?thesis using None assms(3,4) by (simp add: sec_dialed_def)
next
  case (Some c)
  have "a \<notin> A" "a \<notin> set xs"
    using assms(1,2) il.rep_alloc [of "idle_of p" xs a] by (auto simp: pool_ok_def payload_def idle_of_def)
  with assms(1,2) have "pool_ok (p\<lparr>p_heap := (p_heap p)(a \<mapsto> v), p_open := insert a (p_open p)\<rparr>) xs (insert a A) (m + 1) (k + 1)" for v
    by (auto simp: pool_ok_def tokens_def idle_of_def payload_def dll_new split: option.splits)
  then show ?thesis using Some \<open>a \<notin> A\<close> by (auto simp: sec_dialed_def)
qed

lemma dll_time: "dll (h, l) xs \<Longrightarrow> h a = Some v \<Longrightarrow> a \<notin> set xs \<Longrightarrow> dll (h(a \<mapsto> v'), l) xs"
  by (simp add: dll_def)

text \<open>After \<open>pushFront\<close> the list may be one too long.\<close>

lemma put_rest_ok:
  assumes d: "dll (idle_of p) (a # xs)" and dis: "set (a # xs) \<inter> A = {}" and al: "\<forall>b \<in> A. payload (p_heap p) b \<noteq> None"
    and act: "p_active p = int (length xs) + m + 1" "p_open p = insert a (set xs \<union> A)"
    and idle: "0 \<le> MaxIdle p \<longrightarrow> int (length xs) \<le> MaxIdle p" "\<not> p_closed p"
    and max: "0 < MaxActive p \<longrightarrow> p_active p \<le> MaxActive p" and tk: "tokens p (k + 1)" and k: "0 \<le> k"
  shows "sat False (crit_ok A m k) (put_rest p)"
proof (cases "MaxIdle p < il_count (p_idle p)")
  case True
  obtain ys b where ys: "a # xs = ys @ [b]" by (cases "a # xs" rule: rev_cases) auto
  note d' = d [unfolded ys]
  have len: "length ys = length xs" using arg_cong [OF ys, of length] by simp
  have st: "insert a (set xs) = insert b (set ys)" using arg_cong [OF ys, of set] by simp
  have "pool_ok (with_idle p s) ys (insert b A) (m + 1) (k + 1) \<and> b \<notin> A"
    if s: "dll s ys" "payload (fst s) = payload (fst (idle_of p))" for s
  proof -
    have "b \<notin> set ys" using il.rep_distinct [OF d'] by simp
    moreover have "payload (p_heap p) b \<noteq> None" using il.rep_alloc [OF d', of b] by (simp add: idle_of_def)
    moreover have "b \<notin> A" "set ys \<inter> A = {}" using dis st by auto
    ultimately show ?thesis
      using s al act idle max tk len st by (auto simp: pool_ok_def idle_of_def)
  qed
  then have "sat False (\<lambda>s. crit_ok A m k (with_idle p s, PutClosing b)) (popBack (idle_of p))"
    by (intro sat_mono [OF il.pop_back_rep [OF d']]) auto
  moreover have "il_back (p_idle p) = Some b" using il.rep_back [OF d'] by (simp add: idle_of_def)
  ultimately show ?thesis using True by (simp add: put_rest_def)
next
  case False
  then have "pool_ok p (a # xs) A m (k + 1)"
    using d dis al act idle max tk il.rep_count [OF d] by (auto simp: pool_ok_def idle_of_def)
  from crit_send [OF this k] show ?thesis using False by (simp add: put_rest_def)
qed

lemma sec_put_ok:
  assumes ok: "pool_ok p xs (insert a A) (m + 1) (k + 1)" and a: "a \<notin> A" and mk: "0 \<le> m" "m \<le> k"
  shows "sat False (crit_ok A m k) (sec_put force now a p)"
proof (cases "p_closed p \<or> force")
  case True
  then show ?thesis using assms by (auto simp: sec_put_def)
next
  case False
  obtain v where v: "p_heap p a = Some v" using ok by (auto simp: pool_ok_def payload_def)
  have ax: "a \<notin> set xs" using ok by (auto simp: pool_ok_def)
  let ?h = "(p_heap p)(a \<mapsto> v\<lparr>pc_t := now\<rparr>)"
  have "dll (?h, p_idle p) xs"
    using ok v ax by (intro dll_time) (auto simp: pool_ok_def idle_of_def)
  then have push: "sat False (\<lambda>s. dll s (a # xs) \<and> payload (fst s) = payload ?h) (pushFront a (?h, p_idle p))"
    using il.push_rep [of "(?h, p_idle p)" xs a] ax by (simp add: payload_def)
  have "sat False (crit_ok A m k) (put_rest (with_idle p s))"
    if s: "dll s (a # xs)" "payload (fst s) = payload ?h" for s
    using ok s a ax False mk by (intro put_rest_ok [where xs = xs and a = a]) (auto simp: pool_ok_def payload_def)
  then have "sat False (\<lambda>s. sat False (crit_ok A m k) (put_rest (with_idle p s))) (pushFront a (?h, p_idle p))"
    by (intro sat_mono [OF push]) blast
  then show ?thesis using False v by (simp add: sec_put_def deref_def)
qed

lemma sec_put_closed_ok:
  assumes "pool_ok p xs (insert a A) (m + 1) (k + 1)" "a \<notin> A" "0 \<le> m" "m \<le> k"
  shows "sat False (crit_ok A m k) (sec_put_closed a p)"
  unfolding sec_put_closed_def using assms by (intro crit_send drop_conn_ok) auto

lemma follow_chain: "chain h p xs None \<Longrightarrow> follow h (length xs) (head_or xs None) = xs"
  by (induction xs arbitrary: p) auto

lemma sec_close_ok: "pool_ok p xs H M K \<Longrightarrow> 0 \<le> M \<Longrightarrow> \<exists>ys. pool_ok (sec_close p) ys H M K"
proof (cases "p_closed p")
  case False
  assume ok: "pool_ok p xs H M K" and "0 \<le> M"
  have "set (follow (p_heap p) (nat (il_count (p_idle p))) (il_front (p_idle p))) = set xs"
    using ok follow_chain [of "p_heap p" None xs] by (auto simp: pool_ok_def dll_def idle_of_def)
  with ok \<open>0 \<le> M\<close> False have "pool_ok (sec_close p) [] H M K"
    by (auto simp: pool_ok_def sec_close_def idle_of_def dll_def tokens_def split: option.splits)
  then show ?thesis by blast
qed (auto simp: sec_close_def)

lemma sec_of_ok:
  assumes "sec_of p t cr" "crit_ok A m k (p, t)" "0 \<le> m" "m \<le> k"
  shows "sat False (crit_ok A m k) cr"
  using assms(1)
proof cases
  case (enter p')
  then show ?thesis using assms(2-4) take_token_ok [of p _ A m k p'] by auto
qed (use assms(2-4) in \<open>auto simp: intro: sec_enter_ok sec_pruned_ok sec_tested_ok sec_dialed_ok
    sec_put_ok sec_put_closed_ok\<close>)

subsection \<open>All goroutines together\<close>

definition sys_ok :: "pool \<times> thr list \<Rightarrow> bool" where
  "sys_ok s \<longleftrightarrow> (case s of (p, ts) \<Rightarrow>
     (\<exists>xs. pool_ok p xs (\<Union>j<length ts. held (ts ! j)) (\<Sum>j<length ts. holds (ts ! j)) (\<Sum>j<length ts. tok (ts ! j))) \<and>
     (\<forall>i<length ts. \<forall>j<length ts. i \<noteq> j \<longrightarrow> held (ts ! i) \<inter> held (ts ! j) = {}))"

lemma holds_tok: "0 \<le> holds t" "holds t \<le> tok t"
  by (cases t; simp)+

lemma split_sum: "i < n \<Longrightarrow> (\<Sum>j<n. f j) = (\<Sum>j\<in>{..<n} - {i}. f j) + f i" for f :: "nat \<Rightarrow> int"
  by (subst sum.remove [of "{..<n}" i]) auto

lemma split_Union: "i < n \<Longrightarrow> (\<Union>j<n. F j) = (\<Union>j\<in>{..<n} - {i}. F j) \<union> F i"
  by auto

lemma sys_ok_run:
  assumes "sys_ok (p, ts)" "i < length ts" "sec_of p (ts ! i) cr"
  shows "sat False (\<lambda>(p', t). sys_ok (p', ts[i := t])) cr"
proof -
  let ?O = "{..<length ts} - {i}"
  let ?A = "\<Union>j\<in>?O. held (ts ! j)" and ?m = "\<Sum>j\<in>?O. holds (ts ! j)" and ?k = "\<Sum>j\<in>?O. tok (ts ! j)"
  have "crit_ok ?A ?m ?k (p, ts ! i)"
    using assms(1,2) unfolding sys_ok_def by (auto simp: split_sum [OF assms(2)] split_Union [OF assms(2)])
  moreover have "0 \<le> ?m" "?m \<le> ?k" by (auto intro: sum_nonneg sum_mono holds_tok)
  ultimately have ok: "sat False (crit_ok ?A ?m ?k) cr" by (rule sec_of_ok [OF assms(3)])
  have up: "sys_ok (p', ts[i := t])" if "crit_ok ?A ?m ?k (p', t)" for p' t
  proof -
    have same: "(\<Sum>j\<in>?O. f (ts[i := t] ! j)) = (\<Sum>j\<in>?O. f (ts ! j))" for f :: "thr \<Rightarrow> int"
      by (rule sum.cong) auto
    have "(\<Union>j\<in>?O. held (ts[i := t] ! j)) = ?A" by auto
    then show ?thesis
      using that assms(1,2) unfolding sys_ok_def
      by (auto simp: split_sum [of i "length ts"] split_Union [of i "length ts"] same nth_list_update)
  qed
  show ?thesis by (rule sat_mono [OF ok]) (use up in auto)
qed

lemma sys_ok_step: "sys_ok s \<Longrightarrow> pool_step s cr \<Longrightarrow> sat False sys_ok cr"
proof (erule pool_step.cases)
  fix p ts assume "sys_ok s" "s = (p, ts)" "cr = Inr (sec_close p, ts)"
  moreover have "0 \<le> (\<Sum>j<length ts. holds (ts ! j))" by (intro sum_nonneg holds_tok)
  ultimately show ?thesis using sec_close_ok by (fastforce simp: sys_ok_def)
next
  fix i ts p m assume s: "sys_ok s" "s = (p, ts)" "cr = bindR m (\<lambda>(p', t). Inr (p', ts[i := t]))"
    "i < length ts" "sec_of p (ts ! i) m"
  then show ?thesis using sys_ok_run [of p ts i m] by (auto elim!: sat_mono)
qed

lemma sys_ok_new: "sys_ok (new_pool mi ma it w lt, replicate n Out)"
  by (auto simp: sys_ok_def pool_ok_def new_pool_def idle_of_def dll_def tokens_def)

lemma sys_ok_reach:
  "pool_reach s cr \<Longrightarrow> sys_ok s \<Longrightarrow> sat False sys_ok cr"
proof (induction rule: pool_reach.induct)
  case (step s s' m)
  then show ?case using sys_ok_step by auto
qed simp

text \<open>The settings of the pool do not change.\<close>

definition settings :: "pool \<Rightarrow> int \<times> int \<times> int \<times> bool \<times> int" where
  "settings p = (MaxIdle p, MaxActive p, IdleTimeout p, Wait p, MaxConnLifetime p)"

lemma settings_with_idle [simp]: "settings (with_idle p s) = settings p" "settings (drop_conn a p) = settings p"
  by (simp_all add: settings_def with_idle_def drop_conn_def)

lemma borrow_head_settings: "sat True (\<lambda>(p', t). settings p' = settings p) (borrow_head p)"
  by (auto simp: borrow_head_def settings_def with_idle_def split: option.splits)

lemma prune_head_settings: "sat True (\<lambda>(p', t). settings p' = settings p) (prune_head now i n p)"
  using borrow_head_settings [of p] by (auto simp: prune_head_def deref_def split: option.splits)

lemma send_token_settings: "sat True (\<lambda>p'. settings p' = settings p) (send_token p)"
  by (auto simp: send_token_def settings_def split: option.splits)

lemma sec_of_settings: "sec_of p t cr \<Longrightarrow> sat True (\<lambda>(p', t). settings p' = settings p) cr"
proof (induction rule: sec_of.induct)
  case (enter p p')
  then show ?case
    by (auto simp: take_token_def lazyInit_def settings_def Let_def split: if_splits option.splits)
next
  case (first p now waited)
  show ?case
    using prune_head_settings [of "p\<lparr>p_waitCount := p_waitCount p + 1, p_waitDuration := p_waitDuration p + waited\<rparr>" now 0]
      prune_head_settings [of p now 0]
    by (simp add: sec_enter_def Let_def settings_def)
next
  case (prune p i n a now)
  show ?case using prune_head_settings [of "drop_conn a p"] by (simp add: sec_pruned_def)
next
  case (tested p a ok now)
  show ?case using borrow_head_settings [of "drop_conn a p"] by (auto simp: sec_tested_def deref_def split: option.splits)
next
  case (dialed p a conn now)
  show ?case
    using send_token_settings [of "p\<lparr>p_active := p_active p - 1\<rparr>"]
    by (auto simp: sec_dialed_def settings_def split: option.splits)
next
  case (put_back p a force now)
  have "sat True (\<lambda>(p', t). settings p' = settings p) (put_rest (with_idle p s))" for s
    using send_token_settings [of "with_idle p s"] by (auto simp: put_rest_def split: option.splits)
  then show ?case by (auto simp: sec_put_def deref_def split: option.splits)
next
  case (put_end p a)
  show ?case using send_token_settings [of "drop_conn a p"] by (auto simp: sec_put_closed_def)
qed

lemma reach_settings:
  "pool_reach s cr \<Longrightarrow> sat True (\<lambda>(p, ts). settings p = settings (fst s) \<and> length ts = length (snd s)) cr"
proof (induction rule: pool_reach.induct)
  case (step s s' m)
  from step.hyps(2) show ?case
  proof cases
    case (run i ts p cr)
    then show ?thesis using step.IH sec_of_settings [OF run(4)] by (auto elim!: sat_mono)
  next
    case (close p ts)
    then show ?thesis using step.IH by (auto simp: sec_close_def settings_def)
  qed
qed (auto split: prod.splits)

text \<open>Every open connection is accounted for: \<open>active\<close> counts the open ones and the dials under way.\<close>

lemma card_held: "holds t = int (card (held t)) + (if t = Dialing then 1 else 0)" "finite (held t)"
  by (cases t; simp)+

lemma sys_ok_open:
  assumes "sys_ok (p, ts)"
  shows "p_active p = int (card (p_open p)) + int (count_list ts Dialing)"
proof -
  let ?H = "\<Union>j<length ts. held (ts ! j)"
  obtain xs where ok: "pool_ok p xs ?H (\<Sum>j<length ts. holds (ts ! j)) (\<Sum>j<length ts. tok (ts ! j))"
    and dis: "\<forall>i<length ts. \<forall>j<length ts. i \<noteq> j \<longrightarrow> held (ts ! i) \<inter> held (ts ! j) = {}"
    using assms by (auto simp: sys_ok_def)
  have "card ?H = (\<Sum>j<length ts. card (held (ts ! j)))"
    using dis by (intro card_UN_disjoint) (auto simp: card_held)
  moreover have "card (p_open p) = length xs + card ?H"
    using ok il.rep_distinct [of "idle_of p" xs]
    by (auto simp: pool_ok_def card_Un_disjoint card_held distinct_card)
  moreover have "int (count_list ts Dialing) = (\<Sum>j<length ts. if ts ! j = Dialing then 1 else 0)"
    by (induction ts) (auto simp: sum.lessThan_Suc_shift simp del: sum.lessThan_Suc)
  ultimately show ?thesis
    using ok by (simp add: pool_ok_def card_held(1) sum.distrib del: UN_simps)
qed

text \<open>C3. Under every interleaving of the critical sections of any number of goroutines, and whatever \<open>Dial\<close>,
  \<open>TestOnBorrow\<close> and the clock do, the pool never panics on a nil pointer and never blocks on its channel
  while it holds the mutex; there are never more than \<open>MaxActive\<close> connections (if it is set) nor more than
  \<open>MaxIdle\<close> idle ones, and \<open>active\<close> is the number of open connections plus the dials under way, so that no
  connection is leaked.\<close>

theorem pool_safe:
  assumes "pool_reach (new_pool maxIdle maxActive idleTimeout wait lifetime, replicate n Out) cr"
  shows "\<exists>p ts. cr = Inr (p, ts) \<and> (0 < maxActive \<longrightarrow> ActiveCount p \<le> maxActive) \<and>
    (0 \<le> maxIdle \<longrightarrow> IdleCount p \<le> maxIdle) \<and> ActiveCount p = int (card (p_open p)) + int (count_list ts Dialing)"
proof -
  let ?s = "(new_pool maxIdle maxActive idleTimeout wait lifetime, replicate n Out)"
  have ok: "sat False sys_ok cr" by (rule sys_ok_reach [OF assms sys_ok_new])
  then obtain p ts where cr: "cr = Inr (p, ts)" by (cases cr) auto
  have "settings p = settings (fst ?s)" using reach_settings [OF assms] by (simp add: cr)
  then have set: "MaxActive p = maxActive" "MaxIdle p = maxIdle"
    by (simp_all add: settings_def new_pool_def)
  have sys: "sys_ok (p, ts)" using ok by (simp add: cr)
  then show ?thesis
    using set sys_ok_open [OF sys] cr il.rep_count [of "idle_of p"]
    by (auto simp: sys_ok_def pool_ok_def ActiveCount_def IdleCount_def idle_of_def)
qed

theorem pool_safe_witness:
  "\<exists>cr p ts. pool_reach (new_pool 2 1 0 True 0, replicate 2 Out) cr \<and> cr = Inr (p, ts) \<and> ts = [Dialing, Out] \<and>
    ActiveCount p \<le> 1 \<and> IdleCount p \<le> 2 \<and> ActiveCount p = int (card (p_open p)) + int (count_list ts Dialing)"
proof -
  let ?s = "(new_pool 2 1 0 True 0, replicate 2 Out)"
  let ?p = "(new_pool 2 1 0 True 0)\<lparr>p_ch := Some 0\<rparr>"
  have 1: "pool_step ?s (bindR (Inr (?p, Entered)) (\<lambda>(p', t). Inr (p', (replicate 2 Out)[0 := t])))"
    by (rule pool_step.run) (auto intro!: sec_of.enter simp: take_token_def lazyInit_def new_pool_def)
  have 2: "pool_step (?p, [Entered, Out]) (bindR (sec_enter 5 0 ?p) (\<lambda>(p', t). Inr (p', [Entered, Out][0 := t])))"
    by (rule pool_step.run) (auto intro: sec_of.first)
  have "pool_reach ?s (Inr (?p, [Entered, Out]))"
    using pool_reach.step [OF pool_reach.start 1] by (simp add: numeral_2_eq_2)
  from pool_reach.step [OF this 2]
  have "pool_reach ?s (Inr (?p\<lparr>p_active := 1\<rparr>, [Dialing, Out]))"
    by (simp add: sec_enter_def prune_head_def borrow_head_def new_pool_def)
  from this pool_safe [OF this] show ?thesis by fastforce
qed

end
