(* ===== verification/Redis_Queue.thy ===== *)
theory Redis_Queue
  imports Redis_Protocol
begin

section \<open>Scripts and the queues that are built on them\<close>

text \<open>
  redis/script.go, and the keys, lists and queues of lib/redis_pool.go, lib/unique_queue.go and
  lib/priority_queue.go. The Redis server is not part of the sources. What the queues rely on is the locale
  \<open>redis_server\<close>: the documented effect of eight commands on a key (\<open>redis_spec\<close>), and that \<open>EVAL\<close> and \<open>EVALSHA\<close>
  run a script as one step. The Lua scripts are part of the sources: each is translated to a function over
  \<open>redis.call\<close>. A connection is the function \<open>conn\<close> that \<open>Do\<close> is on the state of the server.
\<close>

type_synonym 's conn_do = "string \<Rightarrow> arg list \<Rightarrow> 's \<Rightarrow> reply outcome \<times> 's"

subsection \<open>Scripts\<close>

record Script =
  sc_keyCount :: int
  sc_src :: string
  sc_hash :: string

definition NewScript :: "(string \<Rightarrow> string) \<Rightarrow> int \<Rightarrow> string \<Rightarrow> Script" where
  "NewScript sha1 keyCount src = \<lparr>sc_keyCount = keyCount, sc_src = src, sc_hash = sha1 src\<rparr>"

definition script_args :: "Script \<Rightarrow> string \<Rightarrow> arg list \<Rightarrow> arg list" where
  "script_args s spec keysAndArgs =
     (if sc_keyCount s < 0 then AString spec # keysAndArgs
      else AString spec # AInt (sc_keyCount s) # keysAndArgs)"

definition script_Do :: "'s conn_do \<Rightarrow> Script \<Rightarrow> arg list \<Rightarrow> 's \<Rightarrow> reply outcome \<times> 's" where
  "script_Do conn s keysAndArgs w =
     (case conn ''EVALSHA'' (script_args s (sc_hash s) keysAndArgs) w of
        ((v, Some (ErrServer e)), w') \<Rightarrow>
          if has_prefix ''NOSCRIPT '' e then conn ''EVAL'' (script_args s (sc_src s) keysAndArgs) w'
          else ((v, Some (ErrServer e)), w')
      | r \<Rightarrow> r)"

definition script_SendHash :: "(string \<Rightarrow> arg list \<Rightarrow> 'w \<Rightarrow> 'x) \<Rightarrow> Script \<Rightarrow> arg list \<Rightarrow> 'w \<Rightarrow> 'x" where
  "script_SendHash conn_send s keysAndArgs = conn_send ''EVALSHA'' (script_args s (sc_hash s) keysAndArgs)"

definition script_Send :: "(string \<Rightarrow> arg list \<Rightarrow> 'w \<Rightarrow> 'x) \<Rightarrow> Script \<Rightarrow> arg list \<Rightarrow> 'w \<Rightarrow> 'x" where
  "script_Send conn_send s keysAndArgs = conn_send ''EVAL'' (script_args s (sc_src s) keysAndArgs)"

definition script_Load :: "'s conn_do \<Rightarrow> Script \<Rightarrow> 's \<Rightarrow> redis_error option \<times> 's" where
  "script_Load conn s w =
     (case conn ''SCRIPT'' [AString ''LOAD'', AString (sc_src s)] w of ((_, err), w') \<Rightarrow> (err, w'))"

subsection \<open>Lua\<close>

text \<open>
  The values that \<open>redis.call\<close> gives to a script and that a script gives back: a nil reply is \<open>false\<close>, a status a
  table. A script that passes anything but strings and numbers to \<open>redis.call\<close> is aborted with the error
  \<open>badarg\<close>, and so is one whose command fails.
\<close>

datatype lua = LNil | LBool bool | LNum int | LStr string | LTable reply

type_synonym ('r, 'a) lua_step = "'r \<Rightarrow> (string + 'a) \<times> 'r"

definition bindL :: "('r, 'a) lua_step \<Rightarrow> ('a \<Rightarrow> ('r, 'b) lua_step) \<Rightarrow> ('r, 'b) lua_step" where
  "bindL m k r = (case m r of (Inl e, r') \<Rightarrow> (Inl e, r') | (Inr x, r') \<Rightarrow> k x r')"

definition returnL :: "'a \<Rightarrow> ('r, 'a) lua_step" where
  "returnL x r = (Inr x, r)"

record 'r redis =
  rs_call :: "string list \<Rightarrow> 'r \<Rightarrow> reply \<times> 'r"
  rs_badarg :: string

fun lua_arg :: "lua \<Rightarrow> string option" where
  "lua_arg (LStr s) = Some s"
| "lua_arg (LNum n) = Some (Itoa n)"
| "lua_arg _ = None"

fun lua_value :: "reply \<Rightarrow> string + lua" where
  "lua_value (RInt n) = Inr (LNum n)"
| "lua_value (RBulk s) = Inr (LStr s)"
| "lua_value RNil = Inr (LBool False)"
| "lua_value (RError e) = Inl e"
| "lua_value r = Inr (LTable r)"

fun lua_reply :: "lua \<Rightarrow> reply" where
  "lua_reply LNil = RNil"
| "lua_reply (LBool b) = (if b then RInt 1 else RNil)"
| "lua_reply (LNum n) = RInt n"
| "lua_reply (LStr s) = RBulk s"
| "lua_reply (LTable r) = r"

fun truthy :: "lua \<Rightarrow> bool" where
  "truthy LNil = False"
| "truthy (LBool b) = b"
| "truthy _ = True"

definition redis_call :: "'r redis \<Rightarrow> lua list \<Rightarrow> ('r, lua) lua_step" where
  "redis_call srv args r =
     (if None \<in> set (map lua_arg args) then (Inl (rs_badarg srv), r)
      else case rs_call srv (map (the \<circ> lua_arg) args) r of (rep, r') \<Rightarrow> (lua_value rep, r'))"

text \<open>A script: the server, \<open>KEYS[1]\<close> and \<open>ARGV\<close>.\<close>

type_synonym 'r lua_script = "'r redis \<Rightarrow> string \<Rightarrow> string list \<Rightarrow> ('r, lua) lua_step"

definition argv :: "string list \<Rightarrow> nat \<Rightarrow> lua" where
  "argv as i = (if 0 < i \<and> i \<le> length as then LStr (as ! (i - 1)) else LNil)"

definition lua_list_push :: "'r lua_script" where
  "lua_list_push srv key as = redis_call srv [LStr ''RPUSH'', LStr key, argv as 1]"

definition lua_get :: "'r lua_script" where
  "lua_get srv key as = redis_call srv [LStr ''GET'', LStr key]"

definition lua_set :: "'r lua_script" where
  "lua_set srv key as = redis_call srv [LStr ''SET'', LStr key, argv as 1]"

definition lua_del :: "'r lua_script" where
  "lua_del srv key as = redis_call srv [LStr ''DEL'', LStr key]"

definition lua_list_count :: "'r lua_script" where
  "lua_list_count srv key as = redis_call srv [LStr ''LLEN'', LStr key]"

definition lua_list_pop :: "'r lua_script" where
  "lua_list_pop srv key as =
     bindL (redis_call srv [LStr ''LPOP'', LStr key]) (\<lambda>v.
       if v \<noteq> LStr [] then returnL v else returnL (LNum 0))"

definition lua_push :: "'r lua_script" where
  "lua_push srv key as =
     bindL (redis_call srv [LStr ''SADD'', LStr (key @ ''_set''), argv as 1]) (\<lambda>v.
       if v = LNum 1
       then bindL (redis_call srv [LStr ''RPUSH'', LStr key, argv as 1]) (\<lambda>w. returnL (if truthy w then LNum 1 else w))
       else returnL (LNum 0))"

definition lua_pop :: "'r lua_script" where
  "lua_pop srv key as =
     bindL (redis_call srv [LStr ''LPOP'', LStr key]) (\<lambda>v.
       bindL (if v \<noteq> LStr [] then redis_call srv [LStr ''SREM'', LStr (key @ ''_set''), v] else returnL LNil) (\<lambda>_.
         returnL v))"

text \<open>The arguments are strings; \<open>..\<close> with \<open>nil\<close> aborts the script.\<close>

definition concat_arg :: "'r redis \<Rightarrow> string \<Rightarrow> lua \<Rightarrow> ('r, string) lua_step" where
  "concat_arg srv s v r = (case lua_arg v of Some t \<Rightarrow> (Inr (s @ t), r) | None \<Rightarrow> (Inl (rs_badarg srv), r))"

definition lua_priority_push :: "'r lua_script" where
  "lua_priority_push srv key as =
     bindL (redis_call srv [LStr ''SADD'', LStr (key @ ''_set''), argv as 1]) (\<lambda>v.
       if v = LNum 1
       then bindL (concat_arg srv (key @ ''_'') (argv as 2)) (\<lambda>q_pri.
         bindL (redis_call srv [LStr ''RPUSH'', LStr q_pri, argv as 1]) (\<lambda>w. returnL (if truthy w then LNum 1 else w)))
       else returnL (LNum 0))"

text \<open>The loop over the priorities \<open>i, i + 1, \<dots>\<close>, of which \<open>n\<close> are left.\<close>

fun priority_loop :: "'r redis \<Rightarrow> string \<Rightarrow> int \<Rightarrow> nat \<Rightarrow> ('r, lua) lua_step" where
  "priority_loop srv key i 0 = returnL LNil"
| "priority_loop srv key i (Suc n) =
     bindL (redis_call srv [LStr ''LPOP'', LStr (key @ ''_'' @ Itoa i)]) (\<lambda>v.
       case v of
         LBool b \<Rightarrow> priority_loop srv key (i + 1) n
       | _ \<Rightarrow> bindL (redis_call srv [LStr ''SREM'', LStr (key @ ''_set''), v]) (\<lambda>_. returnL v))"

definition lua_priority_pop :: "'r lua_script" where
  "lua_priority_pop srv key as =
     (case argv as 1 of
        LStr s \<Rightarrow>
          (case ParseInt s of
             (loop_num, None) \<Rightarrow> priority_loop srv key 1 (nat loop_num)
           | (_, Some _) \<Rightarrow> (\<lambda>r. (Inl (rs_badarg srv), r)))
      | _ \<Rightarrow> (\<lambda>r. (Inl (rs_badarg srv), r)))"

subsection \<open>The sources of the scripts\<close>

abbreviation (input) nl :: string where "nl \<equiv> [CHR 0x0A]"
abbreviation (input) tab :: string where "tab \<equiv> [CHR 0x09]"

definition SCRIPT_LIST_PUSH :: string where
  \<open>SCRIPT_LIST_PUSH =
     nl @
     ''local q = KEYS[1]'' @ nl @
     ''return redis.call("RPUSH", q, ARGV[1])'' @ nl\<close>

definition SCRIPT_GET :: string where
  \<open>SCRIPT_GET =
     nl @
     ''local q = KEYS[1]'' @ nl @
     ''return redis.call("GET", q)'' @ nl\<close>

definition SCRIPT_SET :: string where
  \<open>SCRIPT_SET =
     nl @
     ''local q = KEYS[1]'' @ nl @
     ''return redis.call("SET", q, ARGV[1])'' @ nl\<close>

definition SCRIPT_DEL :: string where
  \<open>SCRIPT_DEL =
     nl @
     ''local q = KEYS[1]'' @ nl @
     ''return redis.call("DEL", q)'' @ nl\<close>

definition SCRIPT_LIST_COUNT :: string where
  \<open>SCRIPT_LIST_COUNT =
     nl @
     ''local q = KEYS[1]'' @ nl @
     ''return redis.call("LLEN", q)'' @ nl\<close>

definition SCRIPT_LIST_POP :: string where
  \<open>SCRIPT_LIST_POP =
     nl @
     ''local q = KEYS[1]'' @ nl @
     ''local v = redis.call("LPOP", q)'' @ nl @
     ''if v ~= ""'' @ nl @
     ''then'' @ nl @
     tab @ ''return v'' @ nl @
     ''end'' @ nl @
     ''return 0'' @ nl\<close>

definition SCRIPT_PUSH :: string where
  \<open>SCRIPT_PUSH =
     nl @
     ''local q = KEYS[1]'' @ nl @
     ''local q_set = KEYS[1] .. "_set"'' @ nl @
     ''local v = redis.call("SADD", q_set, ARGV[1])'' @ nl @
     ''if v == 1'' @ nl @
     ''then'' @ nl @
     tab @ ''return redis.call("RPUSH", q, ARGV[1]) and 1'' @ nl @
     ''else'' @ nl @
     tab @ ''return 0'' @ nl @
     ''end'' @ nl\<close>

definition SCRIPT_POP :: string where
  \<open>SCRIPT_POP =
     nl @
     ''local q = KEYS[1]'' @ nl @
     ''local q_set = KEYS[1] .. "_set"'' @ nl @
     ''local v = redis.call("LPOP", q)'' @ nl @
     ''if v ~= ""'' @ nl @
     ''then'' @ nl @
     tab @ ''redis.call("SREM", q_set, v)'' @ nl @
     ''end'' @ nl @
     ''return v'' @ nl\<close>

definition SCRIPT_PRIORITY_PUSH :: string where
  \<open>SCRIPT_PRIORITY_PUSH =
     nl @
     ''local q = KEYS[1]'' @ nl @
     ''local q_set = KEYS[1] .. "_set"'' @ nl @
     ''local v = redis.call("SADD", q_set, ARGV[1])'' @ nl @
     ''if v == 1'' @ nl @
     ''then'' @ nl @
     tab @ ''local q_pri = KEYS[1] .. "_" .. ARGV[2]'' @ nl @
     tab @ ''return redis.call("RPUSH", q_pri, ARGV[1]) and 1'' @ nl @
     ''else'' @ nl @
     tab @ ''return 0'' @ nl @
     ''end'' @ nl @
     nl\<close>

definition SCRIPT_PRIORITY_POP :: string where
  \<open>SCRIPT_PRIORITY_POP =
     nl @
     ''local q_set = KEYS[1] .. "_set"'' @ nl @
     ''local loop_num = tonumber(ARGV[1])'' @ nl @
     ''local i = 1'' @ nl @
     nl @
     ''while (i <= loop_num) do'' @ nl @
     tab @ ''local q = KEYS[1] .. "_" ..i'' @ nl @
     tab @ ''local v = redis.call("LPOP", q)'' @ nl @
     tab @ ''-- when not res, is bool'' @ nl @
     tab @ ''if type(v) == "boolean"'' @ nl @
     tab @ ''then'' @ nl @
     tab @ tab @ ''local x = KEYS[1] .. "_" ..i'' @ nl @
     tab @ ''else'' @ nl @
     tab @ tab @ ''redis.call("SREM", q_set, v)'' @ nl @
     tab @ tab @ ''return v'' @ nl @
     tab @ ''end'' @ nl @
     tab @ ''i = i + 1'' @ nl @
     ''end'' @ nl\<close>

text \<open>What the server runs for a source.\<close>

definition lua_of :: "string \<Rightarrow> 'r lua_script option" where
  "lua_of src =
     (if src = SCRIPT_LIST_PUSH then Some lua_list_push
      else if src = SCRIPT_GET then Some lua_get
      else if src = SCRIPT_SET then Some lua_set
      else if src = SCRIPT_DEL then Some lua_del
      else if src = SCRIPT_LIST_COUNT then Some lua_list_count
      else if src = SCRIPT_LIST_POP then Some lua_list_pop
      else if src = SCRIPT_PUSH then Some lua_push
      else if src = SCRIPT_POP then Some lua_pop
      else if src = SCRIPT_PRIORITY_PUSH then Some lua_priority_push
      else if src = SCRIPT_PRIORITY_POP then Some lua_priority_pop
      else None)"

subsection \<open>What the server promises\<close>

datatype rvalue = VStr string | VList "string list" | VSet "string set"

text \<open>
  The documented effect of a command on the values of the keys, where the type of the value is the one that the
  command is for. A list or a set that becomes empty is removed.
\<close>

definition put_list :: "string \<Rightarrow> string list \<Rightarrow> (string \<rightharpoonup> rvalue) \<Rightarrow> (string \<rightharpoonup> rvalue)" where
  "put_list k xs m = m(k := (if xs = [] then None else Some (VList xs)))"

definition put_set :: "string \<Rightarrow> string set \<Rightarrow> (string \<rightharpoonup> rvalue) \<Rightarrow> (string \<rightharpoonup> rvalue)" where
  "put_set k S m = m(k := (if S = {} then None else Some (VSet S)))"

definition list_at :: "(string \<rightharpoonup> rvalue) \<Rightarrow> string \<Rightarrow> string list option" where
  "list_at m k = (case m k of None \<Rightarrow> Some [] | Some (VList xs) \<Rightarrow> Some xs | _ \<Rightarrow> None)"

definition set_of_key :: "(string \<rightharpoonup> rvalue) \<Rightarrow> string \<Rightarrow> string set option" where
  "set_of_key m k = (case m k of None \<Rightarrow> Some {} | Some (VSet S) \<Rightarrow> Some S | _ \<Rightarrow> None)"

definition str_at :: "(string \<rightharpoonup> rvalue) \<Rightarrow> string \<Rightarrow> string option option" where
  "str_at m k = (case m k of None \<Rightarrow> Some None | Some (VStr s) \<Rightarrow> Some (Some s) | _ \<Rightarrow> None)"

definition redis_spec :: "string list \<Rightarrow> (string \<rightharpoonup> rvalue) \<Rightarrow> (reply \<times> (string \<rightharpoonup> rvalue)) option" where
  "redis_spec cmd m =
     (case cmd of
        [c, k] \<Rightarrow>
          (if c = ''LPOP'' then map_option (\<lambda>xs. case xs of [] \<Rightarrow> (RNil, m) | x # xs \<Rightarrow> (RBulk x, put_list k xs m)) (list_at m k)
           else if c = ''LLEN'' then map_option (\<lambda>xs. (RInt (int (length xs)), m)) (list_at m k)
           else if c = ''DEL'' then Some (RInt (if m k = None then 0 else 1), m(k := None))
           else if c = ''GET'' then map_option (\<lambda>v. (case v of None \<Rightarrow> RNil | Some s \<Rightarrow> RBulk s, m)) (str_at m k)
           else None)
      | [c, k, v] \<Rightarrow>
          (if c = ''RPUSH'' then map_option (\<lambda>xs. (RInt (int (length xs) + 1), put_list k (xs @ [v]) m)) (list_at m k)
           else if c = ''SADD'' then map_option (\<lambda>S. (RInt (if v \<in> S then 0 else 1), put_set k (insert v S) m)) (set_of_key m k)
           else if c = ''SREM'' then map_option (\<lambda>S. (RInt (if v \<in> S then 1 else 0), put_set k (S - {v}) m)) (set_of_key m k)
           else if c = ''SET'' then Some (RStatus ''OK'', m(k \<mapsto> VStr v))
           else None)
      | _ \<Rightarrow> None)"

definition reply_outcome :: "reply \<Rightarrow> reply outcome" where
  "reply_outcome r = (r, case r of RError e \<Rightarrow> Some (ErrServer e) | _ \<Rightarrow> None)"

definition eval_reply :: "string + lua \<Rightarrow> reply" where
  "eval_reply r = (case r of Inl e \<Rightarrow> RError e | Inr v \<Rightarrow> lua_reply v)"

locale redis_server =
  fixes sha1 :: "string \<Rightarrow> string" and conn :: "'s conn_do" and srv :: "'r redis"
    and db :: "'s \<Rightarrow> 'r" and val :: "'r \<Rightarrow> (string \<rightharpoonup> rvalue)"
  assumes call_spec: "redis_spec cs (val x) = Some (rep, m) \<Longrightarrow> \<exists>y. rs_call srv cs x = (rep, y) \<and> val y = m"
    and do_spec: "redis_spec (cmd # args) (val (db w)) = Some (rep, m) \<Longrightarrow>
      \<exists>w'. conn cmd (map AString args) w = (reply_outcome rep, w') \<and> val (db w') = m"
    and do_eval: "lua_of src = Some f \<Longrightarrow> f srv key (map (arg_text True) as) (db w) = (r, d) \<Longrightarrow>
      \<exists>w'. conn ''EVAL'' (AString src # AInt 1 # AString key # as) w = (reply_outcome (eval_reply r), w') \<and> db w' = d"
    and do_evalsha: "lua_of src = Some f \<Longrightarrow> f srv key (map (arg_text True) as) (db w) = (r, d) \<Longrightarrow>
      \<exists>w'. conn ''EVALSHA'' (AString (sha1 src) # AInt 1 # AString key # as) w = (reply_outcome (eval_reply r), w') \<and> db w' = d \<or>
           (\<exists>e. conn ''EVALSHA'' (AString (sha1 src) # AInt 1 # AString key # as) w = (reply_outcome (RError (''NOSCRIPT '' @ e)), w') \<and>
             db w' = db w)"
    and badarg: "\<not> has_prefix ''NOSCRIPT '' (rs_badarg srv)"
begin

text \<open>A script runs once, whether the server knows it or not.\<close>

lemma script_Do_once:
  assumes f: "lua_of src = Some f" "f srv key (map (arg_text True) as) (db w) = (r, d)"
    and r: "\<And>e. eval_reply r = RError e \<Longrightarrow> \<not> has_prefix ''NOSCRIPT '' e"
  shows "\<exists>w'. script_Do conn (NewScript sha1 1 src) (AString key # as) w = (reply_outcome (eval_reply r), w') \<and> db w' = d"
proof -
  let ?r = "reply_outcome (eval_reply r)"
  from do_evalsha [OF f] obtain w' where w':
    "conn ''EVALSHA'' (AString (sha1 src) # AInt 1 # AString key # as) w = (?r, w') \<and> db w' = d \<or>
     (\<exists>e. conn ''EVALSHA'' (AString (sha1 src) # AInt 1 # AString key # as) w = (reply_outcome (RError (''NOSCRIPT '' @ e)), w') \<and>
       db w' = db w)" by blast
  then show ?thesis
  proof
    assume "conn ''EVALSHA'' (AString (sha1 src) # AInt 1 # AString key # as) w = (?r, w') \<and> db w' = d"
    then show ?thesis using r
      by (cases "eval_reply r") (auto simp: script_Do_def NewScript_def script_args_def reply_outcome_def)
  next
    assume "\<exists>e. conn ''EVALSHA'' (AString (sha1 src) # AInt 1 # AString key # as) w = (reply_outcome (RError (''NOSCRIPT '' @ e)), w') \<and>
       db w' = db w"
    then obtain e where e: "conn ''EVALSHA'' (AString (sha1 src) # AInt 1 # AString key # as) w = (reply_outcome (RError (''NOSCRIPT '' @ e)), w')"
      "db w' = db w" by blast
    from do_eval [OF f(1), of key as w' r d] f(2) e(2) obtain w'' where
      "conn ''EVAL'' (AString src # AInt 1 # AString key # as) w' = (?r, w'')" "db w'' = d" by auto
    with e(1) show ?thesis by (auto simp: script_Do_def NewScript_def script_args_def reply_outcome_def)
  qed
qed

text \<open>One command of a script.\<close>

lemma redis_call_spec:
  assumes "redis_spec (map (the \<circ> lua_arg) args) (val r) = Some (rep, m)" "None \<notin> set (map lua_arg args)" "lua_value rep = Inr v"
  obtains r' where "redis_call srv args r = (Inr v, r')" "val r' = m"
  using call_spec [OF assms(1)] assms(2,3) that by (auto simp: redis_call_def simp del: o_apply)

end

subsection \<open>A server in memory\<close>

text \<open>The laws hold together: a server that does what \<open>redis_spec\<close> says, with the source of a script as its hash.\<close>

definition mem_srv :: "(string \<rightharpoonup> rvalue) redis" where
  "mem_srv = \<lparr>rs_call = (\<lambda>cmd m. case redis_spec cmd m of Some p \<Rightarrow> p | None \<Rightarrow> (RError ''WRONGTYPE'', m)),
     rs_badarg = ''ERR Lua redis() command arguments must be strings or integers''\<rparr>"

definition mem_conn :: "(string \<rightharpoonup> rvalue) conn_do" where
  "mem_conn cmd args m =
     (if cmd = ''EVAL'' \<or> cmd = ''EVALSHA'' then
        (case args of
           AString src # AInt n # AString key # as \<Rightarrow>
             (case lua_of src of
                Some f \<Rightarrow> (case f mem_srv key (map (arg_text True) as) m of (r, m') \<Rightarrow> (reply_outcome (eval_reply r), m'))
              | None \<Rightarrow> (reply_outcome (RError ''ERR''), m))
         | _ \<Rightarrow> (reply_outcome (RError ''ERR''), m))
      else case redis_spec (cmd # map (arg_text True) args) m of
          Some (r, m') \<Rightarrow> (reply_outcome r, m')
        | None \<Rightarrow> (reply_outcome (RError ''WRONGTYPE''), m))"

lemma redis_spec_eval: "redis_spec (''EVAL'' # args) m = None" "redis_spec (''EVALSHA'' # args) m = None"
  by (auto simp: redis_spec_def split: list.splits)

interpretation mem: redis_server "\<lambda>s. s" mem_conn mem_srv "\<lambda>m. m" "\<lambda>m. m"
proof unfold_locales
  fix cmd args w rep m
  assume spec: "redis_spec (cmd # args) w = Some (rep, m)"
  then have "cmd \<noteq> ''EVAL''" "cmd \<noteq> ''EVALSHA''" using redis_spec_eval by auto
  moreover have "map (arg_text True) (map AString args) = args" by (induction args) auto
  ultimately show "\<exists>w'. mem_conn cmd (map AString args) w = (reply_outcome rep, w') \<and> w' = m"
    using spec by (simp add: mem_conn_def del: map_map)
qed (auto simp: mem_srv_def mem_conn_def)

subsection \<open>Keys and lists\<close>

definition nil_ok :: "redis_error option \<Rightarrow> redis_error option" where
  "nil_ok err = (if err = Some ErrNil then None else err)"

definition int_script :: "(string \<Rightarrow> string) \<Rightarrow> 's conn_do \<Rightarrow> string \<Rightarrow> arg list \<Rightarrow> 's \<Rightarrow> int outcome \<times> 's" where
  "int_script sha1 conn src args w =
     (case script_Do conn (NewScript sha1 1 src) args w of ((v, err), w') \<Rightarrow>
        (case Int_reply v err of (res, err) \<Rightarrow> ((res, nil_ok err), w')))"

definition string_script :: "(string \<Rightarrow> string) \<Rightarrow> 's conn_do \<Rightarrow> string \<Rightarrow> arg list \<Rightarrow> 's \<Rightarrow> string outcome \<times> 's" where
  "string_script sha1 conn src args w =
     (case script_Do conn (NewScript sha1 1 src) args w of ((v, err), w') \<Rightarrow>
        (case String v err of (res, err) \<Rightarrow> ((res, nil_ok err), w')))"

definition ListPush :: "(string \<Rightarrow> string) \<Rightarrow> 's conn_do \<Rightarrow> string \<Rightarrow> string \<Rightarrow> 's \<Rightarrow> int outcome \<times> 's" where
  "ListPush sha1 conn q body = int_script sha1 conn SCRIPT_LIST_PUSH [AString q, AString body]"

definition ListPop :: "(string \<Rightarrow> string) \<Rightarrow> 's conn_do \<Rightarrow> string \<Rightarrow> 's \<Rightarrow> string outcome \<times> 's" where
  "ListPop sha1 conn q = string_script sha1 conn SCRIPT_LIST_POP [AString q]"

definition GetKey :: "(string \<Rightarrow> string) \<Rightarrow> 's conn_do \<Rightarrow> string \<Rightarrow> 's \<Rightarrow> string outcome \<times> 's" where
  "GetKey sha1 conn q = string_script sha1 conn SCRIPT_GET [AString q]"

definition DelKey :: "(string \<Rightarrow> string) \<Rightarrow> 's conn_do \<Rightarrow> string \<Rightarrow> 's \<Rightarrow> string outcome \<times> 's" where
  "DelKey sha1 conn q = string_script sha1 conn SCRIPT_DEL [AString q]"

definition SetKey :: "(string \<Rightarrow> string) \<Rightarrow> 's conn_do \<Rightarrow> string \<Rightarrow> string \<Rightarrow> 's \<Rightarrow> int outcome \<times> 's" where
  "SetKey sha1 conn q body = int_script sha1 conn SCRIPT_SET [AString q, AString body]"

definition ListCount :: "(string \<Rightarrow> string) \<Rightarrow> 's conn_do \<Rightarrow> string \<Rightarrow> 's \<Rightarrow> int outcome \<times> 's" where
  "ListCount sha1 conn q = int_script sha1 conn SCRIPT_LIST_COUNT [AString q]"

subsection \<open>The queue without duplicates\<close>

definition UniquePush :: "(string \<Rightarrow> string) \<Rightarrow> 's conn_do \<Rightarrow> string \<Rightarrow> string \<Rightarrow> 's \<Rightarrow> int outcome \<times> 's" where
  "UniquePush sha1 conn q body = int_script sha1 conn SCRIPT_PUSH [AString q, AString body]"

definition UniquePop :: "(string \<Rightarrow> string) \<Rightarrow> 's conn_do \<Rightarrow> string \<Rightarrow> 's \<Rightarrow> string outcome \<times> 's" where
  "UniquePop sha1 conn q = string_script sha1 conn SCRIPT_POP [AString q]"

definition Length :: "'s conn_do \<Rightarrow> string \<Rightarrow> 's \<Rightarrow> int outcome \<times> 's" where
  "Length conn q w = (case conn ''LLEN'' [AString q] w of ((v, err), w') \<Rightarrow> (Int_reply v err, w'))"

definition getQueueSet :: "string \<Rightarrow> string" where
  "getQueueSet q = q @ ''_set''"

definition Clear :: "'s conn_do \<Rightarrow> string \<Rightarrow> 's \<Rightarrow> int outcome \<times> 's" where
  "Clear conn q w =
     (case conn ''DEL'' [AString q] w of ((v, err), w) \<Rightarrow>
        (case Int_reply v err of
           (res, Some e) \<Rightarrow> ((res, Some e), w)
         | (res, None) \<Rightarrow>
             (case conn ''DEL'' [AString (getQueueSet q)] w of ((v, err), w) \<Rightarrow> (Int_reply v err, w))))"

subsection \<open>The queue with priorities\<close>

record PriorityQueue =
  pq_Priority :: int
  pq_Unique :: bool

definition DEFAULT_PRIORITY :: int where
  "DEFAULT_PRIORITY = 1"

definition NewPriorityQueue :: "int \<Rightarrow> bool \<Rightarrow> PriorityQueue" where
  "NewPriorityQueue priority unique =
     \<lparr>pq_Priority = (if priority < 0 then DEFAULT_PRIORITY else priority), pq_Unique = unique\<rparr>"

definition pq_Push :: "(string \<Rightarrow> string) \<Rightarrow> 's conn_do \<Rightarrow> PriorityQueue \<Rightarrow> string \<Rightarrow> string \<Rightarrow> int \<Rightarrow> 's \<Rightarrow> int outcome \<times> 's" where
  "pq_Push sha1 conn u q body priority =
     int_script sha1 conn SCRIPT_PRIORITY_PUSH [AString q, AString body, AInt priority]"

definition pq_Pop :: "(string \<Rightarrow> string) \<Rightarrow> 's conn_do \<Rightarrow> PriorityQueue \<Rightarrow> string \<Rightarrow> 's \<Rightarrow> string outcome \<times> 's" where
  "pq_Pop sha1 conn u q = string_script sha1 conn SCRIPT_PRIORITY_POP [AString q, AInt (pq_Priority u)]"

lemma lua_of_scripts:
  "lua_of SCRIPT_LIST_PUSH = Some lua_list_push" "lua_of SCRIPT_GET = Some lua_get" "lua_of SCRIPT_SET = Some lua_set"
  "lua_of SCRIPT_DEL = Some lua_del" "lua_of SCRIPT_LIST_COUNT = Some lua_list_count" "lua_of SCRIPT_LIST_POP = Some lua_list_pop"
  "lua_of SCRIPT_PUSH = Some lua_push" "lua_of SCRIPT_POP = Some lua_pop"
  "lua_of SCRIPT_PRIORITY_PUSH = Some lua_priority_push" "lua_of SCRIPT_PRIORITY_POP = Some lua_priority_pop"
  unfolding lua_of_def SCRIPT_LIST_PUSH_def SCRIPT_GET_def SCRIPT_SET_def SCRIPT_DEL_def SCRIPT_LIST_COUNT_def
    SCRIPT_LIST_POP_def SCRIPT_PUSH_def SCRIPT_POP_def SCRIPT_PRIORITY_PUSH_def SCRIPT_PRIORITY_POP_def
  by simp_all

subsection \<open>What the queue without duplicates does\<close>

lemma list_at_put [simp]:
  "list_at (put_list k xs m) k = Some xs" "k \<noteq> k' \<Longrightarrow> list_at (put_list k xs m) k' = list_at m k'"
  "k \<noteq> k' \<Longrightarrow> list_at (put_set k S m) k' = list_at m k'"
  by (auto simp: list_at_def put_list_def put_set_def)

lemma set_of_key_put [simp]:
  "set_of_key (put_set k S m) k = Some S" "k \<noteq> k' \<Longrightarrow> set_of_key (put_set k S m) k' = set_of_key m k'"
  "k \<noteq> k' \<Longrightarrow> set_of_key (put_list k xs m) k' = set_of_key m k'"
  by (auto simp: set_of_key_def put_list_def put_set_def)

lemma redis_spec_simps [simp]:
  "redis_spec [''LPOP'', k] m = map_option (\<lambda>xs. case xs of [] \<Rightarrow> (RNil, m) | x # xs \<Rightarrow> (RBulk x, put_list k xs m)) (list_at m k)"
  "redis_spec [''LLEN'', k] m = map_option (\<lambda>xs. (RInt (int (length xs)), m)) (list_at m k)"
  "redis_spec [''DEL'', k] m = Some (RInt (if m k = None then 0 else 1), m(k := None))"
  "redis_spec [''GET'', k] m = map_option (\<lambda>v. (case v of None \<Rightarrow> RNil | Some s \<Rightarrow> RBulk s, m)) (str_at m k)"
  "redis_spec [''RPUSH'', k, v] m = map_option (\<lambda>xs. (RInt (int (length xs) + 1), put_list k (xs @ [v]) m)) (list_at m k)"
  "redis_spec [''SADD'', k, v] m = map_option (\<lambda>S. (RInt (if v \<in> S then 0 else 1), put_set k (insert v S) m)) (set_of_key m k)"
  "redis_spec [''SREM'', k, v] m = map_option (\<lambda>S. (RInt (if v \<in> S then 1 else 0), put_set k (S - {v}) m)) (set_of_key m k)"
  "redis_spec [''SET'', k, v] m = Some (RStatus ''OK'', m(k \<mapsto> VStr v))"
  by (simp_all add: redis_spec_def)

text \<open>\<open>queue_is m q xs\<close>: the keys of the queue \<open>q\<close> hold the elements \<open>xs\<close>, each once.\<close>

definition queue_is :: "(string \<rightharpoonup> rvalue) \<Rightarrow> string \<Rightarrow> string list \<Rightarrow> bool" where
  "queue_is m q xs \<longleftrightarrow>
     m q = (if xs = [] then None else Some (VList xs)) \<and>
     m (q @ ''_set'') = (if xs = [] then None else Some (VSet (set xs))) \<and> distinct xs"

lemma queue_isD:
  assumes "queue_is m q xs"
  shows "list_at m q = Some xs" "set_of_key m (q @ ''_set'') = Some (set xs)" "distinct xs"
  using assms by (auto simp: queue_is_def list_at_def set_of_key_def)

lemmas put_defs = put_list_def put_set_def

lemma argv_simps [simp]: "argv (a # as) 1 = LStr a" "argv (a # as) (Suc 0) = LStr a" "argv (a # b # as) 2 = LStr b"
  by (simp_all add: argv_def)

context redis_server
begin

lemma call_rpush:
  "list_at (val r) k = Some xs \<Longrightarrow>
    \<exists>r'. redis_call srv [LStr ''RPUSH'', LStr k, LStr v] r = (Inr (LNum (int (length xs) + 1)), r') \<and> val r' = put_list k (xs @ [v]) (val r)"
  by (rule redis_call_spec [of "[LStr ''RPUSH'', LStr k, LStr v]" r]) auto

lemma call_sadd:
  "set_of_key (val r) k = Some S \<Longrightarrow>
    \<exists>r'. redis_call srv [LStr ''SADD'', LStr k, LStr v] r = (Inr (LNum (if v \<in> S then 0 else 1)), r') \<and> val r' = put_set k (insert v S) (val r)"
  by (rule redis_call_spec [of "[LStr ''SADD'', LStr k, LStr v]" r]) auto

lemma call_srem:
  "set_of_key (val r) k = Some S \<Longrightarrow>
    \<exists>r'. redis_call srv [LStr ''SREM'', LStr k, LStr v] r = (Inr (LNum (if v \<in> S then 1 else 0)), r') \<and> val r' = put_set k (S - {v}) (val r)"
  by (rule redis_call_spec [of "[LStr ''SREM'', LStr k, LStr v]" r]) auto

lemma call_lpop:
  "list_at (val r) k = Some xs \<Longrightarrow>
    \<exists>r'. redis_call srv [LStr ''LPOP'', LStr k] r = (Inr (case xs of [] \<Rightarrow> LBool False | x # _ \<Rightarrow> LStr x), r') \<and>
      val r' = (case xs of [] \<Rightarrow> val r | _ # ys \<Rightarrow> put_list k ys (val r))"
  using call_spec [of "[''LPOP'', k]" r] by (cases xs) (auto simp: redis_call_def)

lemma int_script_run:
  assumes "lua_of src = Some f" "f srv key (map (arg_text True) as) (db w) = (Inr (LNum n), d)" "int64_ok n"
  shows "\<exists>w'. int_script sha1 conn src (AString key # as) w = ((n, None), w') \<and> db w' = d"
  using script_Do_once [OF assms(1,2)] assms(3)
  by (auto simp: int_script_def reply_outcome_def eval_reply_def wrap64_id nil_ok_def Let_def)

lemma string_script_run:
  assumes "lua_of src = Some f" "f srv key (map (arg_text True) as) (db w) = (Inr v, d)"
  shows "v = LStr s \<Longrightarrow> \<exists>w'. string_script sha1 conn src (AString key # as) w = ((s, None), w') \<and> db w' = d"
    "v = LNil \<or> v = LBool False \<Longrightarrow> \<exists>w'. string_script sha1 conn src (AString key # as) w = (([], None), w') \<and> db w' = d"
  using script_Do_once [OF assms]
  by (auto simp: string_script_def reply_outcome_def eval_reply_def nil_ok_def)

lemma string_script_fails:
  assumes "lua_of src = Some f" "f srv key (map (arg_text True) as) (db w) = (Inl (rs_badarg srv), d)"
  shows "\<exists>w'. string_script sha1 conn src (AString key # as) w = (([], Some (ErrServer (rs_badarg srv))), w') \<and> db w' = d"
  using script_Do_once [OF assms] badarg
  by (auto simp: string_script_def reply_outcome_def eval_reply_def nil_ok_def)

lemma UniquePush_frame:
  assumes q: "queue_is (val (db w)) q xs"
  shows "\<exists>w'. UniquePush sha1 conn q v w = ((if v \<in> set xs then 0 else 1, None), w') \<and>
    queue_is (val (db w')) q (if v \<in> set xs then xs else xs @ [v]) \<and>
    (\<forall>k. k \<noteq> q \<and> k \<noteq> q @ ''_set'' \<longrightarrow> val (db w') k = val (db w) k)"
proof -
  note s = queue_isD [OF q]
  obtain d where d: "redis_call srv [LStr ''SADD'', LStr (q @ ''_set''), LStr v] (db w) = (Inr (LNum (if v \<in> set xs then 0 else 1)), d)"
    "val d = put_set (q @ ''_set'') (insert v (set xs)) (val (db w))" using call_sadd [OF s(2)] by blast
  then have l: "list_at (val d) q = Some xs" using s(1) by simp
  obtain d' where d': "redis_call srv [LStr ''RPUSH'', LStr q, LStr v] d = (Inr (LNum (int (length xs) + 1)), d')"
    "val d' = put_list q (xs @ [v]) (val d)" using call_rpush [OF l] by blast
  let ?d = "if v \<in> set xs then d else d'"
  have "lua_push srv q (map (arg_text True) [AString v]) (db w) = (Inr (LNum (if v \<in> set xs then 0 else 1)), ?d)"
    using d(1) d'(1) by (simp add: lua_push_def bindL_def returnL_def)
  moreover have "int64_ok (if v \<in> set xs then 0 else 1)" by (simp add: int64_ok_def)
  ultimately obtain w' where "UniquePush sha1 conn q v w = ((if v \<in> set xs then 0 else 1, None), w')" "db w' = ?d"
    unfolding UniquePush_def using int_script_run [OF lua_of_scripts(7)] by blast
  moreover have "queue_is (val ?d) q (if v \<in> set xs then xs else xs @ [v])"
    using q d(2) d'(2) by (auto simp: queue_is_def put_defs insert_absorb)
  moreover have "val ?d k = val (db w) k" if "k \<noteq> q" "k \<noteq> q @ ''_set''" for k using d(2) d'(2) that by (simp add: put_defs)
  ultimately show ?thesis by (intro exI [of _ w']) (simp only: simp_thms conj_assoc, blast)
qed

lemma UniquePush_run:
  assumes "queue_is (val (db w)) q xs"
  shows "\<exists>w'. UniquePush sha1 conn q v w = ((if v \<in> set xs then 0 else 1, None), w') \<and>
    queue_is (val (db w')) q (if v \<in> set xs then xs else xs @ [v])"
  using UniquePush_frame [OF assms] by blast

lemma UniquePop_run:
  assumes q: "queue_is (val (db w)) q (x # xs)" "x \<noteq> []"
  shows "\<exists>w'. UniquePop sha1 conn q w = ((x, None), w') \<and> queue_is (val (db w')) q xs"
proof -
  note s = queue_isD [OF q(1)]
  obtain d where d: "redis_call srv [LStr ''LPOP'', LStr q] (db w) = (Inr (LStr x), d)" "val d = put_list q xs (val (db w))"
    using call_lpop [OF s(1)] by auto
  then have l: "set_of_key (val d) (q @ ''_set'') = Some (set (x # xs))" using s(2) by simp
  obtain d' where d': "redis_call srv [LStr ''SREM'', LStr (q @ ''_set''), LStr x] d = (Inr (LNum 1), d')"
    "val d' = put_set (q @ ''_set'') (set (x # xs) - {x}) (val d)" using call_srem [OF l, of x] by auto
  have "lua_pop srv q (map (arg_text True) []) (db w) = (Inr (LStr x), d')"
    using d(1) d'(1) q(2) by (simp add: lua_pop_def bindL_def returnL_def)
  from string_script_run(1) [OF lua_of_scripts(8) this refl] obtain w' where
    "UniquePop sha1 conn q w = ((x, None), w')" "db w' = d'" by (auto simp: UniquePop_def)
  moreover have "queue_is (val d') q xs" using s(3) d(2) d'(2) by (auto simp: queue_is_def put_defs)
  ultimately show ?thesis by auto
qed

lemma UniquePop_empty:
  assumes "queue_is (val (db w)) q []"
  shows "\<exists>w'. UniquePop sha1 conn q w = (([], Some (ErrServer (rs_badarg srv))), w') \<and> queue_is (val (db w')) q []"
proof -
  obtain d where d: "redis_call srv [LStr ''LPOP'', LStr q] (db w) = (Inr (LBool False), d)" "val d = val (db w)"
    using call_lpop [of "db w" q "[]"] queue_isD(1) [OF assms] by auto
  have "lua_pop srv q (map (arg_text True) []) (db w) = (Inl (rs_badarg srv), d)"
    using d(1) by (simp add: lua_pop_def bindL_def redis_call_def)
  from string_script_fails [OF lua_of_scripts(8) this] d(2) assms show ?thesis by (auto simp: UniquePop_def)
qed

lemma Length_run:
  assumes "queue_is (val (db w)) q xs"
  shows "\<exists>w'. Length conn q w = (Int_reply (RInt (int (length xs))) None, w') \<and> queue_is (val (db w')) q xs"
  using do_spec [of "''LLEN''" "[q]" w] assms queue_isD(1) [OF assms]
  by (auto simp: Length_def reply_outcome_def simp del: Int_reply.simps)

lemma Clear_run:
  assumes "queue_is (val (db w)) q xs"
  shows "\<exists>w'. Clear conn q w = ((if xs = [] then 0 else 1, None), w') \<and> queue_is (val (db w')) q []"
proof -
  obtain w1 where w1: "conn ''DEL'' [AString q] w = ((RInt (if val (db w) q = None then 0 else 1), None), w1)"
    "val (db w1) = (val (db w))(q := None)" using do_spec [of "''DEL''" "[q]" w] by (auto simp: reply_outcome_def)
  obtain w2 where w2: "conn ''DEL'' [AString (q @ ''_set'')] w1 = ((RInt (if val (db w1) (q @ ''_set'') = None then 0 else 1), None), w2)"
    "val (db w2) = (val (db w1))(q @ ''_set'' := None)" using do_spec [of "''DEL''" "[q @ ''_set'']" w1] by (auto simp: reply_outcome_def)
  have "val (db w1) (q @ ''_set'') = None \<longleftrightarrow> xs = []" using assms w1(2) by (auto simp: queue_is_def)
  then have "Clear conn q w = ((if xs = [] then 0 else 1, None), w2)"
    using w1(1) w2(1) by (auto simp: Clear_def getQueueSet_def Let_def wrap64_def)
  moreover have "queue_is (val (db w2)) q []" by (simp add: queue_is_def w1(2) w2(2))
  ultimately show ?thesis by blast
qed

end

subsection \<open>The queue as a list\<close>

datatype queue_op = QPush string | QPop | QLength | QClear
datatype queue_result = QInt "int outcome" | QStr "string outcome"

fun queue_exec :: "(string \<Rightarrow> string) \<Rightarrow> 's conn_do \<Rightarrow> string \<Rightarrow> queue_op \<Rightarrow> 's \<Rightarrow> queue_result \<times> 's" where
  "queue_exec sha1 conn q (QPush v) w = map_prod QInt id (UniquePush sha1 conn q v w)"
| "queue_exec sha1 conn q QPop w = map_prod QStr id (UniquePop sha1 conn q w)"
| "queue_exec sha1 conn q QLength w = map_prod QInt id (Length conn q w)"
| "queue_exec sha1 conn q QClear w = map_prod QInt id (Clear conn q w)"

fun queue_spec :: "string \<Rightarrow> queue_op \<Rightarrow> string list \<Rightarrow> queue_result \<times> string list" where
  "queue_spec bad (QPush v) xs = (if v \<in> set xs then (QInt (0, None), xs) else (QInt (1, None), xs @ [v]))"
| "queue_spec bad QPop [] = (QStr ([], Some (ErrServer bad)), [])"
| "queue_spec bad QPop (x # xs) = (QStr (x, None), xs)"
| "queue_spec bad QLength xs = (QInt (Int_reply (RInt (int (length xs))) None), xs)"
| "queue_spec bad QClear xs = (QInt (if xs = [] then 0 else 1, None), [])"

fun run_ops :: "('o \<Rightarrow> 'w \<Rightarrow> 'r \<times> 'w) \<Rightarrow> 'o list \<Rightarrow> 'w \<Rightarrow> 'r list \<times> 'w" where
  "run_ops step [] w = ([], w)"
| "run_ops step (x # xs) w = (case step x w of (r, w) \<Rightarrow> case run_ops step xs w of (rs, w) \<Rightarrow> (r # rs, w))"

lemma run_ops_simulates:
  assumes step: "\<And>x w a. x \<in> set xs \<Longrightarrow> R w a \<Longrightarrow>
      \<exists>w'. step x w = (fst (spec x a), w') \<and> R w' (snd (spec x a))" and "R w a"
  shows "\<exists>w'. run_ops step xs w = (fst (run_ops spec xs a), w') \<and> R w' (snd (run_ops spec xs a))"
  using assms
proof (induction xs arbitrary: w a)
  case (Cons x xs)
  from Cons.prems obtain w1 where w1: "step x w = (fst (spec x a), w1)" "R w1 (snd (spec x a))" by force
  have "\<exists>w'. run_ops step xs w1 = (fst (run_ops spec xs (snd (spec x a))), w') \<and> R w' (snd (run_ops spec xs (snd (spec x a))))"
    using Cons.prems(1) by (intro Cons.IH w1(2)) auto
  with w1(1) show ?case by (auto split: prod.splits)
qed simp

context redis_server
begin

lemma queue_exec_spec:
  assumes "queue_is (val (db w)) q xs" "[] \<notin> set xs" "\<And>v. x = QPush v \<Longrightarrow> v \<noteq> []"
  shows "\<exists>w'. queue_exec sha1 conn q x w = (fst (queue_spec (rs_badarg srv) x xs), w') \<and>
    queue_is (val (db w')) q (snd (queue_spec (rs_badarg srv) x xs)) \<and> [] \<notin> set (snd (queue_spec (rs_badarg srv) x xs))"
proof (cases x)
  case (QPush v)
  with UniquePush_run [OF assms(1), of v] assms(2,3) show ?thesis by auto
next
  case QPop
  with UniquePop_run [of w q] UniquePop_empty [of w q] assms show ?thesis by (cases xs) fastforce+
next
  case QLength
  with Length_run [OF assms(1)] assms(2) show ?thesis by (auto simp del: Int_reply.simps)
next
  case QClear
  with Clear_run [OF assms(1)] show ?thesis by auto
qed

end



subsection \<open>What the queue with priorities does\<close>

definition prio_key :: "string \<Rightarrow> int \<Rightarrow> string" where
  "prio_key q i = q @ ''_'' @ Itoa i"

definition waiting :: "(int \<Rightarrow> string list) \<Rightarrow> string set" where
  "waiting P = (\<Union>i. set (P i))"

text \<open>\<open>prio_is m q P\<close>: the keys of \<open>q\<close> hold the lists \<open>P\<close>, and the set of \<open>q\<close> all their elements.\<close>

definition prio_is :: "(string \<rightharpoonup> rvalue) \<Rightarrow> string \<Rightarrow> (int \<Rightarrow> string list) \<Rightarrow> bool" where
  "prio_is m q P \<longleftrightarrow>
     (\<forall>i. int64_ok i \<longrightarrow> list_at m (prio_key q i) = Some (P i)) \<and>
     set_of_key m (q @ ''_set'') = Some (waiting P) \<and>
     (\<forall>i. distinct (P i)) \<and> (\<forall>i j. i \<noteq> j \<longrightarrow> set (P i) \<inter> set (P j) = {})"

lemma Itoa_inj: "int64_ok i \<Longrightarrow> int64_ok j \<Longrightarrow> Itoa i = Itoa j \<longleftrightarrow> i = j"
  by (metis ParseInt_Itoa prod.inject)

lemma Itoa_not_set: "Itoa i \<noteq> ''set''"
proof
  assume s: "Itoa i = ''set''"
  then have "0 \<le> i" by (auto simp: Itoa_def split: if_splits)
  with s is_digit_digits_of [of "nat i"] show False by (simp add: Itoa_def is_digit_def)
qed

lemma prio_key_neq [simp]:
  "prio_key q i \<noteq> q @ ''_set''" "int64_ok i \<Longrightarrow> int64_ok j \<Longrightarrow> prio_key q i = prio_key q j \<longleftrightarrow> i = j"
  using Itoa_not_set [of i] by (auto simp: prio_key_def Itoa_inj)

lemma waiting_upd: "waiting (P(i := xs)) = (\<Union>j\<in>-{i}. set (P j)) \<union> set xs"
  by (auto simp: waiting_def split: if_splits)

lemma waiting_push: "waiting (P(i := P i @ [v])) = insert v (waiting P)"
  by (auto simp: waiting_def split: if_splits)

lemma prio_is_push:
  assumes "prio_is m q P" "int64_ok p" "v \<notin> waiting P"
    "m' = put_list (prio_key q p) (P p @ [v]) (put_set (q @ ''_set'') (insert v (waiting P)) m)"
  shows "prio_is m' q (P(p := P p @ [v]))"
proof -
  have neq: "q @ ''_set'' \<noteq> prio_key q i" for i using prio_key_neq(1) [of q i] by metis
  have "list_at m' (prio_key q i) = Some ((P(p := P p @ [v])) i)" if "int64_ok i" for i
    using assms that neq by (cases "i = p") (auto simp: prio_is_def)
  moreover have "set_of_key m' (q @ ''_set'') = Some (waiting (P(p := P p @ [v])))"
    using assms(4) by (simp add: waiting_push)
  moreover have "distinct ((P(p := P p @ [v])) i)" for i using assms by (auto simp: prio_is_def waiting_def)
  moreover have "set ((P(p := P p @ [v])) i) \<inter> set ((P(p := P p @ [v])) j) = {}" if "i \<noteq> j" for i j
    using assms that by (auto simp: prio_is_def waiting_def)
  ultimately show ?thesis by (auto simp: prio_is_def)
qed

lemma prio_is_pop:
  assumes "prio_is m q P" "int64_ok p" "P p = x # xs"
    "m' = put_set (q @ ''_set'') (waiting P - {x}) (put_list (prio_key q p) xs m)"
  shows "prio_is m' q (P(p := xs))"
proof -
  have neq: "q @ ''_set'' \<noteq> prio_key q i" for i using prio_key_neq(1) [of q i] by metis
  have d: "distinct (P i)" "i \<noteq> j \<Longrightarrow> set (P i) \<inter> set (P j) = {}" for i j using assms(1) by (auto simp: prio_is_def)
  have "list_at m' (prio_key q i) = Some ((P(p := xs)) i)" if "int64_ok i" for i
    using assms that neq by (cases "i = p") (auto simp: prio_is_def)
  moreover have "waiting (P(p := xs)) = waiting P - {x}"
  proof -
    have "x \<notin> set (P j)" if "j \<noteq> p" for j using d(2) [OF that] assms(3) by auto
    moreover have "x \<notin> set xs" using d(1) [of p] assms(3) by simp
    moreover have "waiting P = (\<Union>j\<in>-{p}. set (P j)) \<union> set (P p)" using waiting_upd [of P p "P p"] by simp
    ultimately show ?thesis using assms(3) by (auto simp: waiting_upd)
  qed
  moreover have "distinct ((P(p := xs)) i)" for i using d(1) [of p] d(1) [of i] assms(3) by simp
  moreover have "set ((P(p := xs)) i) \<inter> set ((P(p := xs)) j) = {}" if "i \<noteq> j" for i j
    using d(2) [OF that] assms(3) by (auto split: if_splits)
  ultimately show ?thesis using assms(4) by (auto simp: prio_is_def)
qed

text \<open>The first priority from \<open>i\<close> on, of \<open>n\<close>, that has an element.\<close>

fun first_prio :: "(int \<Rightarrow> string list) \<Rightarrow> int \<Rightarrow> nat \<Rightarrow> int option" where
  "first_prio P i 0 = None"
| "first_prio P i (Suc n) = (if P i = [] then first_prio P (i + 1) n else Some i)"

lemma first_prio_range: "first_prio P i n = Some p \<Longrightarrow> i \<le> p \<and> p < i + int n \<and> P p \<noteq> [] \<and> (\<forall>j. i \<le> j \<and> j < p \<longrightarrow> P j = [])"
proof (induction n arbitrary: i)
  case (Suc n)
  show ?case
  proof (cases "P i = []")
    case True
    with Suc.prems have "first_prio P (i + 1) n = Some p" by simp
    from Suc.IH [OF this] have ih: "i + 1 \<le> p" "p < i + 1 + int n" "P p \<noteq> []" "\<forall>j. i + 1 \<le> j \<and> j < p \<longrightarrow> P j = []" by auto
    have "P j = []" if "i \<le> j" "j < p" for j using that True ih(4) by (cases "j = i") auto
    with ih show ?thesis by auto
  next
    case False
    with Suc.prems show ?thesis by auto
  qed
qed simp

lemma first_prio_None: "first_prio P i n = None \<longleftrightarrow> (\<forall>j \<in> {i..<i + int n}. P j = [])"
proof (induction n arbitrary: i)
  case (Suc n)
  have "{i..<i + int (Suc n)} = insert i {i + 1..<i + 1 + int n}" by auto
  with Suc.IH [of "i + 1"] show ?case by simp
qed simp

context redis_server
begin

lemma priority_loop_run:
  assumes "prio_is (val r) q P" "1 \<le> i" "i + int n \<le> 2 ^ 63"
  shows "\<exists>r'. priority_loop srv q i n r =
      (Inr (case first_prio P i n of None \<Rightarrow> LNil | Some p \<Rightarrow> LStr (hd (P p))), r') \<and>
    prio_is (val r') q (case first_prio P i n of None \<Rightarrow> P | Some p \<Rightarrow> P(p := tl (P p)))"
  using assms
proof (induction n arbitrary: i r)
  case 0
  then show ?case by (simp add: returnL_def)
next
  case (Suc n)
  have ok: "int64_ok i" using Suc.prems by (simp add: int64_ok_def)
  then have l: "list_at (val r) (prio_key q i) = Some (P i)" using Suc.prems(1) by (simp add: prio_is_def)
  show ?case
  proof (cases "P i")
    case Nil
    obtain d where d: "redis_call srv [LStr ''LPOP'', LStr (prio_key q i)] r = (Inr (LBool False), d)" "val d = val r"
      using call_lpop [OF l] Nil by auto
    with Suc.IH [of d "i + 1"] Suc.prems Nil show ?thesis by (simp add: bindL_def prio_key_def)
  next
    case (Cons x xs)
    obtain d where d: "redis_call srv [LStr ''LPOP'', LStr (prio_key q i)] r = (Inr (LStr x), d)" "val d = put_list (prio_key q i) xs (val r)"
      using call_lpop [OF l] Cons by auto
    have "set_of_key (val d) (q @ ''_set'') = Some (waiting P)" using Suc.prems(1) d(2) by (simp add: prio_is_def)
    from call_srem [OF this, of x] obtain v d' where d': "redis_call srv [LStr ''SREM'', LStr (q @ ''_set''), LStr x] d = (Inr v, d')"
      "val d' = put_set (q @ ''_set'') (waiting P - {x}) (val d)" by auto
    have "prio_is (val d') q (P(i := xs))" by (rule prio_is_pop [OF Suc.prems(1) ok Cons]) (simp add: d d')
    with d(1) d'(1) Cons show ?thesis by (simp add: bindL_def returnL_def prio_key_def fun_upd_def)
  qed
qed

lemma pq_Pop_run:
  assumes "prio_is (val (db w)) q P" "int64_ok (pq_Priority u)"
  shows "\<exists>w'. pq_Pop sha1 conn u q w =
      ((case first_prio P 1 (nat (pq_Priority u)) of None \<Rightarrow> [] | Some p \<Rightarrow> hd (P p), None), w') \<and>
    prio_is (val (db w')) q (case first_prio P 1 (nat (pq_Priority u)) of None \<Rightarrow> P | Some p \<Rightarrow> P(p := tl (P p)))"
proof -
  let ?n = "nat (pq_Priority u)" let ?p = "first_prio P 1 ?n"
  have "1 + int ?n \<le> 2 ^ 63" using assms(2) by (auto simp: int64_ok_def)
  from priority_loop_run [OF assms(1) order.refl this] obtain d where
    d: "priority_loop srv q 1 ?n (db w) = (Inr (case ?p of None \<Rightarrow> LNil | Some p \<Rightarrow> LStr (hd (P p))), d)"
      "prio_is (val d) q (case ?p of None \<Rightarrow> P | Some p \<Rightarrow> P(p := tl (P p)))" by blast
  have run: "lua_priority_pop srv q (map (arg_text True) [AInt (pq_Priority u)]) (db w) =
    (Inr (case ?p of None \<Rightarrow> LNil | Some p \<Rightarrow> LStr (hd (P p))), d)"
    using d(1) by (simp add: lua_priority_pop_def ParseInt_Itoa assms(2))
  have "\<exists>w'. pq_Pop sha1 conn u q w = ((case ?p of None \<Rightarrow> [] | Some p \<Rightarrow> hd (P p), None), w') \<and> db w' = d"
    using string_script_run [OF lua_of_scripts(10) run] unfolding pq_Pop_def by (cases ?p) simp_all
  with d(2) show ?thesis by blast
qed

lemma pq_Push_run:
  assumes "prio_is (val (db w)) q P" "int64_ok p"
  shows "\<exists>w'. pq_Push sha1 conn u q v p w = ((if v \<in> waiting P then 0 else 1, None), w') \<and>
    prio_is (val (db w')) q (if v \<in> waiting P then P else P(p := P p @ [v]))"
proof -
  have s: "list_at (val (db w)) (prio_key q p) = Some (P p)" "set_of_key (val (db w)) (q @ ''_set'') = Some (waiting P)"
    using assms by (auto simp: prio_is_def)
  have neq: "q @ ''_set'' \<noteq> prio_key q i" for i using prio_key_neq(1) [of q i] by metis
  obtain d where d: "redis_call srv [LStr ''SADD'', LStr (q @ ''_set''), LStr v] (db w) = (Inr (LNum (if v \<in> waiting P then 0 else 1)), d)"
    "val d = put_set (q @ ''_set'') (insert v (waiting P)) (val (db w))" using call_sadd [OF s(2)] by blast
  have l: "list_at (val d) (prio_key q p) = Some (P p)" using s(1) d(2) neq by simp
  obtain d' where d': "redis_call srv [LStr ''RPUSH'', LStr (prio_key q p), LStr v] d = (Inr (LNum (int (length (P p)) + 1)), d')"
    "val d' = put_list (prio_key q p) (P p @ [v]) (val d)" using call_rpush [OF l] by blast
  let ?d = "if v \<in> waiting P then d else d'"
  have "lua_priority_push srv q (map (arg_text True) [AString v, AInt p]) (db w) = (Inr (LNum (if v \<in> waiting P then 0 else 1)), ?d)"
    using d(1) d'(1) by (simp add: lua_priority_push_def bindL_def returnL_def concat_arg_def prio_key_def)
  moreover have "int64_ok (if v \<in> waiting P then 0 else 1)" by (simp add: int64_ok_def)
  ultimately obtain w' where w': "pq_Push sha1 conn u q v p w = ((if v \<in> waiting P then 0 else 1, None), w')" "db w' = ?d"
    unfolding pq_Push_def using int_script_run [OF lua_of_scripts(9)] by blast
  have "prio_is (val ?d) q (if v \<in> waiting P then P else P(p := P p @ [v]))"
  proof (cases "v \<in> waiting P")
    case True
    then have "insert v (waiting P) = waiting P" by (rule insert_absorb)
    with True assms(1) show ?thesis by (simp add: prio_is_def d(2) neq)
  next
    case False
    have "prio_is (val d') q (P(p := P p @ [v]))" by (rule prio_is_push [OF assms False]) (simp only: d(2) d'(2))
    with False show ?thesis by (simp only: if_False)
  qed
  then have "prio_is (val (db w')) q (if v \<in> waiting P then P else P(p := P p @ [v]))" unfolding w'(2) .
  with w'(1) show ?thesis by blast
qed

end

text \<open>C19. The queue with priorities. A push of an element that waits at any priority is refused with 0, any other is
  appended to its priority. A pop returns the oldest element of the first priority from 1 to \<open>Priority\<close> that has one,
  and without an element there the empty string and no error: what was pushed with another priority is never popped.\<close>

theorem priority_queue_correct:
  assumes "redis_server sha1 conn srv db val" "prio_is (val (db w)) q P" "int64_ok p" "pq_Priority u < 10 ^ 14" "int64_ok (pq_Priority u)"
  shows "(\<exists>w'. pq_Push sha1 conn u q v p w = ((if v \<in> waiting P then 0 else 1, None), w') \<and>
      prio_is (val (db w')) q (if v \<in> waiting P then P else P(p := P p @ [v]))) \<and>
    (\<exists>w'. if \<exists>i \<in> {1..pq_Priority u}. P i \<noteq> []
      then (let i = LEAST i. 1 \<le> i \<and> P (int i) \<noteq> [] in
        pq_Pop sha1 conn u q w = ((hd (P (int i)), None), w') \<and> prio_is (val (db w')) q (P(int i := tl (P (int i)))))
      else pq_Pop sha1 conn u q w = (([], None), w') \<and> prio_is (val (db w')) q P)"
proof -
  let ?p = "first_prio P 1 (nat (pq_Priority u))"
  obtain w' where w': "pq_Pop sha1 conn u q w = ((case ?p of None \<Rightarrow> [] | Some p \<Rightarrow> hd (P p), None), w')"
    "prio_is (val (db w')) q (case ?p of None \<Rightarrow> P | Some p \<Rightarrow> P(p := tl (P p)))"
    using redis_server.pq_Pop_run [OF assms(1,2,5)] by blast
  have none: "?p = None \<longleftrightarrow> \<not> (\<exists>i \<in> {1..pq_Priority u}. P i \<noteq> [])"
    using first_prio_None [of P 1 "nat (pq_Priority u)"] by auto
  have least: "(LEAST i. 1 \<le> i \<and> P (int i) \<noteq> []) = nat i \<and> int (nat i) = i" if "?p = Some i" for i
  proof -
    note r = first_prio_range [OF that]
    have "(LEAST i. 1 \<le> i \<and> P (int i) \<noteq> []) = nat i"
    proof (rule Least_equality)
      show "nat i \<le> j" if "1 \<le> j \<and> P (int j) \<noteq> []" for j using r that by (metis nat_le_iff not_less of_nat_1 of_nat_mono)
    qed (use r in auto)
    then show ?thesis using r by simp
  qed
  show ?thesis
  proof (rule conjI)
    show "\<exists>w'. pq_Push sha1 conn u q v p w = ((if v \<in> waiting P then 0 else 1, None), w') \<and>
      prio_is (val (db w')) q (if v \<in> waiting P then P else P(p := P p @ [v]))"
      by (rule redis_server.pq_Push_run [OF assms(1,2,3)])
    show "\<exists>w'. if \<exists>i \<in> {1..pq_Priority u}. P i \<noteq> []
      then (let i = LEAST i. 1 \<le> i \<and> P (int i) \<noteq> [] in
        pq_Pop sha1 conn u q w = ((hd (P (int i)), None), w') \<and> prio_is (val (db w')) q (P(int i := tl (P (int i)))))
      else pq_Pop sha1 conn u q w = (([], None), w') \<and> prio_is (val (db w')) q P"
      by (rule exI [of _ w']) (use w' none least in \<open>cases ?p; simp add: Let_def\<close>)
  qed
qed

definition ex_lists :: "int \<Rightarrow> string list" where
  "ex_lists = (\<lambda>_. [])(2 := [''a''])"

definition ex_keys :: "string \<rightharpoonup> rvalue" where
  "ex_keys = [''q_2'' \<mapsto> VList [''a''], ''q_set'' \<mapsto> VSet {''a''}]"

lemma ex_prio: "prio_is ex_keys ''q'' ex_lists"
proof -
  have "prio_is Map.empty ''q'' (\<lambda>_. [])" by (simp add: prio_is_def waiting_def list_at_def set_of_key_def)
  then have "prio_is (put_list (prio_key ''q'' 2) ([] @ [''a'']) (put_set (''q'' @ ''_set'') (insert ''a'' (waiting (\<lambda>_. []))) Map.empty))
      ''q'' ((\<lambda>_. [])(2 := [] @ [''a'']))"
    by (rule prio_is_push [OF _ _ _ refl]) (simp_all add: int64_ok_def waiting_def)
  moreover have "prio_key ''q'' 2 = ''q_2''" by code_simp
  ultimately show ?thesis by (simp add: ex_keys_def ex_lists_def put_defs waiting_def fun_upd_twist)
qed

theorem priority_queue_correct_witness:
  "(\<exists>w'. pq_Push (\<lambda>s. s) mem_conn (NewPriorityQueue 3 True) ''q'' ''a'' 1 ex_keys = ((0, None), w')) \<and>
   (\<exists>w'. pq_Pop (\<lambda>s. s) mem_conn (NewPriorityQueue 3 True) ''q'' ex_keys = ((''a'', None), w'))"
proof -
  have u: "pq_Priority (NewPriorityQueue 3 True) < 10 ^ 14" "int64_ok (pq_Priority (NewPriorityQueue 3 True))" "int64_ok 1"
    by (simp_all add: NewPriorityQueue_def int64_ok_def)
  have least: "(LEAST i::nat. 1 \<le> i \<and> ex_lists (int i) \<noteq> []) = 2"
    by (rule Least_equality) (auto simp: ex_lists_def split: if_splits)
  have "\<exists>i \<in> {1..pq_Priority (NewPriorityQueue 3 True)}. ex_lists i \<noteq> []" "''a'' \<in> waiting ex_lists"
    by (auto simp: NewPriorityQueue_def ex_lists_def waiting_def)
  with priority_queue_correct [of "\<lambda>s. s" mem_conn mem_srv "\<lambda>m. m" "\<lambda>m. m" ex_keys "''q''" ex_lists 1 "NewPriorityQueue 3 True" "''a''"]
    mem.redis_server_axioms ex_prio u least show ?thesis by (auto simp: Let_def ex_lists_def)
qed

subsection \<open>What the operations on keys and lists do\<close>

context redis_server
begin

lemma GetKey_run:
  assumes "str_at (val (db w)) k = Some v"
  shows "\<exists>w'. GetKey sha1 conn k w = ((case v of None \<Rightarrow> [] | Some s \<Rightarrow> s, None), w') \<and> val (db w') = val (db w)"
proof -
  obtain d where d: "redis_call srv [LStr ''GET'', LStr k] (db w) = (Inr (case v of None \<Rightarrow> LBool False | Some s \<Rightarrow> LStr s), d)"
    "val d = val (db w)" using call_spec [of "[''GET'', k]" "db w"] assms by (cases v) (auto simp: redis_call_def)
  then have "lua_get srv k (map (arg_text True) []) (db w) = (Inr (case v of None \<Rightarrow> LBool False | Some s \<Rightarrow> LStr s), d)"
    by (simp add: lua_get_def)
  from string_script_run [OF lua_of_scripts(2) this] d(2) show ?thesis by (cases v) (auto simp: GetKey_def)
qed

text \<open>\<open>SetKey\<close> stores the value, but reports an error each time: the status of \<open>SET\<close> is no integer.\<close>

lemma SetKey_run:
  "\<exists>w'. SetKey sha1 conn k v w = ((0, Some (unexpected_type ''Int'' (RStatus ''OK''))), w') \<and>
     val (db w') = (val (db w))(k \<mapsto> VStr v)"
proof -
  obtain d where d: "redis_call srv [LStr ''SET'', LStr k, LStr v] (db w) = (Inr (LTable (RStatus ''OK'')), d)"
    "val d = (val (db w))(k \<mapsto> VStr v)" using call_spec [of "[''SET'', k, v]" "db w"] by (auto simp: redis_call_def)
  then have "lua_set srv k (map (arg_text True) [AString v]) (db w) = (Inr (LTable (RStatus ''OK'')), d)"
    by (simp add: lua_set_def)
  from script_Do_once [OF lua_of_scripts(3) this] d(2) show ?thesis
    by (auto simp: SetKey_def int_script_def reply_outcome_def eval_reply_def nil_ok_def unexpected_type_def)
qed

text \<open>\<open>DelKey\<close> deletes the key, but reports an error each time: the count of \<open>DEL\<close> is no string.\<close>

lemma DelKey_run:
  "\<exists>w' n. DelKey sha1 conn k w = (([], Some (unexpected_type ''String'' (RInt n))), w') \<and> val (db w') = (val (db w))(k := None)"
proof -
  obtain d n where d: "redis_call srv [LStr ''DEL'', LStr k] (db w) = (Inr (LNum n), d)"
    "val d = (val (db w))(k := None)" using call_spec [of "[''DEL'', k]" "db w"] by (auto simp: redis_call_def)
  then have "lua_del srv k (map (arg_text True) []) (db w) = (Inr (LNum n), d)" by (simp add: lua_del_def)
  from script_Do_once [OF lua_of_scripts(4) this] d(2) show ?thesis
    by (auto simp: DelKey_def string_script_def reply_outcome_def eval_reply_def nil_ok_def unexpected_type_def)
qed

lemma ListPush_run:
  assumes "list_at (val (db w)) q = Some xs" "int64_ok (int (length xs) + 1)"
  shows "\<exists>w'. ListPush sha1 conn q v w = ((int (length xs) + 1, None), w') \<and> val (db w') = put_list q (xs @ [v]) (val (db w))"
proof -
  obtain d where d: "redis_call srv [LStr ''RPUSH'', LStr q, LStr v] (db w) = (Inr (LNum (int (length xs) + 1)), d)"
    "val d = put_list q (xs @ [v]) (val (db w))" using call_rpush [OF assms(1)] by blast
  then have "lua_list_push srv q (map (arg_text True) [AString v]) (db w) = (Inr (LNum (int (length xs) + 1)), d)"
    by (simp add: lua_list_push_def)
  from int_script_run [OF lua_of_scripts(1) this assms(2)] d(2) show ?thesis by (auto simp: ListPush_def)
qed

text \<open>An element that is the empty string is popped, but reported as an error: the script answers 0 for it.\<close>

lemma ListPop_run:
  assumes "list_at (val (db w)) q = Some xs"
  shows "\<exists>w'. ListPop sha1 conn q w =
      ((case xs of [] \<Rightarrow> ([], None) | x # _ \<Rightarrow> (x, if x = [] then Some (unexpected_type ''String'' (RInt 0)) else None)), w') \<and>
    val (db w') = (case xs of [] \<Rightarrow> val (db w) | _ # ys \<Rightarrow> put_list q ys (val (db w)))"
proof -
  let ?v = "case xs of [] \<Rightarrow> LBool False | x # _ \<Rightarrow> if x = [] then LNum 0 else LStr x"
  obtain d where d: "redis_call srv [LStr ''LPOP'', LStr q] (db w) = (Inr (case xs of [] \<Rightarrow> LBool False | x # _ \<Rightarrow> LStr x), d)"
    "val d = (case xs of [] \<Rightarrow> val (db w) | _ # ys \<Rightarrow> put_list q ys (val (db w)))" using call_lpop [OF assms] by blast
  then have run: "lua_list_pop srv q (map (arg_text True) []) (db w) = (Inr ?v, d)"
    by (auto simp: lua_list_pop_def bindL_def returnL_def split: list.splits)
  have "\<And>e. eval_reply (Inr ?v) \<noteq> RError e" by (auto simp: eval_reply_def split: list.splits)
  with script_Do_once [OF lua_of_scripts(6) run] obtain w' where
    "script_Do conn (NewScript sha1 1 SCRIPT_LIST_POP) [AString q] w = (reply_outcome (eval_reply (Inr ?v)), w')" "db w' = d" by auto
  with d(2) show ?thesis
    by (cases xs) (auto simp: ListPop_def string_script_def reply_outcome_def eval_reply_def nil_ok_def unexpected_type_def)
qed

end

end
