(* ===== verification/Kafka_Bytes.thy ===== *)
theory Kafka_Bytes
  imports Go_Prelude
begin

section \<open>Fixed-width and variable-length integers (package encoding/binary)\<close>

text \<open>
  What the Kafka codec uses of \<open>encoding/binary\<close>: big-endian integers of \<open>k\<close> bytes and the
  zig-zag variable-length integers. An \<open>int16\<close>, \<open>int32\<close> or \<open>int64\<close> is an \<^typ>\<open>int\<close> in its range
  (\<open>sint_ok\<close>); the conversions between widths wrap around (\<open>swrap\<close>).
\<close>

definition swrap :: "nat \<Rightarrow> int \<Rightarrow> int" where
  "swrap w n = (n + 2 ^ (w - 1)) mod 2 ^ w - 2 ^ (w - 1)"

definition sint_ok :: "nat \<Rightarrow> int \<Rightarrow> bool" where
  "sint_ok w n \<longleftrightarrow> - (2 ^ (w - 1)) \<le> n \<and> n < 2 ^ (w - 1)"

fun be :: "nat \<Rightarrow> int \<Rightarrow> string" where
  "be 0 n = []"
| "be (Suc k) n = be k (n div 256) @ [byte (n mod 256)]"

definition unbe :: "string \<Rightarrow> int" where
  "unbe s = foldl (\<lambda>n c. n * 256 + rn c) 0 s"

text \<open>\<open>binary.PutUvarint\<close> and \<open>binary.PutVarint\<close>: the bytes written.\<close>

function put_uvarint :: "int \<Rightarrow> string" where
  "put_uvarint u = (if 128 \<le> u then byte (u mod 128 + 128) # put_uvarint (u div 128) else [byte u])"
  by pat_completeness auto
termination
  by (relation "measure nat") auto

declare put_uvarint.simps [simp del]

definition zigzag :: "int \<Rightarrow> int" where
  "zigzag n = (if n < 0 then - 2 * n - 1 else 2 * n)"

definition put_varint :: "int \<Rightarrow> string" where
  "put_varint n = put_uvarint (zigzag n)"

text \<open>
  \<open>binary.Uvarint\<close>: the value and the number of bytes read, \<open>0\<close> when the buffer is too small and negative
  on overflow; \<open>i\<close> bytes with the value \<open>x\<close> have been read.
\<close>

fun uvarint :: "nat \<Rightarrow> int \<Rightarrow> string \<Rightarrow> int \<times> int" where
  "uvarint i x [] = (0, 0)"
| "uvarint i x (b # s) =
     (if rn b < 128 then
        (if 9 < i \<or> i = 9 \<and> 1 < rn b then (0, - (int i + 1))
         else (x + rn b * 2 ^ (7 * i), int i + 1))
      else uvarint (Suc i) (x + (rn b - 128) * 2 ^ (7 * i)) s)"

definition unzigzag :: "int \<Rightarrow> int" where
  "unzigzag u = (if u mod 2 = 1 then - (u div 2) - 1 else u div 2)"

definition varint :: "string \<Rightarrow> int \<times> int" where
  "varint s = (case uvarint 0 0 s of (u, n) \<Rightarrow> (unzigzag u, n))"

subsection \<open>Round trips\<close>

lemma length_be [simp]: "length (be k n) = k"
  by (induction k arbitrary: n) auto

lemma unbe_Nil [simp]: "unbe [] = 0"
  by (simp add: unbe_def)

lemma unbe_snoc [simp]: "unbe (s @ [c]) = unbe s * 256 + rn c"
  by (simp add: unbe_def)

lemma unbe_be: "unbe (be k n) = n mod 256 ^ k"
proof (induction k arbitrary: n)
  case (Suc k)
  have "n mod (256 * 256 ^ k) = 256 * (n div 256 mod 256 ^ k) + n mod 256"
    by (rule mod_mult2_eq' [of n 256 "256 ^ k", simplified])
  then show ?case by (simp add: Suc rn_byte)
qed simp

lemma unbe_range: "0 \<le> unbe s \<and> unbe s < 256 ^ length s"
proof (induction s rule: rev_induct)
  case (snoc c s)
  then show ?case using rn_range [of c] by simp
qed simp

lemma swrap_id: "sint_ok w n \<Longrightarrow> 0 < w \<Longrightarrow> swrap w n = n"
proof -
  assume ok: "sint_ok w n" and w: "0 < w"
  have p: "(2 :: int) ^ w = 2 ^ (w - 1) + 2 ^ (w - 1)"
    using w by (cases w) auto
  have "(n + 2 ^ (w - 1)) mod 2 ^ w = n + 2 ^ (w - 1)"
    using ok p by (intro mod_pos_pos_trivial) (auto simp: sint_ok_def)
  then show ?thesis by (simp add: swrap_def)
qed

lemma swrap_mod: "swrap w (n mod 2 ^ w) = swrap w n"
  by (simp add: swrap_def mod_add_left_eq)

lemma sint_ok_swrap: "0 < w \<Longrightarrow> sint_ok w (swrap w n)"
proof -
  assume w: "0 < w"
  have p: "(2 :: int) ^ w = 2 ^ (w - 1) + 2 ^ (w - 1)"
    using w by (cases w) auto
  have "0 \<le> (n + 2 ^ (w - 1)) mod 2 ^ w" "(n + 2 ^ (w - 1)) mod 2 ^ w < 2 ^ w" by simp_all
  then show ?thesis using p by (simp add: sint_ok_def swrap_def)
qed

lemma signed_be: "sint_ok (8 * k) n \<Longrightarrow> 0 < k \<Longrightarrow> swrap (8 * k) (unbe (be k n)) = n"
proof -
  assume ok: "sint_ok (8 * k) n" and k: "0 < k"
  have "(256 :: int) ^ k = 2 ^ (8 * k)" by (simp add: power_mult)
  then show ?thesis using ok k by (simp add: unbe_be swrap_mod swrap_id)
qed

lemma zigzag_nonneg: "0 \<le> zigzag n"
  by (simp add: zigzag_def)

lemma unzigzag_zigzag [simp]: "unzigzag (zigzag n) = n"
  by (auto simp: zigzag_def unzigzag_def)

lemma put_uvarint_nonempty [simp]: "put_uvarint u \<noteq> []"
  by (subst put_uvarint.simps) simp

lemma uvarint_put:
  "0 \<le> u \<Longrightarrow> u * 2 ^ (7 * i) < 2 ^ 64 \<Longrightarrow> i \<le> 9 \<Longrightarrow>
    uvarint i x (put_uvarint u @ s) = (x + u * 2 ^ (7 * i), int i + int (length (put_uvarint u)))"
proof (induction u arbitrary: i x rule: put_uvarint.induct)
  case (1 u)
  show ?case
  proof (cases "128 \<le> u")
    case False
    have small: "\<not> (i = 9 \<and> 1 < u)" using "1.prems" by auto
    have "rn (byte u) = u" using False "1.prems" by (intro rn_byte_small) auto
    then show ?thesis using False "1.prems" small by (subst (1 2) put_uvarint.simps) auto
  next
    case True
    have r: "rn (byte (u mod 128 + 128)) = u mod 128 + 128"
      by (rule rn_byte_small) (auto simp: add.commute pos_mod_bound add_strict_right_mono)
    have nonneg: "\<not> u mod 128 < 0" by simp
    have bound: "u div 128 * 2 ^ (7 * Suc i) \<le> u * 2 ^ (7 * i)"
    proof -
      have "u div 128 * 2 ^ (7 * Suc i) = (128 * (u div 128)) * 2 ^ (7 * i)"
        by (simp add: power_add)
      also have "\<dots> \<le> u * 2 ^ (7 * i)" by (intro mult_right_mono) auto
      finally show ?thesis .
    qed
    have i: "i < 9"
    proof (rule ccontr)
      assume "\<not> i < 9"
      then have "i = 9" using "1.prems" by simp
      then show False using True "1.prems" by simp
    qed
    have IH: "uvarint (Suc i) (x + u mod 128 * 2 ^ (7 * i)) (put_uvarint (u div 128) @ s) =
        (x + u mod 128 * 2 ^ (7 * i) + u div 128 * 2 ^ (7 * Suc i), int (Suc i) + int (length (put_uvarint (u div 128))))"
      using True "1.prems" bound i by (intro "1.IH") auto
    have val: "u mod 128 * 2 ^ (7 * i) + u div 128 * 2 ^ (7 * Suc i) = u * 2 ^ (7 * i)"
    proof -
      have "(2 :: int) ^ (7 * Suc i) = 128 * 2 ^ (7 * i)" by (simp add: power_add)
      moreover have "u mod 128 * p + u div 128 * (128 * p) = (u mod 128 + 128 * (u div 128)) * p" for p :: int
        by (simp only: distrib_right distrib_left mult_ac)
      ultimately show ?thesis by simp
    qed
    have "uvarint i x (put_uvarint u @ s) =
        uvarint (Suc i) (x + u mod 128 * 2 ^ (7 * i)) (put_uvarint (u div 128) @ s)"
      using True nonneg by (subst put_uvarint.simps) (simp add: r)
    moreover have "length (put_uvarint u) = Suc (length (put_uvarint (u div 128)))"
      using True by (subst put_uvarint.simps) simp
    ultimately show ?thesis using IH val by (simp add: add.assoc)
  qed
qed

lemma varint_put: "sint_ok 64 n \<Longrightarrow> varint (put_varint n @ s) = (n, int (length (put_varint n)))"
proof -
  assume ok: "sint_ok 64 n"
  have "zigzag n * 2 ^ (7 * 0) < 2 ^ 64" using ok by (auto simp: zigzag_def sint_ok_def)
  from uvarint_put [OF zigzag_nonneg this, of 0 s] show ?thesis by (simp add: varint_def put_varint_def)
qed

lemma put_varint_nonempty [simp]: "put_varint n \<noteq> []"
  by (simp add: put_varint_def)

lemma uvarint_count: "snd (uvarint i x s) = 0 \<or> int i < \<bar>snd (uvarint i x s)\<bar> \<and> \<bar>snd (uvarint i x s)\<bar> \<le> int i + int (length s)"
  by (induction i x s rule: uvarint.induct) auto

end
