(* ===== verification/Kafka_Encoder.thy ===== *)
theory Kafka_Encoder
  imports Kafka_Bytes
begin

section \<open>The two-pass packet encoder (kafka/prep_encoder.go, real_encoder.go)\<close>

text \<open>
  The method \<open>encode(pe packetEncoder)\<close> of a message is the sequence of the calls it makes on \<open>pe\<close>: a
  list of \<open>etree\<close>. A \<open>push\<close> with the \<open>pop\<close> that closes it is a frame around the calls between them, and
  \<open>EFail\<close> is an error that the message itself returns. \<open>encode\<close> runs the sequence twice: \<open>prepEncoder\<close>
  counts the bytes, then \<open>realEncoder\<close> writes into a buffer of exactly that many bytes. A frame with a
  variable-length length is an object whose field \<open>length\<close> the first pass sets and the second reads, so the
  first pass returns the sequence with these fields updated.
\<close>

datatype kerror =
    PacketEncodingError string | PacketDecodingError string | ErrInsufficientData
  | ErrorString string | ErrNum num_error | ErrEOF | ErrUnexpectedEOF | KErr int

datatype crcPolynomial = crcIEEE | crcCastagnoli

datatype frame = FLength | FCrc crcPolynomial | FVarintLength int

datatype etree =
    EInt8 int | EInt16 int | EInt32 int | EInt64 int | EVarint int | EArrayLength int | EBool bool
  | EBytes "string option" | EVarintBytes "string option" | ERawBytes string
  | EString string | ENullableString "string option"
  | EStringArray "string list" | EInt32Array "int list" | EInt64Array "int list"
  | EFrame frame "etree list" | EFail kerror

subsection \<open>CRC-32 (package hash/crc32)\<close>

fun crc_table_poly :: "crcPolynomial \<Rightarrow> int" where
  "crc_table_poly crcIEEE = 0xEDB88320"
| "crc_table_poly crcCastagnoli = 0x82F63B78"

fun crc_bits :: "int \<Rightarrow> nat \<Rightarrow> int \<Rightarrow> int" where
  "crc_bits p 0 c = c"
| "crc_bits p (Suc k) c = crc_bits p k (if c mod 2 = 1 then xor (c div 2) p else c div 2)"

definition crc32 :: "crcPolynomial \<Rightarrow> string \<Rightarrow> int" where
  "crc32 p s = xor 0xFFFFFFFF (foldl (\<lambda>c b. crc_bits (crc_table_poly p) 8 (xor c (rn b))) 0xFFFFFFFF s)"

subsection \<open>The first pass\<close>

definition too_long :: "string \<Rightarrow> nat \<Rightarrow> kerror" where
  "too_long what n = PacketEncodingError (what @ '' too long ('' @ Itoa (int n) @ '')'')"

abbreviation maxInt32 :: int where "maxInt32 \<equiv> 2147483647"
abbreviation maxInt16 :: int where "maxInt16 \<equiv> 32767"

definition prep_raw :: "string \<Rightarrow> int \<Rightarrow> kerror + int" where
  "prep_raw b n = (if maxInt32 < int (length b) then Inl (too_long ''byteslice'' (length b)) else Inr (n + int (length b)))"

definition prep_string :: "string \<Rightarrow> int \<Rightarrow> kerror + int" where
  "prep_string s n =
     (let n = n + 2 in
      if maxInt16 < int (length s) then Inl (too_long ''string'' (length s)) else Inr (n + int (length s)))"

definition prep_array :: "nat \<Rightarrow> int \<Rightarrow> kerror + int" where
  "prep_array k n = (if maxInt32 < int k then Inl (too_long ''array'' k) else Inr (n + 4))"

fun prep_strings :: "string list \<Rightarrow> int \<Rightarrow> kerror + int" where
  "prep_strings [] n = Inr n"
| "prep_strings (s # ss) n = bindR (prep_string s n) (prep_strings ss)"

fun prep_leaf :: "etree \<Rightarrow> int \<Rightarrow> kerror + int" where
  "prep_leaf (EInt8 i) n = Inr (n + 1)"
| "prep_leaf (EInt16 i) n = Inr (n + 2)"
| "prep_leaf (EInt32 i) n = Inr (n + 4)"
| "prep_leaf (EInt64 i) n = Inr (n + 8)"
| "prep_leaf (EVarint i) n = Inr (n + int (length (put_varint i)))"
| "prep_leaf (EArrayLength k) n = (if maxInt32 < k then Inl (too_long ''array'' (nat k)) else Inr (n + 4))"
| "prep_leaf (EBool b) n = Inr (n + 1)"
| "prep_leaf (EBytes b) n = (case b of None \<Rightarrow> Inr (n + 4) | Some b \<Rightarrow> prep_raw b (n + 4))"
| "prep_leaf (EVarintBytes b) n =
     (case b of None \<Rightarrow> Inr (n + int (length (put_varint (-1))))
      | Some b \<Rightarrow> prep_raw b (n + int (length (put_varint (int (length b))))))"
| "prep_leaf (ERawBytes b) n = prep_raw b n"
| "prep_leaf (EString s) n = prep_string s n"
| "prep_leaf (ENullableString s) n = (case s of None \<Rightarrow> Inr (n + 2) | Some s \<Rightarrow> prep_string s n)"
| "prep_leaf (EStringArray ss) n = bindR (prep_array (length ss) n) (prep_strings ss)"
| "prep_leaf (EInt32Array is) n = bindR (prep_array (length is) n) (\<lambda>n. Inr (n + 4 * int (length is)))"
| "prep_leaf (EInt64Array is) n = bindR (prep_array (length is) n) (\<lambda>n. Inr (n + 8 * int (length is)))"
| "prep_leaf (EFail e) n = Inl e"
| "prep_leaf (EFrame f b) n = Inr n"

fun reserveLength :: "frame \<Rightarrow> int" where
  "reserveLength FLength = 4"
| "reserveLength (FCrc p) = 4"
| "reserveLength (FVarintLength l) = int (length (put_varint l))"

text \<open>\<open>pop\<close>, with \<open>adjustLength\<close> for the variable-length field.\<close>

fun prep_pop :: "frame \<Rightarrow> int \<Rightarrow> int \<Rightarrow> int \<times> frame" where
  "prep_pop (FVarintLength l) start n =
     (let old = reserveLength (FVarintLength l); l' = n - start - old
      in (n + (reserveLength (FVarintLength l') - old), FVarintLength l'))"
| "prep_pop f start n = (n, f)"

fun prep :: "etree list \<Rightarrow> int \<Rightarrow> kerror + (int \<times> etree list)" where
  "prep [] n = Inr (n, [])"
| "prep (EFrame f b # ts) n =
     bindR (prep b (n + reserveLength f)) (\<lambda>(k, b').
       case prep_pop f n k of (k, f') \<Rightarrow>
         bindR (prep ts k) (\<lambda>(m, ts'). Inr (m, EFrame f' b' # ts')))"
| "prep (t # ts) n = bindR (prep_leaf t n) (\<lambda>k. bindR (prep ts k) (\<lambda>(m, ts'). Inr (m, t # ts')))"

subsection \<open>The second pass\<close>

record renc =
  re_raw :: string
  re_off :: int

text \<open>\<open>binary.BigEndian.PutUintN(raw[off:], v)\<close> and \<open>binary.PutVarint(raw[off:], v)\<close> at an offset.\<close>

definition put_at :: "string \<Rightarrow> int \<Rightarrow> string \<Rightarrow> string result" where
  "put_at raw off bs =
     (if off < 0 \<or> int (length raw) < off then Inl SlicePanic
      else if int (length raw) < off + int (length bs) then Inl IndexPanic
      else Inr (take (nat off) raw @ bs @ drop (nat off + length bs) raw))"

definition re_put :: "string \<Rightarrow> renc \<Rightarrow> renc result" where
  "re_put bs e =
     bindR (put_at (re_raw e) (re_off e) bs) (\<lambda>raw. Inr (e\<lparr>re_raw := raw, re_off := re_off e + int (length bs)\<rparr>))"

text \<open>\<open>copy(raw[off:], in)\<close> writes what fits and the offset moves by the whole length.\<close>

definition re_copy :: "string \<Rightarrow> renc \<Rightarrow> renc result" where
  "re_copy b e =
     bindR (copy_into (re_raw e) (re_off e) (int (length (re_raw e))) b) (\<lambda>raw.
       Inr (e\<lparr>re_raw := raw, re_off := re_off e + int (length b)\<rparr>))"

definition re_string :: "string \<Rightarrow> renc \<Rightarrow> renc result" where
  "re_string s e = bindR (re_put (be 2 (swrap 16 (int (length s)))) e) (re_copy s)"

fun re_each :: "('a \<Rightarrow> renc \<Rightarrow> renc result) \<Rightarrow> 'a list \<Rightarrow> renc \<Rightarrow> renc result" where
  "re_each f [] e = Inr e"
| "re_each f (x # xs) e = bindR (f x e) (re_each f xs)"

definition re_array :: "nat \<Rightarrow> renc \<Rightarrow> renc result" where
  "re_array k = re_put (be 4 (swrap 32 (int k)))"

fun re_leaf :: "etree \<Rightarrow> renc \<Rightarrow> renc result" where
  "re_leaf (EInt8 i) e = re_put (be 1 i) e"
| "re_leaf (EInt16 i) e = re_put (be 2 i) e"
| "re_leaf (EInt32 i) e = re_put (be 4 i) e"
| "re_leaf (EInt64 i) e = re_put (be 8 i) e"
| "re_leaf (EVarint i) e = re_put (put_varint i) e"
| "re_leaf (EArrayLength k) e = re_put (be 4 (swrap 32 k)) e"
| "re_leaf (EBool b) e = re_put (be 1 (if b then 1 else 0)) e"
| "re_leaf (EBytes b) e =
     (case b of None \<Rightarrow> re_put (be 4 (-1)) e
      | Some b \<Rightarrow> bindR (re_put (be 4 (swrap 32 (int (length b)))) e) (re_copy b))"
| "re_leaf (EVarintBytes b) e =
     (case b of None \<Rightarrow> re_put (put_varint (-1)) e
      | Some b \<Rightarrow> bindR (re_put (put_varint (int (length b))) e) (re_copy b))"
| "re_leaf (ERawBytes b) e = re_copy b e"
| "re_leaf (EString s) e = re_string s e"
| "re_leaf (ENullableString s) e = (case s of None \<Rightarrow> re_put (be 2 (-1)) e | Some s \<Rightarrow> re_string s e)"
| "re_leaf (EStringArray ss) e = bindR (re_array (length ss) e) (re_each re_string ss)"
| "re_leaf (EInt32Array is) e = bindR (re_array (length is) e) (re_each (\<lambda>i. re_put (be 4 i)) is)"
| "re_leaf (EInt64Array is) e = bindR (re_array (length is) e) (re_each (\<lambda>i. re_put (be 8 i)) is)"
| "re_leaf (EFail k) e = Inr e"
| "re_leaf (EFrame f b) e = Inr e"

text \<open>\<open>run\<close> of the three fields, at the \<open>pop\<close>.\<close>

fun frame_run :: "frame \<Rightarrow> int \<Rightarrow> int \<Rightarrow> string \<Rightarrow> string result" where
  "frame_run FLength start cur raw = put_at raw start (be 4 (cur - start - 4))"
| "frame_run (FCrc p) start cur raw =
     bindR (slice raw (start + 4) cur) (\<lambda>s. put_at raw start (be 4 (crc32 p s)))"
| "frame_run (FVarintLength l) start cur raw = put_at raw start (put_varint l)"

fun real :: "etree list \<Rightarrow> renc \<Rightarrow> (kerror + renc) result" where
  "real [] e = Inr (Inr e)"
| "real (EFail k # ts) e = Inr (Inl k)"
| "real (EFrame f b # ts) e =
     bindR (real b (e\<lparr>re_off := re_off e + reserveLength f\<rparr>)) (\<lambda>r.
       case r of Inl k \<Rightarrow> Inr (Inl k)
       | Inr e' \<Rightarrow> bindR (frame_run f (re_off e) (re_off e') (re_raw e')) (\<lambda>raw. real ts (e'\<lparr>re_raw := raw\<rparr>)))"
| "real (t # ts) e = bindR (re_leaf t e) (real ts)"

definition MaxRequestSize :: int where
  "MaxRequestSize = 100 * 1024 * 1024"

definition encode :: "etree list \<Rightarrow> (kerror + string) result" where
  "encode ts =
     (case prep ts 0 of
        Inl k \<Rightarrow> Inr (Inl k)
      | Inr (n, ts') \<Rightarrow>
          if n < 0 \<or> MaxRequestSize < n
          then Inr (Inl (PacketEncodingError (''invalid request size ('' @ Itoa n @ '')'')))
          else bindR (real ts' \<lparr>re_raw = replicate (nat n) CHR 0x00, re_off = 0\<rparr>) (\<lambda>r.
            Inr (case r of Inl k \<Rightarrow> Inl k | Inr e \<Rightarrow> Inr (re_raw e))))"

subsection \<open>The bytes of a sequence\<close>

text \<open>The reference: what each call contributes, in one pass and without a buffer.\<close>

definition wire_string :: "string \<Rightarrow> string" where
  "wire_string s = be 2 (int (length s)) @ s"

fun wire_leaf :: "etree \<Rightarrow> string" where
  "wire_leaf (EInt8 i) = be 1 i"
| "wire_leaf (EInt16 i) = be 2 i"
| "wire_leaf (EInt32 i) = be 4 i"
| "wire_leaf (EInt64 i) = be 8 i"
| "wire_leaf (EVarint i) = put_varint i"
| "wire_leaf (EArrayLength k) = be 4 k"
| "wire_leaf (EBool b) = be 1 (if b then 1 else 0)"
| "wire_leaf (EBytes b) = (case b of None \<Rightarrow> be 4 (-1) | Some b \<Rightarrow> be 4 (int (length b)) @ b)"
| "wire_leaf (EVarintBytes b) =
     (case b of None \<Rightarrow> put_varint (-1) | Some b \<Rightarrow> put_varint (int (length b)) @ b)"
| "wire_leaf (ERawBytes b) = b"
| "wire_leaf (EString s) = wire_string s"
| "wire_leaf (ENullableString s) = (case s of None \<Rightarrow> be 2 (-1) | Some s \<Rightarrow> wire_string s)"
| "wire_leaf (EStringArray ss) = be 4 (int (length ss)) @ concat (map wire_string ss)"
| "wire_leaf (EInt32Array is) = be 4 (int (length is)) @ concat (map (be 4) is)"
| "wire_leaf (EInt64Array is) = be 4 (int (length is)) @ concat (map (be 8) is)"
| "wire_leaf (EFail k) = []"
| "wire_leaf (EFrame f b) = []"

fun wire_frame :: "frame \<Rightarrow> string \<Rightarrow> string" where
  "wire_frame FLength s = be 4 (int (length s)) @ s"
| "wire_frame (FCrc p) s = be 4 (crc32 p s) @ s"
| "wire_frame (FVarintLength l) s = put_varint (int (length s)) @ s"

fun wire :: "etree list \<Rightarrow> string" where
  "wire [] = []"
| "wire (EFrame f b # ts) = wire_frame f (wire b) @ wire ts"
| "wire (t # ts) = wire_leaf t @ wire ts"

subsection \<open>The first pass counts the bytes\<close>

fun is_frame :: "etree \<Rightarrow> bool" where
  "is_frame (EFrame f b) = True"
| "is_frame t = False"

fun is_fail :: "etree \<Rightarrow> bool" where
  "is_fail (EFail k) = True"
| "is_fail t = False"

lemma etrees_induct [case_names Nil Frame Leaf]:
  assumes "P []" "\<And>f b ts. P b \<Longrightarrow> P ts \<Longrightarrow> P (EFrame f b # ts)"
    "\<And>t ts. \<not> is_frame t \<Longrightarrow> P ts \<Longrightarrow> P (t # ts)"
  shows "P ts"
  by (induction ts rule: wire.induct) (simp_all add: assms)

lemma wire_Leaf: "\<not> is_frame t \<Longrightarrow> wire (t # ts) = wire_leaf t @ wire ts"
  by (cases t) simp_all

lemma prep_Leaf: "\<not> is_frame t \<Longrightarrow>
    prep (t # ts) n = bindR (prep_leaf t n) (\<lambda>k. bindR (prep ts k) (\<lambda>(m, ts'). Inr (m, t # ts')))"
  by (cases t) simp_all

lemma real_Leaf: "\<not> is_frame t \<Longrightarrow> \<not> is_fail t \<Longrightarrow> real (t # ts) e = bindR (re_leaf t e) (real ts)"
  by (cases t) simp_all

text \<open>Every variable-length field holds the length of what it frames, and no call fails.\<close>

fun field_ok :: "frame \<Rightarrow> string \<Rightarrow> bool" where
  "field_ok (FVarintLength l) s = (l = int (length s))"
| "field_ok f s = True"

fun adjusted :: "etree list \<Rightarrow> bool" where
  "adjusted [] = True"
| "adjusted (EFrame f b # ts) = (field_ok f (wire b) \<and> adjusted b \<and> adjusted ts)"
| "adjusted (t # ts) = (\<not> is_fail t \<and> adjusted ts)"

lemma adjusted_Leaf: "\<not> is_frame t \<Longrightarrow> adjusted (t # ts) = (\<not> is_fail t \<and> adjusted ts)"
  by (cases t) simp_all

lemma wire_append [simp]: "wire (us @ ts) = wire us @ wire ts"
  by (induction us rule: etrees_induct) (simp_all add: wire_Leaf)

lemma length_wire_string [simp]: "length (wire_string s) = 2 + length s"
  by (simp add: wire_string_def)

lemma prep_strings_wire:
  "prep_strings ss n = Inr m \<Longrightarrow> m = n + int (length (concat (map wire_string ss)))"
proof (induction ss arbitrary: n)
  case (Cons s ss)
  then have "prep_strings ss (n + 2 + int (length s)) = Inr m"
    by (simp add: prep_string_def split: if_splits)
  from Cons.IH [OF this] show ?case by simp
qed simp

lemma length_concat_be [simp]: "length (concat (map (be k) is)) = k * length is"
  by (induction "is") simp_all

lemma prep_leaf_wire: "prep_leaf t n = Inr m \<Longrightarrow> \<not> is_frame t \<Longrightarrow> m = n + int (length (wire_leaf t))"
  by (cases t)
     (auto simp: prep_raw_def prep_string_def prep_array_def dest: prep_strings_wire
       split: if_splits option.splits)

lemma prep_leaf_fail: "is_fail t \<Longrightarrow> prep_leaf t n \<noteq> Inr m"
  by (cases t) simp_all

lemma prep_pop_wire:
  assumes "k = n + reserveLength f + int (length s)" "prep_pop f n k = (k', f')"
  shows "wire_frame f' s = wire_frame f s \<and> field_ok f' s \<and> k' = n + int (length (wire_frame f s))"
  using assms by (cases f) (auto simp: Let_def)

lemma bindR_eq_Inr: "bindR m k = Inr y \<longleftrightarrow> (\<exists>x. m = Inr x \<and> k x = Inr y)"
  by (cases m) simp_all

lemma prep_wire:
  "prep ts n = Inr (m, ts') \<Longrightarrow> m = n + int (length (wire ts)) \<and> wire ts' = wire ts \<and> adjusted ts'"
proof (induction ts arbitrary: n m ts' rule: etrees_induct)
  case (Frame f b ts)
  from Frame.prems obtain k b' k' f' ts1 where
    *: "prep b (n + reserveLength f) = Inr (k, b')" "prep_pop f n k = (k', f')"
       "prep ts k' = Inr (m, ts1)" "ts' = EFrame f' b' # ts1"
    by (fastforce simp: bindR_eq_Inr case_prod_beta prod_eq_iff)
  note b = Frame.IH(1) [OF *(1)] and r = Frame.IH(2) [OF *(3)]
  from prep_pop_wire [OF conjunct1 [OF b] *(2)] b r *(4) show ?case by simp
next
  case (Leaf t ts)
  then obtain k ts1 where *: "prep_leaf t n = Inr k" "prep ts k = Inr (m, ts1)" "ts' = t # ts1"
    by (auto simp: prep_Leaf bindR_eq_Inr)
  with Leaf.IH [OF *(2)] prep_leaf_wire [OF *(1)] prep_leaf_fail [of t n k] Leaf.hyps show ?case
    by (auto simp: wire_Leaf adjusted_Leaf)
qed simp

subsection \<open>The second pass writes them\<close>

definition room :: "renc \<Rightarrow> nat \<Rightarrow> bool" where
  "room e k \<longleftrightarrow> 0 \<le> re_off e \<and> re_off e + int k \<le> int (length (re_raw e))"

definition filled :: "string \<Rightarrow> renc \<Rightarrow> renc" where
  "filled s e = e\<lparr>re_raw := take (nat (re_off e)) (re_raw e) @ s @ drop (nat (re_off e) + length s) (re_raw e),
     re_off := re_off e + int (length s)\<rparr>"

definition writes :: "(renc \<Rightarrow> renc result) \<Rightarrow> string \<Rightarrow> bool" where
  "writes m s \<longleftrightarrow> (\<forall>e. room e (length s) \<longrightarrow> m e = Inr (filled s e))"

lemma room_filled [simp]: "room e (length s + k) \<Longrightarrow> room (filled s e) k"
  by (auto simp: room_def filled_def)

lemma room_add: "room e (a + b) \<Longrightarrow> room e a"
  by (auto simp: room_def)

lemma filled_append: "room e (length s + length t) \<Longrightarrow> filled t (filled s e) = filled (s @ t) e"
  by (auto simp: filled_def room_def nat_add_distrib min_def add_ac)

lemma filled_Nil [simp]: "filled [] e = e"
  by (simp add: filled_def)

lemma writes_bind: "writes m s \<Longrightarrow> writes k t \<Longrightarrow> writes (\<lambda>e. bindR (m e) k) (s @ t)"
  by (auto simp: writes_def filled_append dest: room_add)

lemma writes_put: "writes (re_put s) s"
  by (auto simp: writes_def re_put_def put_at_def room_def filled_def)

lemma writes_copy: "writes (re_copy s) s"
  by (auto simp: writes_def re_copy_def copy_into_def room_def filled_def Let_def min_def)

lemma be_mod: "be k (n mod 256 ^ k) = be k n"
proof (induction k arbitrary: n)
  case (Suc k)
  have "n mod (256 * 256 ^ k) = 256 * (n div 256 mod 256 ^ k) + n mod 256"
    by (rule mod_mult2_eq' [of n 256 "256 ^ k", simplified])
  then show ?case using Suc [of "n div 256"] by simp
qed simp

lemma be_swrap: "0 < k \<Longrightarrow> be k (swrap (8 * k) n) = be k n"
proof -
  have p: "(2 :: int) ^ (8 * k) = 256 ^ k" by (simp add: power_mult)
  have "swrap (8 * k) n mod 256 ^ k = n mod 256 ^ k"
    unfolding swrap_def p by (simp add: mod_diff_left_eq)
  then show ?thesis by (metis be_mod)
qed

lemmas be_swraps = be_swrap [of 2, simplified] be_swrap [of 4, simplified]

lemma writes_each: "(\<And>x. writes (f x) (g x)) \<Longrightarrow> writes (re_each f xs) (concat (map g xs))"
proof (induction xs)
  case (Cons x xs)
  from writes_bind [OF Cons.prems Cons.IH [OF Cons.prems]] show ?case by simp
qed (simp add: writes_def)

lemma writes_string: "writes (re_string s) (wire_string s)"
  using writes_bind [OF writes_put writes_copy]
  by (simp add: re_string_def [abs_def] wire_string_def be_swraps)

lemma writesD: "writes m s \<Longrightarrow> room e (length s) \<Longrightarrow> m e = Inr (filled s e)"
  by (simp add: writes_def)

lemmas leaf_writes = writesD [OF writes_put] writesD [OF writes_copy] writesD [OF writes_string]
  writesD [OF writes_bind [OF writes_put writes_copy]]
  writesD [OF writes_bind [OF writes_put writes_each [of re_string wire_string, OF writes_string]]]
  writesD [OF writes_bind [OF writes_put writes_each [of "\<lambda>i. re_put (be k i)" "be k" for k, OF writes_put]]]

lemma writes_leaf: "\<not> is_frame t \<Longrightarrow> writes (re_leaf t) (wire_leaf t)"
  unfolding writes_def
  by (cases t) (auto simp: re_array_def be_swraps leaf_writes split: option.splits)

lemma frame_run_wire:
  fixes raw :: string
  assumes f: "wire_frame f s = h @ s" "reserveLength f = int (length h)" "field_ok f s"
    and len: "k + length h + length s \<le> length raw"
  shows "frame_run f (int k) (int k + int (length h) + int (length s)) (take (k + length h) raw @ s @ t)
    = Inr (take k raw @ h @ s @ t)"
proof -
  let ?raw = "take (k + length h) raw @ s @ t"
  have put: "put_at ?raw (int k) h = Inr (take k raw @ h @ s @ t)"
    using len by (auto simp: put_at_def min_def)
  have "slice ?raw (int k + int (length h)) (int k + int (length h) + int (length s)) = Inr s"
    using len by (auto simp: slice_def nat_add_distrib min_def)
  with put f show ?thesis by (cases f) auto
qed

lemma real_writes:
  "adjusted ts \<Longrightarrow> room e (length (wire ts)) \<Longrightarrow> real ts e = Inr (Inr (filled (wire ts) e))"
proof (induction ts arbitrary: e rule: etrees_induct)
  case (Frame f b ts)
  define h where "h = take (nat (reserveLength f)) (wire_frame f (wire b))"
  have h: "wire_frame f (wire b) = h @ wire b" "reserveLength f = int (length h)"
    using Frame.prems(1) by (cases f; simp add: h_def)+
  let ?e = "e\<lparr>re_off := re_off e + reserveLength f\<rparr>" and ?e1 = "filled (h @ wire b) e"
  have room: "room e (length h + length (wire b) + length (wire ts))"
    using Frame.prems(2) by (simp add: h add_ac)
  then have fits: "nat (re_off e) + length h + length (wire b) \<le> length (re_raw e)" by (auto simp: room_def)
  from room have "room ?e (length (wire b))" by (auto simp: room_def h)
  with Frame.prems(1) Frame.IH(1) [of ?e] have 1: "real b ?e = Inr (Inr (filled (wire b) ?e))" by simp
  have 2: "frame_run f (re_off e) (re_off (filled (wire b) ?e)) (re_raw (filled (wire b) ?e)) = Inr (re_raw ?e1)"
    using frame_run_wire [OF h _ fits] Frame.prems(1) room
    by (simp add: filled_def room_def h nat_add_distrib add_ac)
  have "room ?e1 (length (wire ts))"
    using room_filled [of e "h @ wire b"] room by (simp add: add_ac)
  with Frame.prems(1) Frame.IH(2) [of ?e1] have 3: "real ts ?e1 = Inr (Inr (filled (wire ts) ?e1))" by simp
  have "(filled (wire b) ?e)\<lparr>re_raw := re_raw ?e1\<rparr> = ?e1" by (simp add: filled_def h)
  with 1 2 3 room show ?case by (simp add: h filled_append)
next
  case (Leaf t ts)
  then have "re_leaf t e = Inr (filled (wire_leaf t) e)"
    by (intro writesD writes_leaf) (auto simp: wire_Leaf dest: room_add)
  with Leaf show ?case by (simp add: real_Leaf adjusted_Leaf wire_Leaf filled_append)
qed simp

text \<open>
  The two passes together: the encoder of a sequence that the first pass accepts never panics and returns
  the bytes of the sequence.
\<close>

lemma encode_wire:
  assumes "prep ts 0 = Inr (n, ts')" "n \<le> MaxRequestSize"
  shows "encode ts = Inr (Inr (wire ts))"
proof -
  from prep_wire [OF assms(1)] have n: "n = int (length (wire ts))" and w: "wire ts' = wire ts" "adjusted ts'"
    by simp_all
  define e where "e = \<lparr>re_raw = replicate (nat n) CHR 0x00, re_off = 0\<rparr>"
  have "room e (length (wire ts'))" by (simp add: room_def e_def n w)
  from real_writes [OF w(2) this] have "real ts' e = Inr (Inr (filled (wire ts) e))" by (simp add: w)
  moreover have "re_raw (filled (wire ts) e) = wire ts" by (simp add: filled_def e_def n)
  ultimately show ?thesis using assms n by (simp add: encode_def e_def)
qed

end
