(* ===== verification/Kafka_Decoder.thy ===== *)
theory Kafka_Decoder
  imports Kafka_Encoder "HOL-Library.AList"
begin

section \<open>The packet decoder (kafka/real_decoder.go)\<close>

text \<open>
  A decoding step runs on a \<open>realDecoder\<close>, the bytes and an offset. It ends in an error or in a value, and in
  both cases the decoder has moved: an error of missing data leaves the offset at the end of the bytes. A
  \<open>push\<close> and the \<open>pop\<close> that closes it are the two ends of \<open>frameD\<close>.
\<close>

record rdec =
  rd_raw :: string
  rd_off :: int

type_synonym 'a dec = "rdec \<Rightarrow> ((kerror + 'a) \<times> rdec) result"

definition returnD :: "'a \<Rightarrow> 'a dec" where
  "returnD x d = Inr (Inr x, d)"

definition failD :: "kerror \<Rightarrow> 'a dec" where
  "failD e d = Inr (Inl e, d)"

definition bindD :: "'a dec \<Rightarrow> ('a \<Rightarrow> 'b dec) \<Rightarrow> 'b dec" where
  "bindD m k d = bindR (m d) (\<lambda>(r, d'). case r of Inl e \<Rightarrow> Inr (Inl e, d') | Inr x \<Rightarrow> k x d')"

definition remaining :: "rdec \<Rightarrow> int" where
  "remaining d = int (length (rd_raw d)) - rd_off d"

definition insufficient :: "'a dec" where
  "insufficient d = Inr (Inl ErrInsufficientData, d\<lparr>rd_off := int (length (rd_raw d))\<rparr>)"

abbreviation "errInvalidArrayLength \<equiv> PacketDecodingError ''invalid array length''"
abbreviation "errInvalidByteSliceLength \<equiv> PacketDecodingError ''invalid byteslice length''"
abbreviation "errInvalidStringLength \<equiv> PacketDecodingError ''invalid string length''"
abbreviation "errVarintOverflow \<equiv> PacketDecodingError ''varint overflow''"
abbreviation "errInvalidBool \<equiv> PacketDecodingError ''invalid bool''"

subsection \<open>Primitives\<close>

text \<open>\<open>raw[off:off+k]\<close> read and passed over; the slice panics when it leaves the bytes.\<close>

definition takeD :: "int \<Rightarrow> string dec" where
  "takeD k d = bindR (slice (rd_raw d) (rd_off d) (rd_off d + k)) (\<lambda>s. Inr (Inr s, d\<lparr>rd_off := rd_off d + k\<rparr>))"

definition getUint :: "nat \<Rightarrow> int dec" where
  "getUint k d =
     (if remaining d < int k then insufficient d
      else bindD (takeD (int k)) (\<lambda>s. returnD (unbe s)) d)"

definition getInt :: "nat \<Rightarrow> int dec" where
  "getInt k = bindD (getUint k) (\<lambda>u. returnD (swrap (8 * k) u))"

definition getInt8 :: "int dec" where
  "getInt8 = getInt 1"

definition getInt16 :: "int dec" where
  "getInt16 = getInt 2"

definition getInt32 :: "int dec" where
  "getInt32 = getInt 4"

definition getInt64 :: "int dec" where
  "getInt64 = getInt 8"

definition getVarint :: "int dec" where
  "getVarint d =
     bindR (slice (rd_raw d) (rd_off d) (int (length (rd_raw d)))) (\<lambda>s.
       case varint s of (tmp, n) \<Rightarrow>
         if n = 0 then insufficient d
         else if n < 0 then Inr (Inl errVarintOverflow, d\<lparr>rd_off := rd_off d - n\<rparr>)
         else Inr (Inr tmp, d\<lparr>rd_off := rd_off d + n\<rparr>))"

definition getArrayLength :: "int dec" where
  "getArrayLength = bindD getInt32 (\<lambda>tmp d.
     if remaining d < tmp then insufficient d
     else if 2 * 65535 < tmp then Inr (Inl errInvalidArrayLength, d)
     else Inr (Inr tmp, d))"

definition getBool :: "bool dec" where
  "getBool = bindD getInt8 (\<lambda>b.
     if b = 0 then returnD False else if b \<noteq> 1 then failD errInvalidBool else returnD True)"

subsection \<open>Collections\<close>

definition getRawBytes :: "int \<Rightarrow> string dec" where
  "getRawBytes n d =
     (if n < 0 then Inr (Inl errInvalidByteSliceLength, d)
      else if remaining d < n then insufficient d
      else takeD n d)"

definition getBytes :: "string option dec" where
  "getBytes = bindD getInt32 (\<lambda>n. if n = -1 then returnD None else bindD (getRawBytes n) (\<lambda>b. returnD (Some b)))"

definition getVarintBytes :: "string option dec" where
  "getVarintBytes = bindD getVarint (\<lambda>n. if n = -1 then returnD None else bindD (getRawBytes n) (\<lambda>b. returnD (Some b)))"

definition getStringLength :: "int dec" where
  "getStringLength = bindD getInt16 (\<lambda>n d.
     if n < -1 then Inr (Inl errInvalidStringLength, d)
     else if remaining d < n then insufficient d
     else Inr (Inr n, d))"

definition getString :: "string dec" where
  "getString = bindD getStringLength (\<lambda>n. if n = -1 then returnD [] else takeD n)"

definition getNullableString :: "string option dec" where
  "getNullableString =
     bindD getStringLength (\<lambda>n. if n = -1 then returnD None else bindD (takeD n) (\<lambda>s. returnD (Some s)))"

fun loopD :: "nat \<Rightarrow> 'a dec \<Rightarrow> 'a list dec" where
  "loopD 0 m = returnD []"
| "loopD (Suc n) m = bindD m (\<lambda>x. bindD (loopD n m) (\<lambda>xs. returnD (x # xs)))"

text \<open>\<open>make([]T, n)\<close> for elements of \<open>sz\<close> bytes.\<close>

definition makeD :: "int \<Rightarrow> int \<Rightarrow> unit dec" where
  "makeD sz n d = (if 0 \<le> n \<and> n * sz \<le> 2 ^ 48 then Inr (Inr (), d) else Inl MakePanic)"

text \<open>
  The count of these three is unsigned, so it is never negative. The integers are read when all of them are
  there; the strings are read one by one.
\<close>

definition getIntArray :: "nat \<Rightarrow> int list dec" where
  "getIntArray k = bindD (getUint 4) (\<lambda>n d.
     if remaining d < int k * n then insufficient d
     else if n = 0 then Inr (Inr [], d)
     else bindD (makeD (int k) n) (\<lambda>_.
       loopD (nat n) (bindD (takeD (int k)) (\<lambda>s. returnD (swrap (8 * k) (unbe s))))) d)"

definition getInt32Array :: "int list dec" where
  "getInt32Array = getIntArray 4"

definition getInt64Array :: "int list dec" where
  "getInt64Array = getIntArray 8"

definition getStringArray :: "string list dec" where
  "getStringArray = bindD (getUint 4) (\<lambda>n.
     if n = 0 then returnD [] else bindD (makeD 16 n) (\<lambda>_. loopD (nat n) getString))"

definition peekInt8 :: "int \<Rightarrow> int dec" where
  "peekInt8 offset d =
     (if remaining d < offset + 1 then Inr (Inl ErrInsufficientData, d)
      else bindR (get_at (rd_raw d) (rd_off d + offset)) (\<lambda>c. Inr (Inr (swrap 8 (rn c)), d)))"

text \<open>Run a decoder on a buffer of its own, as \<open>getSubset\<close> hands one out.\<close>

definition subsetD :: "'a dec \<Rightarrow> string \<Rightarrow> 'a dec" where
  "subsetD m buf d = bindR (m \<lparr>rd_raw = buf, rd_off = 0\<rparr>) (\<lambda>(r, _). Inr (r, d))"

subsection \<open>Frames\<close>

text \<open>The verb \<open>%#x\<close> for an unsigned number.\<close>

function hex_digits :: "int \<Rightarrow> string" where
  "hex_digits n = (if n < 16 then [''0123456789abcdef'' ! nat n] else hex_digits (n div 16) @ [''0123456789abcdef'' ! nat (n mod 16)])"
  by pat_completeness auto
termination
  by (relation "measure nat") auto

declare hex_digits.simps [simp del]

definition hex_u32 :: "int \<Rightarrow> string" where
  "hex_u32 n = ''0x'' @ hex_digits n"

text \<open>
  \<open>push\<close> of the three fields: the length fields decode their value, the checksum only reserves its four
  bytes. \<open>check\<close> runs at the \<open>pop\<close>; it gets the value the field decoded.
\<close>

fun pushD :: "frame \<Rightarrow> int dec" where
  "pushD FLength = bindD getInt32 (\<lambda>n d.
     if swrap 32 (remaining d) < n then Inr (Inl ErrInsufficientData, d) else Inr (Inr n, d))"
| "pushD (FCrc p) = (\<lambda>d.
     if remaining d < 4 then insufficient d else Inr (Inr 0, d\<lparr>rd_off := rd_off d + 4\<rparr>))"
| "pushD (FVarintLength l) = getVarint"

fun checkD :: "frame \<Rightarrow> int \<Rightarrow> int \<Rightarrow> unit dec" where
  "checkD FLength start n d =
     (if swrap 32 (rd_off d - start - 4) \<noteq> n then Inr (Inl (PacketDecodingError ''length field invalid''), d)
      else Inr (Inr (), d))"
| "checkD (FCrc p) start n d =
     bindR (slice (rd_raw d) (start + 4) (rd_off d)) (\<lambda>s.
       bindR (slice (rd_raw d) start (start + 4)) (\<lambda>c.
         if crc32 p s \<noteq> unbe c
         then Inr (Inl (PacketDecodingError
           (''CRC didn't match expected '' @ hex_u32 (unbe c) @ '' got '' @ hex_u32 (crc32 p s))), d)
         else Inr (Inr (), d)))"
| "checkD (FVarintLength l) start n d =
     (if rd_off d - start - int (length (put_varint n)) \<noteq> n
      then Inr (Inl (PacketDecodingError ''length field invalid''), d) else Inr (Inr (), d))"

text \<open>The calls between the two get the value that the field decoded.\<close>

definition frameD :: "frame \<Rightarrow> (int \<Rightarrow> 'a dec) \<Rightarrow> 'a dec" where
  "frameD f m d =
     bindD (pushD f) (\<lambda>n. bindD (m n) (\<lambda>x. bindD (checkD f (rd_off d) n) (\<lambda>_. returnD x))) d"

subsection \<open>Whole buffers\<close>

text \<open>\<open>decode\<close> and \<open>versionedDecode\<close>: the decoder has to use the buffer up.\<close>

definition decode :: "'a dec \<Rightarrow> string \<Rightarrow> (kerror + 'a) result" where
  "decode m buf =
     bindR (m \<lparr>rd_raw = buf, rd_off = 0\<rparr>) (\<lambda>(r, d).
       Inr (case r of Inl e \<Rightarrow> Inl e
            | Inr x \<Rightarrow> if rd_off d \<noteq> int (length buf) then Inl (PacketDecodingError ''invalid length'') else Inr x))"

subsection \<open>Arrays of a message\<close>

text \<open>
  The loops of the messages over a count from \<open>getArrayLength\<close>. A slice is made first, which panics for a
  negative count; for a map or a list that is appended to, a negative count is no iteration. A map is kept
  as the list of its pairs, the last value of a key replacing the earlier ones.
\<close>

definition sliceD :: "'a dec \<Rightarrow> 'a list dec" where
  "sliceD m = bindD getArrayLength (\<lambda>n. bindD (makeD 8 n) (\<lambda>_. loopD (nat n) m))"

definition listD :: "'a dec \<Rightarrow> 'a list dec" where
  "listD m = bindD getArrayLength (\<lambda>n. loopD (nat n) m)"

definition put_all :: "('k \<times> 'v) list \<Rightarrow> ('k \<times> 'v) list" where
  "put_all ps = foldl (\<lambda>m (k, v). AList.update k v m) [] ps"

definition mapD :: "('k \<times> 'v) dec \<Rightarrow> ('k \<times> 'v) list dec" where
  "mapD m = bindD (listD m) (\<lambda>ps. returnD (put_all ps))"

definition pairD :: "'k dec \<Rightarrow> 'v dec \<Rightarrow> ('k \<times> 'v) dec" where
  "pairD m m' = bindD m (\<lambda>k. bindD m' (\<lambda>v. returnD (k, v)))"

definition optD :: "bool \<Rightarrow> 'a \<Rightarrow> 'a dec \<Rightarrow> 'a dec" where
  "optD c x m = (if c then m else returnD x)"

text \<open>The encoder's loops: \<open>putArrayLength(len(xs))\<close> and the calls for each element.\<close>

definition earray :: "('a \<Rightarrow> etree list) \<Rightarrow> 'a list \<Rightarrow> etree list" where
  "earray f xs = EArrayLength (int (length xs)) # concat (map f xs)"

definition epair :: "('k \<Rightarrow> etree list) \<Rightarrow> ('v \<Rightarrow> etree list) \<Rightarrow> 'k \<times> 'v \<Rightarrow> etree list" where
  "epair f g p = f (fst p) @ g (snd p)"

definition eopt :: "bool \<Rightarrow> etree list \<Rightarrow> etree list" where
  "eopt c ts = (if c then ts else [])"

section \<open>Decoding what was encoded\<close>

text \<open>
  \<open>reads m s v\<close>: wherever the bytes \<open>s\<close> stand in a buffer, the decoder reads exactly them and returns \<open>v\<close>.
  The buffer is shorter than \<open>2^31\<close> bytes, as every packet is.
\<close>

definition rd :: "string \<Rightarrow> string \<Rightarrow> rdec" where
  "rd pre post = \<lparr>rd_raw = pre @ post, rd_off = int (length pre)\<rparr>"

definition reads :: "'a dec \<Rightarrow> string \<Rightarrow> 'a \<Rightarrow> bool" where
  "reads m s v \<longleftrightarrow> (\<forall>pre post. int (length pre + length s + length post) \<le> maxInt32 \<longrightarrow>
     m (rd pre (s @ post)) = Inr (Inr v, rd (pre @ s) post))"

lemma rd_sel [simp]: "rd_raw (rd pre post) = pre @ post" "rd_off (rd pre post) = int (length pre)"
  by (simp_all add: rd_def)

lemma remaining_rd [simp]: "remaining (rd pre post) = int (length post)"
  by (simp add: remaining_def)

lemma readsI:
  "(\<And>pre post. int (length pre + length s + length post) \<le> maxInt32 \<Longrightarrow>
     m (rd pre (s @ post)) = Inr (Inr v, rd (pre @ s) post)) \<Longrightarrow> reads m s v"
  by (simp add: reads_def)

lemma readsD:
  "reads m s v \<Longrightarrow> int (length pre + length s + length post) \<le> maxInt32 \<Longrightarrow>
     m (rd pre (s @ post)) = Inr (Inr v, rd (pre @ s) post)"
  by (simp add: reads_def)

lemma bindD_Inr: "m d = Inr (Inr x, d') \<Longrightarrow> bindD m k d = k x d'"
  by (simp add: bindD_def)

lemma bindD_return: "m d = Inr (Inr x, d') \<Longrightarrow> bindD m (\<lambda>x. returnD (f x)) d = Inr (Inr (f x), d')"
  by (simp add: bindD_def returnD_def)

lemma reads_return: "reads (returnD v) [] v"
  by (simp add: reads_def returnD_def)

lemma reads_bind:
  assumes "reads m s v" "reads (k v) t w"
  shows "reads (bindD m k) (s @ t) w"
proof (rule readsI)
  fix pre post :: string
  assume "int (length pre + length (s @ t) + length post) \<le> maxInt32"
  then show "bindD m k (rd pre ((s @ t) @ post)) = Inr (Inr w, rd (pre @ s @ t) post)"
    using readsD [OF assms(1), of pre "t @ post"] readsD [OF assms(2), of "pre @ s" post]
    by (simp add: bindD_Inr)
qed

lemma reads_bind_return: "reads m s v \<Longrightarrow> w = f v \<Longrightarrow> reads (bindD m (\<lambda>x. returnD (f x))) s w"
  using reads_bind [OF _ reads_return] by fastforce

lemma reads_bind_Nil: "reads m s v \<Longrightarrow> reads (k v) [] w \<Longrightarrow> reads (bindD m k) s w"
  using reads_bind [of m s v k "[]" w] by simp

lemma takeD_rd: "k = int (length s) \<Longrightarrow> takeD k (rd pre (s @ post)) = Inr (Inr s, rd (pre @ s) post)"
  by (simp add: takeD_def slice_def rd_def nat_add_distrib)

lemma reads_takeD: "k = int (length s) \<Longrightarrow> reads (takeD k) s s"
  by (simp add: reads_def takeD_rd)

lemma reads_getUint: "length s = k \<Longrightarrow> reads (getUint k) s (unbe s)"
  by (auto simp: reads_def getUint_def bindD_Inr takeD_rd returnD_def)

lemma reads_getInt: "sint_ok (8 * k) n \<Longrightarrow> 0 < k \<Longrightarrow> reads (getInt k) (be k n) n"
  unfolding getInt_def by (rule reads_bind_return [OF reads_getUint]) (simp_all add: signed_be)

lemmas getInt_defs = getInt8_def getInt16_def getInt32_def getInt64_def

lemma reads_getInts:
  "sint_ok 8 n \<Longrightarrow> reads getInt8 (be 1 n) n" "sint_ok 16 n \<Longrightarrow> reads getInt16 (be 2 n) n"
  "sint_ok 32 n \<Longrightarrow> reads getInt32 (be 4 n) n" "sint_ok 64 n \<Longrightarrow> reads getInt64 (be 8 n) n"
  unfolding getInt_defs by (rule reads_getInt; simp)+

lemma reads_getVarint: "sint_ok 64 n \<Longrightarrow> reads getVarint (put_varint n) n"
  by (rule readsI) (simp add: getVarint_def slice_def rd_def varint_put nat_add_distrib)

lemma reads_getBool: "reads getBool (be 1 1) True" "reads getBool (be 1 0) False"
  unfolding getBool_def
  by (rule reads_bind_Nil [OF reads_getInts(1)]; auto simp: sint_ok_def intro: reads_return)+

lemma reads_getRawBytes: "n = int (length s) \<Longrightarrow> reads (getRawBytes n) s s"
  by (simp add: reads_def getRawBytes_def takeD_rd)

lemma reads_getBytes:
  "int (length b) \<le> maxInt32 \<Longrightarrow> reads getBytes (be 4 (int (length b)) @ b) (Some b)"
  "reads getBytes (be 4 (-1)) None"
proof -
  assume "int (length b) \<le> maxInt32"
  then have "reads getInt32 (be 4 (int (length b))) (int (length b))"
    by (intro reads_getInts) (auto simp: sint_ok_def)
  then show "reads getBytes (be 4 (int (length b)) @ b) (Some b)"
    unfolding getBytes_def by (rule reads_bind) (auto intro!: reads_bind_return reads_getRawBytes)
next
  have "reads getInt32 (be 4 (-1)) (-1)" by (intro reads_getInts) (auto simp: sint_ok_def)
  then show "reads getBytes (be 4 (-1)) None"
    unfolding getBytes_def by (rule reads_bind_Nil) (auto intro: reads_return)
qed

lemma reads_getVarintBytes:
  "int (length b) \<le> maxInt32 \<Longrightarrow> reads getVarintBytes (put_varint (int (length b)) @ b) (Some b)"
  "reads getVarintBytes (put_varint (-1)) None"
proof -
  assume "int (length b) \<le> maxInt32"
  then have "reads getVarint (put_varint (int (length b))) (int (length b))"
    by (intro reads_getVarint) (auto simp: sint_ok_def)
  then show "reads getVarintBytes (put_varint (int (length b)) @ b) (Some b)"
    unfolding getVarintBytes_def by (rule reads_bind) (auto intro!: reads_bind_return reads_getRawBytes)
next
  have "reads getVarint (put_varint (-1)) (-1)" by (intro reads_getVarint) (auto simp: sint_ok_def)
  then show "reads getVarintBytes (put_varint (-1)) None"
    unfolding getVarintBytes_def by (rule reads_bind_Nil) (auto intro: reads_return)
qed

lemma getStringLength_rd:
  assumes "sint_ok 16 n" "- 1 \<le> n" "n \<le> int (length post)"
    "int (length pre + 2 + length post) \<le> maxInt32"
  shows "getStringLength (rd pre (be 2 n @ post)) = Inr (Inr n, rd (pre @ be 2 n) post)"
  using assms readsD [OF reads_getInts(2), of n pre post]
  by (simp add: getStringLength_def bindD_Inr)

lemma reads_getString:
  "int (length s) \<le> maxInt16 \<Longrightarrow> reads getString (wire_string s) s"
  "int (length s) \<le> maxInt16 \<Longrightarrow> reads getNullableString (wire_string s) (Some s)"
  "reads getNullableString (be 2 (-1)) None"
  by (rule readsI;
      simp add: getString_def getNullableString_def wire_string_def sint_ok_def
        bindD_Inr [where m = getStringLength, OF getStringLength_rd]
        takeD_rd bindD_Inr [where m = "takeD k" for k, OF takeD_rd] returnD_def)+

lemma reads_loopD:
  "(\<And>x. x \<in> set xs \<Longrightarrow> reads m (e x) (f x)) \<Longrightarrow> reads (loopD (length xs) m) (concat (map e xs)) (map f xs)"
proof (induction xs)
  case (Cons x xs)
  have "reads (loopD (length xs) m) (concat (map e xs)) (map f xs)" using Cons by simp
  then have
    "reads (bindD (loopD (length xs) m) (\<lambda>ys. returnD (f x # ys))) (concat (map e xs)) (f x # map f xs)"
    by (rule reads_bind_return) simp
  with Cons.prems show ?case by (auto intro: reads_bind)
qed (simp add: reads_return)

lemma length_concat_ge: "(\<And>x. x \<in> set xs \<Longrightarrow> f x \<noteq> []) \<Longrightarrow> length xs \<le> length (concat (map f xs))"
proof (induction xs)
  case (Cons x xs)
  then have "length xs \<le> length (concat (map f xs))" "f x \<noteq> []" by simp_all
  then show ?case by (cases "f x") auto
qed simp

lemma reads_array_length:
  assumes "reads (k n) t v" "0 \<le> n" "n \<le> 131070" "n \<le> int (length t)"
  shows "reads (bindD getArrayLength k) (be 4 n @ t) v"
proof (rule readsI)
  fix pre post :: string
  assume len: "int (length pre + length (be 4 n @ t) + length post) \<le> maxInt32"
  have "getInt32 (rd pre (be 4 n @ t @ post)) = Inr (Inr n, rd (pre @ be 4 n) (t @ post))"
    using len assms by (intro readsD [OF reads_getInts(3)]) (auto simp: sint_ok_def)
  then have "getArrayLength (rd pre (be 4 n @ t @ post)) = Inr (Inr n, rd (pre @ be 4 n) (t @ post))"
    using assms by (simp add: getArrayLength_def bindD_Inr)
  then show "bindD getArrayLength k (rd pre ((be 4 n @ t) @ post)) = Inr (Inr v, rd (pre @ be 4 n @ t) post)"
    using readsD [OF assms(1), of "pre @ be 4 n" post] len by (simp add: bindD_Inr)
qed

lemma reads_getUint_be: "0 \<le> n \<Longrightarrow> n < 2 ^ 32 \<Longrightarrow> reads (getUint 4) (be 4 n) n"
  using reads_getUint [of "be 4 n" 4] by (simp add: unbe_be)

lemma reads_getIntArray:
  assumes "\<And>i. i \<in> set is \<Longrightarrow> sint_ok (8 * k) i" "int (length is) \<le> maxInt32" "0 < k" "k \<le> 8"
  shows "reads (getIntArray k) (be 4 (int (length is)) @ concat (map (be k) is)) is"
proof -
  let ?n = "int (length is)"
  let ?l = "loopD (nat ?n) (bindD (takeD (int k)) (\<lambda>s. returnD (swrap (8 * k) (unbe s))))"
  have "int k * ?n \<le> 8 * maxInt32"
    using assms by (intro mult_mono) auto
  then have make: "makeD (int k) ?n d = Inr (Inr (), d)" for d
    using assms by (simp add: makeD_def mult.commute)
  have "reads (bindD (takeD (int k)) (\<lambda>s. returnD (swrap (8 * k) (unbe s)))) (be k i) i" if "i \<in> set is" for i
    using that assms by (intro reads_bind_return [OF reads_takeD]) (simp_all add: signed_be)
  from reads_loopD [of "is" _ "be k" "\<lambda>i. i", OF this] have loop: "reads ?l (concat (map (be k) is)) is" by simp
  have "reads (\<lambda>d. if remaining d < int k * ?n then insufficient d else if ?n = 0 then Inr (Inr [], d)
      else bindD (makeD (int k) ?n) (\<lambda>_. ?l) d) (concat (map (be k) is)) is"
  proof (rule readsI)
    fix pre post :: string
    assume "int (length pre + length (concat (map (be k) is)) + length post) \<le> maxInt32"
    from readsD [OF loop this]
    show "(if remaining (rd pre (concat (map (be k) is) @ post)) < int k * ?n
        then insufficient (rd pre (concat (map (be k) is) @ post)) else if ?n = 0 then Inr (Inr [], (rd pre (concat (map (be k) is) @ post)))
      else bindD (makeD (int k) ?n) (\<lambda>_. ?l) (rd pre (concat (map (be k) is) @ post))) =
      Inr (Inr is, rd (pre @ concat (map (be k) is)) post)"
      by (auto simp: bindD_Inr [OF make])
  qed
  then show ?thesis using assms
    unfolding getIntArray_def by (intro reads_bind [OF reads_getUint_be [of ?n]]) simp_all
qed

lemma reads_getStringArray:
  assumes "\<And>s. s \<in> set ss \<Longrightarrow> int (length s) \<le> maxInt16" "int (length ss) \<le> maxInt32"
  shows "reads getStringArray (be 4 (int (length ss)) @ concat (map wire_string ss)) ss"
proof -
  let ?n = "int (length ss)"
  have make: "makeD 16 ?n d = Inr (Inr (), d)" for d using assms by (simp add: makeD_def)
  have loop: "reads (loopD (nat ?n) getString) (concat (map wire_string ss)) ss"
    using reads_loopD [of ss getString wire_string "\<lambda>s. s"] assms by (simp add: reads_getString)
  have "reads (if ?n = 0 then returnD [] else bindD (makeD 16 ?n) (\<lambda>_. loopD (nat ?n) getString))
      (concat (map wire_string ss)) ss"
    using loop by (auto simp: reads_def bindD_Inr [OF make] returnD_def)
  then show ?thesis using assms
    unfolding getStringArray_def by (intro reads_bind [OF reads_getUint_be [of ?n]]) simp_all
qed

subsection \<open>Frames\<close>

definition is_u32 :: "int \<Rightarrow> bool" where
  "is_u32 n \<longleftrightarrow> 0 \<le> n \<and> n < 2 ^ 32"

lemma is_u32_xor: "is_u32 x \<Longrightarrow> is_u32 y \<Longrightarrow> is_u32 (xor x y)"
  unfolding is_u32_def using XOR_upper [of x 32 y] XOR_lower [of x y] by blast

lemma is_u32_half: "is_u32 c \<Longrightarrow> is_u32 (c div 2)"
  by (auto simp: is_u32_def)

lemma is_u32_poly: "is_u32 (crc_table_poly p)"
  by (cases p) (simp_all add: is_u32_def)

lemma is_u32_bits: "is_u32 c \<Longrightarrow> is_u32 (crc_bits (crc_table_poly p) k c)"
  by (induction k arbitrary: c) (simp_all add: is_u32_xor is_u32_half is_u32_poly)

lemma is_u32_foldl: "is_u32 a \<Longrightarrow> (\<And>c b. is_u32 c \<Longrightarrow> is_u32 (f c b)) \<Longrightarrow> is_u32 (foldl f a s)"
  by (induction s arbitrary: a) simp_all

lemma is_u32_rn: "is_u32 (rn b)"
  using rn_range [of b] by (simp add: is_u32_def)

lemma crc32_range: "0 \<le> crc32 p s \<and> crc32 p s < 2 ^ 32"
proof -
  have "is_u32 0xFFFFFFFF" by (simp add: is_u32_def)
  then have "is_u32 (crc32 p s)"
    unfolding crc32_def by (intro is_u32_xor is_u32_foldl is_u32_bits is_u32_rn)
  then show ?thesis by (simp add: is_u32_def)
qed

fun same_kind :: "frame \<Rightarrow> frame \<Rightarrow> bool" where
  "same_kind FLength FLength = True"
| "same_kind (FCrc p) (FCrc q) = (p = q)"
| "same_kind (FVarintLength _) (FVarintLength _) = True"
| "same_kind _ _ = False"

fun frame_head :: "frame \<Rightarrow> string \<Rightarrow> string" where
  "frame_head FLength s = be 4 (int (length s))"
| "frame_head (FCrc p) s = be 4 (crc32 p s)"
| "frame_head (FVarintLength l) s = put_varint (int (length s))"

lemma wire_frame_head: "wire_frame f s = frame_head f s @ s"
  by (cases f) simp_all

fun frame_value :: "frame \<Rightarrow> string \<Rightarrow> int" where
  "frame_value (FCrc p) s = 0"
| "frame_value f s = int (length s)"

lemma pushD_rd:
  assumes k: "same_kind f f'" and len: "int (length pre + length (frame_head f' s) + length s + length post) \<le> maxInt32"
  shows "pushD f (rd pre (frame_head f' s @ s @ post)) =
      Inr (Inr (frame_value f s), rd (pre @ frame_head f' s) (s @ post)) \<and>
    checkD f (int (length pre)) (frame_value f s) (rd (pre @ frame_head f' s @ s) post) =
      Inr (Inr (), rd (pre @ frame_head f' s @ s) post)"
proof (cases f)
  case FLength
  with k have f': "f' = FLength" by (cases f') simp_all
  let ?n = "int (length s)"
  have ok: "swrap 32 ?n = ?n" "swrap 32 (?n + int (length post)) = ?n + int (length post)" "sint_ok 32 ?n"
    using len by (auto simp: sint_ok_def f' intro!: swrap_id)
  from ok readsD [OF reads_getInts(3), of ?n pre "s @ post"] len show ?thesis
    by (simp add: FLength f' bindD_Inr)
next
  case (FCrc p)
  with k have f': "f' = FCrc p" by (cases f') simp_all
  have "pushD f (rd pre (frame_head f' s @ s @ post)) = Inr (Inr 0, rd (pre @ frame_head f' s) (s @ post))"
    by (simp add: FCrc f' rd_def remaining_def)
  moreover have "checkD f (int (length pre)) 0 (rd (pre @ frame_head f' s @ s) post) =
      Inr (Inr (), rd (pre @ frame_head f' s @ s) post)"
    using crc32_range [of p s] by (simp add: FCrc f' slice_def nat_add_distrib unbe_be)
  ultimately show ?thesis by (simp add: FCrc)
next
  case (FVarintLength l)
  with k obtain l' where f': "f' = FVarintLength l'" by (cases f') simp_all
  show ?thesis
    using readsD [OF reads_getVarint, of "int (length s)" pre "s @ post"] len
    by (simp add: FVarintLength f' sint_ok_def)
qed

lemma reads_frameD:
  assumes "reads (m (frame_value f s)) s v" "same_kind f f'"
  shows "reads (frameD f m) (wire_frame f' s) v"
proof (rule readsI)
  fix pre post :: string
  let ?h = "frame_head f' s"
  assume "int (length pre + length (wire_frame f' s) + length post) \<le> maxInt32"
  then have len: "int (length pre + length ?h + length s + length post) \<le> maxInt32" by (simp add: wire_frame_head)
  from readsD [OF assms(1), of "pre @ ?h" post] len
  have "m (frame_value f s) (rd (pre @ ?h) (s @ post)) = Inr (Inr v, rd (pre @ ?h @ s) post)" by simp
  with pushD_rd [OF assms(2) len]
  show "frameD f m (rd pre (wire_frame f' s @ post)) = Inr (Inr v, rd (pre @ wire_frame f' s) post)"
    by (simp add: frameD_def wire_frame_head bindD_Inr returnD_def)
qed

subsection \<open>A decoder follows an encoder\<close>

text \<open>
  \<open>tree_ok\<close>: the fields of the message are in the range of their types and within the limits of the
  protocol. \<open>decodes m ts v\<close>: on the bytes of such a sequence the decoder returns \<open>v\<close>.
\<close>

fun leaf_ok :: "etree \<Rightarrow> bool" where
  "leaf_ok (EInt8 i) = sint_ok 8 i"
| "leaf_ok (EInt16 i) = sint_ok 16 i"
| "leaf_ok (EInt32 i) = sint_ok 32 i"
| "leaf_ok (EInt64 i) = sint_ok 64 i"
| "leaf_ok (EVarint i) = sint_ok 64 i"
| "leaf_ok (EArrayLength k) = (0 \<le> k \<and> k \<le> 131070)"
| "leaf_ok (EBool b) = True"
| "leaf_ok (EBytes b) = (case b of None \<Rightarrow> True | Some b \<Rightarrow> int (length b) \<le> maxInt32)"
| "leaf_ok (EVarintBytes b) = (case b of None \<Rightarrow> True | Some b \<Rightarrow> int (length b) \<le> maxInt32)"
| "leaf_ok (ERawBytes b) = (int (length b) \<le> maxInt32)"
| "leaf_ok (EString s) = (int (length s) \<le> maxInt16)"
| "leaf_ok (ENullableString s) = (case s of None \<Rightarrow> True | Some s \<Rightarrow> int (length s) \<le> maxInt16)"
| "leaf_ok (EStringArray ss) = (int (length ss) \<le> maxInt32 \<and> list_all (\<lambda>s. int (length s) \<le> maxInt16) ss)"
| "leaf_ok (EInt32Array is) = (int (length is) \<le> maxInt32 \<and> list_all (sint_ok 32) is)"
| "leaf_ok (EInt64Array is) = (int (length is) \<le> maxInt32 \<and> list_all (sint_ok 64) is)"
| "leaf_ok (EFail k) = False"
| "leaf_ok (EFrame f b) = True"

fun tree_ok :: "etree list \<Rightarrow> bool" where
  "tree_ok [] = True"
| "tree_ok (EFrame f b # ts) = (tree_ok b \<and> tree_ok ts)"
| "tree_ok (t # ts) = (leaf_ok t \<and> tree_ok ts)"

definition decodes :: "'a dec \<Rightarrow> etree list \<Rightarrow> 'a \<Rightarrow> bool" where
  "decodes m ts v \<longleftrightarrow> (tree_ok ts \<longrightarrow> reads m (wire ts) v)"

lemma tree_ok_Leaf: "\<not> is_frame t \<Longrightarrow> tree_ok (t # ts) = (leaf_ok t \<and> tree_ok ts)"
  by (cases t) simp_all

lemma tree_ok_append [simp]: "tree_ok (us @ ts) = (tree_ok us \<and> tree_ok ts)"
  by (induction us rule: etrees_induct) (simp_all add: tree_ok_Leaf)

lemma tree_ok_concat: "tree_ok (concat (map f xs)) = (\<forall>x \<in> set xs. tree_ok (f x))"
  by (induction xs) simp_all

lemma wire_concat: "wire (concat (map f xs)) = concat (map (\<lambda>x. wire (f x)) xs)"
  by (induction xs) simp_all

lemma decodes_return: "v = w \<Longrightarrow> decodes (returnD v) [] w"
  by (simp add: decodes_def reads_return)

lemma decodes_bind: "decodes m us v \<Longrightarrow> decodes (k v) ts w \<Longrightarrow> decodes (bindD m k) (us @ ts) w"
  by (auto simp: decodes_def intro: reads_bind)

lemma decodes_leaf:
  assumes "\<not> is_frame t" "leaf_ok t \<Longrightarrow> reads m (wire_leaf t) v"
  shows "decodes m [t] v"
  using assms by (simp add: decodes_def wire_Leaf tree_ok_Leaf)

lemma decodes_leaves:
  "decodes getInt8 [EInt8 i] i" "decodes getInt16 [EInt16 i] i" "decodes getInt32 [EInt32 i] i"
  "decodes getInt64 [EInt64 i] i" "decodes getVarint [EVarint i] i" "decodes getBool [EBool b] b"
  "decodes getBytes [EBytes bs] bs" "decodes getVarintBytes [EVarintBytes bs] bs"
  "decodes getString [EString s] s" "decodes getNullableString [ENullableString os] os"
  "decodes getStringArray [EStringArray ss] ss"
  "decodes getInt32Array [EInt32Array is] is" "decodes getInt64Array [EInt64Array is] is"
  by (rule decodes_leaf;
      auto simp: list_all_iff getInt32Array_def getInt64Array_def simp del: One_nat_def be.simps
        intro: reads_getInts reads_getVarint reads_getBool reads_getBytes
        reads_getVarintBytes reads_getString reads_getIntArray reads_getStringArray
        split: option.splits)+

lemma decodes_bind_Nil: "decodes m ts v \<Longrightarrow> decodes (k v) [] w \<Longrightarrow> decodes (bindD m k) ts w"
  using decodes_bind [of m ts v k "[]" w] by simp

lemma decodes_leaf_bind: "decodes m [t] v \<Longrightarrow> decodes (k v) ts w \<Longrightarrow> decodes (bindD m k) (t # ts) w"
  using decodes_bind [of m "[t]" v k ts w] by simp

lemmas decodes_leaf_binds = decodes_leaves [THEN decodes_leaf_bind]

lemma decodes_frame:
  "decodes (m (frame_value f (wire b))) b v \<Longrightarrow> same_kind f f' \<Longrightarrow> decodes (frameD f m) [EFrame f' b] v"
  by (simp add: decodes_def reads_frameD)

lemma decodes_opt:
  "(c \<Longrightarrow> decodes m ts v) \<Longrightarrow> decodes (optD c x m) (eopt c ts) (if c then v else x)"
  by (simp add: optD_def eopt_def decodes_return)

lemma decodes_pair:
  "decodes m (f (fst p)) (fst p) \<Longrightarrow> decodes m' (g (snd p)) (snd p) \<Longrightarrow> decodes (pairD m m') (epair f g p) p"
  unfolding pairD_def epair_def
  by (erule decodes_bind, erule decodes_bind_Nil) (simp add: decodes_return)

text \<open>An array: every element takes at least a byte, so the count passes the check against the remaining bytes.\<close>

lemma decodes_list:
  assumes el: "\<And>x. x \<in> set xs \<Longrightarrow> decodes m (f x) (g x)"
    and ne: "\<And>x. x \<in> set xs \<Longrightarrow> wire (f x) \<noteq> []"
  shows "decodes (listD m) (earray f xs) (map g xs)" "decodes (sliceD m) (earray f xs) (map g xs)"
proof -
  let ?n = "int (length xs)" and ?t = "concat (map (\<lambda>x. wire (f x)) xs)"
  have le: "length xs \<le> length ?t" using ne by (intro length_concat_ge)
  have loop: "reads (loopD (length xs) m) ?t (map g xs)" if "tree_ok (concat (map f xs))"
    using reads_loopD [of xs m "\<lambda>x. wire (f x)" g] that el by (auto simp: tree_ok_concat decodes_def)
  have slice: "reads (bindD (makeD 8 ?n) (\<lambda>_. loopD (length xs) m)) ?t (map g xs)"
    if "tree_ok (concat (map f xs))" "length xs \<le> 131070"
    using loop [OF that(1)] that(2) by (auto simp: reads_def bindD_def makeD_def)
  show "decodes (listD m) (earray f xs) (map g xs)" "decodes (sliceD m) (earray f xs) (map g xs)"
    by (auto simp: decodes_def listD_def sliceD_def earray_def wire_concat intro!: reads_array_length loop slice le)
qed

lemma put_all_snoc: "put_all (ps @ [(k, v)]) = AList.update k v (put_all ps)"
  by (simp add: put_all_def)

lemma update_fresh: "k \<notin> fst ` set ps \<Longrightarrow> AList.update k v ps = ps @ [(k, v)]"
  by (induction ps) auto

lemma put_all_distinct: "distinct (map fst ps) \<Longrightarrow> put_all ps = ps"
proof (induction ps rule: rev_induct)
  case (snoc p ps)
  then show ?case by (cases p) (simp add: put_all_snoc update_fresh)
qed (simp add: put_all_def)

lemma decodes_map:
  assumes "\<And>x. x \<in> set xs \<Longrightarrow> decodes m (f x) (g x)" "\<And>x. x \<in> set xs \<Longrightarrow> wire (f x) \<noteq> []"
    "distinct (map fst (map g xs))"
  shows "decodes (mapD m) (earray f xs) (map g xs)"
  unfolding mapD_def
  by (rule decodes_bind_Nil [OF decodes_list(1) [OF assms(1,2)]])
     (simp_all add: decodes_return put_all_distinct assms(3) del: map_map)

lemmas decodes_list_id = decodes_list [where g = "\<lambda>x. x", simplified]
lemmas decodes_map_id = decodes_map [where g = "\<lambda>x. x", simplified]

lemma be_nonempty [simp]: "be k n = [] \<longleftrightarrow> k = 0"
  by (metis length_be length_0_conv)

lemma wire_string_nonempty [simp]: "wire_string s \<noteq> []"
  by (simp add: wire_string_def)

lemma decode_reads: "reads m s v \<Longrightarrow> int (length s) \<le> maxInt32 \<Longrightarrow> decode m s = Inr (Inr v)"
  using readsD [of m s v "[]" "[]"] by (simp add: decode_def rd_def)

subsection \<open>The encoder accepts what is in range\<close>

lemma prep_leaf_ok: "leaf_ok t \<Longrightarrow> \<exists>m. prep_leaf t n = Inr m"
proof (cases t)
  case (EStringArray ss)
  have "list_all (\<lambda>s. int (length s) \<le> maxInt16) ss \<Longrightarrow> \<exists>m. prep_strings ss n = Inr m" for n
    by (induction ss arbitrary: n) (simp_all add: prep_string_def)
  moreover assume "leaf_ok t"
  ultimately show ?thesis by (simp add: EStringArray prep_array_def)
qed (auto simp: prep_raw_def prep_string_def prep_array_def split: option.splits)

lemma prep_ok: "tree_ok ts \<Longrightarrow> \<exists>m ts'. prep ts n = Inr (m, ts')"
proof (induction ts arbitrary: n rule: etrees_induct)
  case (Frame f b ts)
  then obtain k b' where "prep b (n + reserveLength f) = Inr (k, b')" by fastforce
  moreover obtain k' f' where "prep_pop f n k = (k', f')" by fastforce
  moreover obtain m ts' where "prep ts k' = Inr (m, ts')" using Frame by fastforce
  ultimately show ?case by simp
next
  case (Leaf t ts)
  then obtain k where "prep_leaf t n = Inr k" using prep_leaf_ok [of t n] by (auto simp: tree_ok_Leaf)
  moreover obtain m ts' where "prep ts k = Inr (m, ts')" using Leaf by (fastforce simp: tree_ok_Leaf)
  ultimately show ?case using Leaf.hyps by (simp add: prep_Leaf)
qed simp

lemma encode_ok:
  assumes "tree_ok ts" "int (length (wire ts)) \<le> MaxRequestSize"
  shows "encode ts = Inr (Inr (wire ts))"
proof -
  from prep_ok [OF assms(1)] obtain m ts' where p: "prep ts 0 = Inr (m, ts')" by blast
  from prep_wire [OF p] assms(2) show ?thesis by (intro encode_wire [OF p]) simp
qed

lemma decode_encode:
  assumes "decodes m ts v" "tree_ok ts" "int (length (wire ts)) \<le> MaxRequestSize"
  shows "encode ts = Inr (Inr (wire ts)) \<and> decode m (wire ts) = Inr (Inr v)"
  using assms encode_ok [of ts] by (auto simp: decodes_def MaxRequestSize_def intro: decode_reads)

subsection \<open>Decoding arbitrary bytes\<close>

text \<open>
  \<open>guarded P m\<close>: on any buffer the decoder moves forward inside it, and a panic is one that \<open>P\<close> allows.
\<close>

definition is_packet :: "string \<Rightarrow> bool" where
  "is_packet s \<longleftrightarrow> int (length s) \<le> maxInt32"

definition rd_ok :: "rdec \<Rightarrow> bool" where
  "rd_ok d \<longleftrightarrow> 0 \<le> rd_off d \<and> rd_off d \<le> int (length (rd_raw d)) \<and> is_packet (rd_raw d)"

definition forward :: "rdec \<Rightarrow> rdec \<Rightarrow> bool" where
  "forward d d' \<longleftrightarrow> rd_raw d' = rd_raw d \<and> rd_off d \<le> rd_off d' \<and> rd_off d' \<le> int (length (rd_raw d))"

definition guarded :: "(go_panic \<Rightarrow> bool) \<Rightarrow> 'a dec \<Rightarrow> bool" where
  "guarded P m \<longleftrightarrow> (\<forall>d. rd_ok d \<longrightarrow> (case m d of Inl p \<Rightarrow> P p | Inr (r, d') \<Rightarrow> forward d d'))"

lemma guardedD:
  "guarded P m \<Longrightarrow> rd_ok d \<Longrightarrow> (\<And>p. m d = Inl p \<Longrightarrow> P p \<Longrightarrow> Q) \<Longrightarrow>
    (\<And>r d'. m d = Inr (r, d') \<Longrightarrow> forward d d' \<Longrightarrow> Q) \<Longrightarrow> Q"
  by (cases "m d") (auto simp: guarded_def)

lemma forward_ok: "rd_ok d \<Longrightarrow> forward d d' \<Longrightarrow> rd_ok d'"
  by (auto simp: rd_ok_def forward_def)

lemma forward_trans: "forward d d' \<Longrightarrow> forward d' d'' \<Longrightarrow> forward d d''"
  by (auto simp: forward_def)

lemma forward_refl: "rd_ok d \<Longrightarrow> forward d d"
  by (simp add: rd_ok_def forward_def)

text \<open>\<open>yields Q m\<close>: a value that the decoder returns satisfies \<open>Q\<close>.\<close>

definition yields :: "('a \<Rightarrow> bool) \<Rightarrow> 'a dec \<Rightarrow> bool" where
  "yields Q m \<longleftrightarrow> (\<forall>d x d'. rd_ok d \<longrightarrow> m d = Inr (Inr x, d') \<longrightarrow> Q x)"

lemma guarded_bind_value:
  assumes "guarded P m" "yields Q m" "\<And>x. Q x \<Longrightarrow> guarded P (k x)"
  shows "guarded P (bindD m k)"
  unfolding guarded_def
proof (intro allI impI)
  fix d assume d: "rd_ok d"
  show "case bindD m k d of Inl p \<Rightarrow> P p | Inr (r, d') \<Rightarrow> forward d d'"
  proof (rule guardedD [OF assms(1) d])
    fix r d' assume m: "m d = Inr (r, d')" and f: "forward d d'"
    then have d': "rd_ok d'" using d by (auto intro: forward_ok)
    show ?thesis
    proof (cases r)
      case (Inr x)
      with m d assms(2) have "Q x" by (auto simp: yields_def)
      show ?thesis using d' by (rule guardedD [OF assms(3) [OF \<open>Q x\<close>]])
        (use m f Inr in \<open>auto simp: bindD_def dest: forward_trans\<close>)
    qed (use m f in \<open>simp add: bindD_def\<close>)
  qed (simp add: bindD_def)
qed

lemma guarded_bind: "guarded P m \<Longrightarrow> (\<And>x. guarded P (k x)) \<Longrightarrow> guarded P (bindD m k)"
  by (rule guarded_bind_value [where Q = "\<lambda>_. True"]) (simp_all add: yields_def)

lemma yields_bind_value:
  assumes "guarded P m" "yields R m" "\<And>x. R x \<Longrightarrow> yields Q (k x)"
  shows "yields Q (bindD m k)"
  unfolding yields_def
proof (intro allI impI)
  fix d x d' assume d: "rd_ok d" and b: "bindD m k d = Inr (Inr x, d')"
  show "Q x"
  proof (rule guardedD [OF assms(1) d])
    fix r d1 assume m: "m d = Inr (r, d1)" "forward d d1"
    then obtain y where "r = Inr y" "k y d1 = Inr (Inr x, d')" using b by (cases r) (auto simp: bindD_def)
    then show "Q x" using assms(2,3) m forward_ok [OF d m(2)] d unfolding yields_def by blast
  qed (use b in \<open>simp add: bindD_def\<close>)
qed

lemma yields_bind: "guarded P m \<Longrightarrow> (\<And>x. yields Q (k x)) \<Longrightarrow> yields Q (bindD m k)"
  by (rule yields_bind_value [where R = "\<lambda>_. True"]) (simp_all add: yields_def)

lemma yields_return: "Q x \<Longrightarrow> yields Q (returnD x)"
  by (simp add: yields_def returnD_def)

lemma guarded_return: "guarded P (returnD x)" "guarded P (failD e)"
  by (simp_all add: guarded_def returnD_def failD_def forward_refl)

lemma guarded_if: "(c \<Longrightarrow> guarded P m) \<Longrightarrow> (\<not> c \<Longrightarrow> guarded P m') \<Longrightarrow> guarded P (if c then m else m')"
  by simp

lemma guarded_insufficient: "guarded P insufficient"
  by (simp add: guarded_def insufficient_def forward_def rd_ok_def)

lemma guarded_getUint: "guarded P (getUint k)"
  by (auto simp: guarded_def getUint_def insufficient_def takeD_def slice_def bindD_def returnD_def
      remaining_def forward_def rd_ok_def)

lemma guarded_getInt: "guarded P (getInt k)"
  unfolding getInt_def by (intro guarded_bind guarded_getUint guarded_return)

lemma guarded_getRawBytes: "guarded P (getRawBytes n)"
  by (auto simp: guarded_def getRawBytes_def insufficient_def takeD_def slice_def remaining_def forward_def rd_ok_def)

lemma guarded_getVarint: "guarded P getVarint"
  unfolding guarded_def
proof (intro allI impI)
  fix d assume d: "rd_ok d"
  let ?s = "drop (nat (rd_off d)) (rd_raw d)"
  have s: "slice (rd_raw d) (rd_off d) (int (length (rd_raw d))) = Inr ?s"
    using d by (simp add: slice_def rd_ok_def)
  obtain x n where v: "varint ?s = (x, n)" by fastforce
  have "n = 0 \<or> 0 < \<bar>n\<bar> \<and> \<bar>n\<bar> \<le> int (length ?s)"
    using uvarint_count [of 0 0 ?s] v by (auto simp: varint_def split: prod.splits)
  moreover have "int (length ?s) = int (length (rd_raw d)) - rd_off d" using d by (auto simp: rd_ok_def)
  ultimately have "n = 0 \<or> rd_off d + \<bar>n\<bar> \<le> int (length (rd_raw d))" by linarith
  with d show "case getVarint d of Inl p \<Rightarrow> P p | Inr (r, d') \<Rightarrow> forward d d'"
    by (cases "n < 0") (auto simp add: getVarint_def s v insufficient_def forward_def rd_ok_def)
qed

lemma bindD_assoc: "bindD (bindD m g) k = bindD m (\<lambda>x. bindD (g x) k)"
  by (rule ext) (auto simp: bindD_def bindR_def split: sum.splits prod.splits)

text \<open>A step of its own, written out on the state.\<close>

lemmas guarded_step = guarded_def insufficient_def takeD_def slice_def bindD_def returnD_def failD_def
  remaining_def forward_def rd_ok_def

lemma guarded_getArrayLength: "guarded P getArrayLength"
  unfolding getArrayLength_def getInt32_def by (rule guarded_bind [OF guarded_getInt]) (auto simp: guarded_step)

lemma guarded_getBool: "guarded P getBool"
  unfolding getBool_def getInt8_def by (intro guarded_bind guarded_getInt guarded_if guarded_return)

lemma guarded_getBytes: "guarded P getBytes" "guarded P getVarintBytes"
  unfolding getBytes_def getVarintBytes_def getInt32_def
  by (intro guarded_bind guarded_getInt guarded_getVarint guarded_if guarded_return guarded_getRawBytes)+

lemma guarded_getString: "guarded P getString" "guarded P getNullableString"
  unfolding getString_def getNullableString_def getStringLength_def bindD_assoc getInt16_def
  by (rule guarded_bind [OF guarded_getInt]; auto simp: guarded_step)+

lemma guarded_loopD: "guarded P m \<Longrightarrow> guarded P (loopD n m)"
  by (induction n) (auto intro: guarded_bind guarded_return)

lemma guarded_makeD: "P MakePanic \<or> 0 \<le> n \<and> n * sz \<le> 2 ^ 48 \<Longrightarrow> guarded P (makeD sz n)"
  by (auto simp: guarded_def makeD_def forward_refl)

lemma guarded_peekInt8: "0 \<le> k \<Longrightarrow> guarded P (peekInt8 k)"
  by (auto simp: guarded_step peekInt8_def get_at_def)

lemma guarded_getInts: "guarded P getInt8" "guarded P getInt16" "guarded P getInt32" "guarded P getInt64"
  unfolding getInt_defs by (rule guarded_getInt)+

lemma guarded_listD: "guarded P m \<Longrightarrow> guarded P (listD m)"
  unfolding listD_def by (intro guarded_bind guarded_getArrayLength guarded_loopD)

lemma guarded_mapD: "guarded P m \<Longrightarrow> guarded P (mapD m)"
  unfolding mapD_def by (intro guarded_bind guarded_listD guarded_return)

lemma guarded_pairD: "guarded P m \<Longrightarrow> guarded P m' \<Longrightarrow> guarded P (pairD m m')"
  unfolding pairD_def by (intro guarded_bind guarded_return)

lemma guarded_optD: "guarded P m \<Longrightarrow> guarded P (optD c x m)"
  unfolding optD_def by (intro guarded_if guarded_return)

lemma guarded_sliceD: "P MakePanic \<Longrightarrow> guarded P m \<Longrightarrow> guarded P (sliceD m)"
  unfolding sliceD_def by (intro guarded_bind guarded_getArrayLength guarded_loopD guarded_makeD) simp_all

text \<open>The counts of the arrays of strings are below \<open>2^32\<close>.\<close>

lemma getUint4_range: "yields (\<lambda>n. 0 \<le> n \<and> n < 2 ^ 32) (getUint 4)"
  unfolding yields_def
proof (intro allI impI)
  fix d n d' assume "getUint 4 d = Inr (Inr n, d')"
  then obtain s where "n = unbe s" "length s = 4"
    by (auto simp: getUint_def insufficient_def bindD_def takeD_def slice_def returnD_def remaining_def
        nat_add_distrib split: if_splits)
  then show "0 \<le> n \<and> n < 2 ^ 32" using unbe_range [of s] by simp
qed

lemma getInt32_range: "yields (sint_ok 32) getInt32"
  by (auto simp: yields_def getInt32_def getInt_def bindD_def returnD_def bindR_def sint_ok_swrap
      split: sum.splits prod.splits)

lemma guarded_getStringArray: "guarded P getStringArray"
  unfolding getStringArray_def
  by (rule guarded_bind_value [OF guarded_getUint getUint4_range])
     (auto intro!: guarded_if guarded_return guarded_bind guarded_makeD guarded_loopD
       guarded_getString)

lemma loopD_forward:
  assumes step: "\<And>d. rd_ok d \<Longrightarrow> int k \<le> remaining d \<Longrightarrow> \<exists>x. m d = Inr (Inr x, d\<lparr>rd_off := rd_off d + int k\<rparr>)"
  shows "rd_ok d \<Longrightarrow> int k * int n \<le> remaining d \<Longrightarrow> \<exists>xs d'. loopD n m d = Inr (Inr xs, d') \<and> forward d d'"
proof (induction n arbitrary: d)
  case (Suc n)
  let ?d = "d\<lparr>rd_off := rd_off d + int k\<rparr>"
  have room: "int k + int k * int n \<le> remaining d" "0 \<le> int k * int n"
    using Suc.prems(2) by (simp_all add: algebra_simps)
  then have le: "int k \<le> remaining d" by linarith
  with step Suc.prems(1) obtain x where 1: "m d = Inr (Inr x, ?d)" by blast
  have fwd: "forward d ?d" using le by (simp add: forward_def remaining_def)
  obtain xs d' where 2: "loopD n m ?d = Inr (Inr xs, d')" "forward ?d d'"
    using Suc.IH [of ?d] forward_ok [OF Suc.prems(1) fwd] room by (auto simp: remaining_def)
  with 1 fwd show ?case by (auto simp: bindD_Inr returnD_def intro: forward_trans)
qed (auto simp: returnD_def forward_refl)

lemma takeD_forward: "rd_ok d \<Longrightarrow> int k \<le> remaining d \<Longrightarrow>
    \<exists>x. bindD (takeD (int k)) (\<lambda>s. returnD (f s)) d = Inr (Inr x, d\<lparr>rd_off := rd_off d + int k\<rparr>)"
  by (auto simp: bindD_def takeD_def slice_def returnD_def rd_ok_def remaining_def)

lemma guarded_getIntArray: "0 < k \<Longrightarrow> guarded P (getIntArray k)"
  unfolding getIntArray_def
proof (rule guarded_bind_value [OF guarded_getUint getUint4_range])
  fix n :: int assume k: "0 < k" and n: "0 \<le> n \<and> n < 2 ^ 32"
  let ?l = "loopD (nat n) (bindD (takeD (int k)) (\<lambda>s. returnD (swrap (8 * k) (unbe s))))"
  let ?m = "\<lambda>d. if remaining d < int k * n then insufficient d else if n = 0 then Inr (Inr [], d)
      else bindD (makeD (int k) n) (\<lambda>_. ?l) d"
  show "guarded P ?m"
    unfolding guarded_def
  proof (intro allI impI)
    fix d assume d: "rd_ok d"
    show "case ?m d of Inl p \<Rightarrow> P p | Inr (r, d') \<Rightarrow> forward d d'"
    proof (cases "remaining d < int k * n")
      case True
      then show ?thesis using d by (simp add: insufficient_def forward_def rd_ok_def)
    next
      case False
      with n d loopD_forward [OF takeD_forward, of k d "nat n"] obtain xs d' where "?l d = Inr (Inr xs, d')" "forward d d'" by fastforce
      moreover have "makeD (int k) n d = Inr (Inr (), d)"
        using n False d by (auto simp: makeD_def rd_ok_def is_packet_def remaining_def mult.commute)
      ultimately show ?thesis using False d by (simp add: bindD_Inr forward_refl)
    qed
  qed
qed

lemma guarded_getIntArrays: "guarded P getInt32Array" "guarded P getInt64Array"
  unfolding getInt32Array_def getInt64Array_def by (simp_all add: guarded_getIntArray)

lemma guarded_pushD: "guarded P (pushD f)"
proof (cases f)
  case FLength
  then show ?thesis unfolding pushD.simps by (simp, intro guarded_bind guarded_getInts) (auto simp: guarded_step)
next
  case (FVarintLength l)
  then show ?thesis by (simp add: guarded_getVarint)
qed (auto simp: guarded_step)

text \<open>The check at the end of a frame stays inside the buffer, since the decoder has passed the field.\<close>

lemma checkD_total:
  assumes d: "rd_ok d" and 1: "pushD f d = Inr (Inr n, d1)" "forward d d1" and 2: "forward d1 d2"
  shows "\<exists>r. checkD f (rd_off d) n d2 = Inr (r, d2)"
proof (cases f)
  case (FCrc p)
  then have "rd_off d1 = rd_off d + 4" using 1(1) by (auto simp: insufficient_def split: if_splits)
  with 2 1(2) d FCrc show ?thesis by (auto simp: slice_def forward_def rd_ok_def)
qed auto

lemma guarded_frame:
  assumes m: "\<And>n. guarded P (m n)"
    and k: "\<And>n d1 r d2. pushD f d = Inr (Inr n, d1) \<Longrightarrow> forward d d1 \<Longrightarrow> m n d1 = Inr (Inr r, d2) \<Longrightarrow>
      forward d1 d2 \<Longrightarrow> \<exists>r'. k n r d2 = Inr (r', d2)"
    and d: "rd_ok d"
  shows "case bindD (pushD f) (\<lambda>n. bindD (m n) (k n)) d of Inl p \<Rightarrow> P p | Inr (r, d') \<Rightarrow> forward d d'"
proof (rule guardedD [OF guarded_pushD d])
  fix r d1 assume 1: "pushD f d = Inr (r, d1)" "forward d d1"
  show ?thesis
  proof (cases r)
    case (Inr n)
    show ?thesis
    proof (rule guardedD [OF m forward_ok [OF d 1(2)], of n])
      fix r2 d2 assume 2: "m n d1 = Inr (r2, d2)" "forward d1 d2"
      show ?thesis
      proof (cases r2)
        case (Inr x)
        with k [of n d1 x d2] 1 2 \<open>r = Inr n\<close> obtain r' where "k n x d2 = Inr (r', d2)" by blast
        with 1 2 \<open>r = Inr n\<close> Inr show ?thesis by (simp add: bindD_def forward_trans)
      qed (use 1 2 Inr in \<open>auto simp: bindD_def intro: forward_trans\<close>)
    qed (use 1 Inr in \<open>simp add: bindD_def\<close>)
  qed (use 1 in \<open>simp add: bindD_def\<close>)
qed (simp add: bindD_def)

lemma guarded_frameD:
  assumes "\<And>n. guarded P (m n)"
  shows "guarded P (frameD f m)"
  unfolding guarded_def frameD_def
proof (intro allI impI guarded_frame assms)
  fix d n d1 r d2
  assume d: "rd_ok d" and 1: "pushD f d = Inr (Inr n, d1)" "forward d d1" and 2: "forward d1 d2"
  from checkD_total [OF d 1 2] show "\<exists>r'. bindD (checkD f (rd_off d) n) (\<lambda>_. returnD r) d2 = Inr (r', d2)"
    by (auto simp: bindD_def returnD_def split: sum.splits)
qed

lemma guarded_subsetD:
  assumes "guarded P m" "is_packet buf"
  shows "guarded P (subsetD m buf)"
  unfolding guarded_def
proof (intro allI impI)
  fix d assume d: "rd_ok d"
  have "rd_ok \<lparr>rd_raw = buf, rd_off = 0\<rparr>" using assms(2) by (simp add: rd_ok_def)
  then show "case subsetD m buf d of Inl p \<Rightarrow> P p | Inr (r, d') \<Rightarrow> forward d d'"
    by (rule guardedD [OF assms(1)]) (simp_all add: subsetD_def forward_refl [OF d])
qed

lemmas guarded_intros = guarded_bind guarded_return guarded_if guarded_getInts guarded_getVarint
  guarded_getArrayLength guarded_getBool guarded_getBytes guarded_getString guarded_getIntArrays
  guarded_getStringArray guarded_listD guarded_mapD guarded_pairD guarded_optD guarded_sliceD guarded_frameD
  guarded_loopD guarded_getRawBytes

end
