(* ===== verification/Kafka_Fields.thy ===== *)
theory Kafka_Fields
  imports Kafka_Decoder "HOL-Library.Signed_Division"
begin

section \<open>Fields of a message\<close>

text \<open>
  The calls of an \<open>encode\<close> method are written as \<open>concat\<close> of its blocks: a run of primitive calls, an array
  (\<open>earray\<close>), a part that a version has (\<open>eopt\<close>), the calls of a nested message. The rules of this theory
  follow a decoder field by field along these blocks.
\<close>

lemma decodes_Nil_block: "decodes m (concat cs) w \<Longrightarrow> decodes m (concat ([] # cs)) w"
  by simp

lemma decodes_done: "v = w \<Longrightarrow> decodes (returnD v) (concat []) w"
  by (simp add: decodes_return)

lemma decodes_field:
  "decodes m [t] v \<Longrightarrow> decodes (k v) (concat (c # cs)) w \<Longrightarrow> decodes (bindD m k) (concat ((t # c) # cs)) w"
  using decodes_leaf_bind [of m t v k "concat (c # cs)" w] by simp

lemma decodes_block:
  "decodes m us v \<Longrightarrow> decodes (k v) (concat cs) w \<Longrightarrow> decodes (bindD m k) (concat (us # cs)) w"
  using decodes_bind [of m us v k "concat cs" w] by simp

lemma decodes_opt_block:
  "decodes m us v \<Longrightarrow> decodes (k (if c then v else x)) (concat cs) w \<Longrightarrow>
    decodes (bindD (optD c x m) k) (concat (eopt c us # cs)) w"
  by (rule decodes_block [OF decodes_opt])

lemmas decodes_array_blocks =
  decodes_list_id(1) [THEN decodes_block] decodes_list_id(2) [THEN decodes_block]
  decodes_map_id [THEN decodes_block]
  decodes_list_id(1) [THEN decodes_opt_block] decodes_list_id(2) [THEN decodes_opt_block]
  decodes_map_id [THEN decodes_opt_block]

lemmas decodes_fields =
  decodes_Nil_block decodes_done
  decodes_leaves [THEN decodes_field] decodes_leaves [THEN decodes_opt_block]
  decodes_array_blocks

lemmas decodes_elements = decodes_pair decodes_leaves decodes_list_id decodes_map_id

lemma wire_epair [simp]: "wire (epair f g p) = wire (f (fst p)) @ wire (g (snd p))"
  by (simp add: epair_def)

lemma wire_earray_nonempty [simp]: "wire (earray f xs) \<noteq> []"
  by (simp add: earray_def)

text \<open>A message that refuses to be encoded has no bytes to decode.\<close>

lemma decodes_unless_fail: "(\<not> c \<Longrightarrow> decodes m ts v) \<Longrightarrow> decodes m (if c then [EFail e] else ts) v"
  by (simp add: decodes_def)

text \<open>Counts that a message handles itself.\<close>

lemma decodes_count:
  assumes "decodes (k (int (length xs))) (concat (map f xs)) v" "\<And>x. x \<in> set xs \<Longrightarrow> wire (f x) \<noteq> []"
  shows "decodes (bindD getArrayLength k) (earray f xs) v"
proof -
  have "length xs \<le> length (concat (map (\<lambda>x. wire (f x)) xs))" using assms(2) by (intro length_concat_ge)
  then show ?thesis using assms(1)
    by (auto simp: decodes_def earray_def wire_concat intro!: reads_array_length)
qed

lemma decodes_count_none: "decodes getArrayLength [EInt32 (-1)] (-1)"
proof -
  have "reads getArrayLength (be 4 (-1)) (-1)"
  proof (rule readsI)
    fix pre post :: string
    assume "int (length pre + length (be 4 (-1)) + length post) \<le> maxInt32"
    from readsD [OF reads_getInts(3) this] have
      "getInt32 (rd pre (be 4 (-1) @ post)) = Inr (Inr (-1), rd (pre @ be 4 (-1)) post)" by (simp add: sint_ok_def)
    then show "getArrayLength (rd pre (be 4 (-1) @ post)) = Inr (Inr (-1), rd (pre @ be 4 (-1)) post)"
      by (simp add: getArrayLength_def bindD_Inr)
  qed
  then show ?thesis by (simp add: decodes_def)
qed

lemma decodes_count_int32: "decodes getInt32 [EArrayLength n] n"
  by (auto simp: decodes_def sint_ok_def intro!: reads_getInts)

lemma decodes_loop:
  "(\<And>x. x \<in> set xs \<Longrightarrow> decodes m (f x) (g x)) \<Longrightarrow> n = length xs \<Longrightarrow>
    decodes (loopD n m) (concat (map f xs)) (map g xs)"
  using reads_loopD [of xs m "\<lambda>x. wire (f x)" g] by (auto simp: decodes_def tree_ok_concat wire_concat)

lemma decodes_make: "0 \<le> n \<Longrightarrow> n * sz \<le> 2 ^ 48 \<Longrightarrow> decodes (k ()) ts v \<Longrightarrow> decodes (bindD (makeD sz n) k) ts v"
  by (simp add: decodes_def reads_def bindD_def makeD_def)

lemma decodes_strings_count:
  assumes "decodes (k (int (length ss))) (concat (map (\<lambda>s. [EString s]) ss)) v" "int (length ss) \<le> 131070"
  shows "decodes (bindD getArrayLength k) [EStringArray ss] v"
proof -
  have "decodes (bindD getArrayLength k) (earray (\<lambda>s. [EString s]) ss) v"
    using assms(1) by (rule decodes_count) simp
  moreover have "tree_ok [EStringArray ss] \<Longrightarrow> tree_ok (earray (\<lambda>s. [EString s]) ss)"
    using assms(2) by (auto simp: earray_def tree_ok_concat list_all_iff simp del: concat_map_singleton)
  moreover have "wire [EStringArray ss] = wire (earray (\<lambda>s. [EString s]) ss)"
    by (simp add: earray_def wire_concat del: concat_map_singleton)
  ultimately show ?thesis by (simp only: decodes_def) blast
qed

text \<open>\<open>getString\<close> reads a missing string as the empty one.\<close>

lemma decodes_null_string: "decodes getString [ENullableString os] (case os of None \<Rightarrow> [] | Some s \<Rightarrow> s)"
proof (cases os)
  case None
  have "reads getString (be 2 (-1)) []"
    by (rule readsI)
       (simp add: getString_def sint_ok_def bindD_Inr [where m = getStringLength, OF getStringLength_rd] returnD_def)
  with None show ?thesis by (simp add: decodes_def)
qed (simp add: decodes_def reads_getString)

text \<open>A step whose error is swallowed: the rest is skipped and the message keeps the value \<open>x\<close>.\<close>

definition quietD :: "'a dec \<Rightarrow> 'b \<Rightarrow> ('a \<Rightarrow> 'b dec) \<Rightarrow> 'b dec" where
  "quietD m x k d = bindR (m d) (\<lambda>(r, d'). case r of Inl e \<Rightarrow> Inr (Inr x, d') | Inr v \<Rightarrow> k v d')"

lemma quietD_Inr: "m d = Inr (Inr v, d') \<Longrightarrow> quietD m x k d = k v d'"
  by (simp add: quietD_def)

lemma decodes_quiet:
  assumes "decodes m [t] v" "decodes (k v) (concat (c # cs)) w"
  shows "decodes (quietD m x k) (concat ((t # c) # cs)) w"
proof -
  have "decodes (bindD m k) (concat ((t # c) # cs)) w" using assms by (rule decodes_field)
  moreover have "reads m (wire [t]) v \<Longrightarrow> reads (bindD m k) (wire [t] @ s) w \<Longrightarrow> reads (quietD m x k) (wire [t] @ s) w" for s
  proof (rule readsI)
    fix pre post :: string
    assume m: "reads m (wire [t]) v" and r: "reads (bindD m k) (wire [t] @ s) w"
      and len: "int (length pre + length (wire [t] @ s) + length post) \<le> maxInt32"
    from len have "m (rd pre (wire [t] @ s @ post)) = Inr (Inr v, rd (pre @ wire [t]) (s @ post))"
      by (intro readsD [OF m]) simp
    with readsD [OF r len] show "quietD m x k (rd pre ((wire [t] @ s) @ post)) = Inr (Inr w, rd (pre @ wire [t] @ s) post)"
      by (simp add: quietD_Inr bindD_Inr)
  qed
  ultimately show ?thesis using assms(1) wire_append [of "[t]" "concat (c # cs)"] tree_ok_append [of "[t]" "concat (c # cs)"]
    by (simp add: decodes_def)
qed

lemma guarded_quiet:
  assumes "guarded P m" "\<And>v. guarded P (k v)"
  shows "guarded P (quietD m x k)"
proof -
  have "guarded P (bindD m k)" using assms by (rule guarded_bind)
  then show ?thesis using assms(1)
    by (auto simp: guarded_def bindD_def quietD_def bindR_def split: sum.splits)
qed

subsection \<open>Durations\<close>

text \<open>
  A \<open>time.Duration\<close> counts nanoseconds. The protocol has milliseconds in 32 bits: \<open>int32(d / time.Millisecond)\<close>
  on one side and \<open>time.Duration(ms) * time.Millisecond\<close> on the other. A duration that is a whole number of
  milliseconds in that range survives.
\<close>

definition millis32 :: "int \<Rightarrow> int" where
  "millis32 d = swrap 32 (d sdiv 1000000)"

definition getMillis32 :: "int dec" where
  "getMillis32 = bindD getInt32 (\<lambda>ms. returnD (ms * 1000000))"

definition is_millis :: "int \<Rightarrow> bool" where
  "is_millis d \<longleftrightarrow> d mod 1000000 = 0 \<and> sint_ok 32 (d div 1000000)"

lemma millis32_mult: "is_millis d \<Longrightarrow> millis32 d * 1000000 = d"
proof -
  assume d: "is_millis d"
  have "d sdiv 1000000 = d div 1000000"
    using d by (auto simp: is_millis_def signed_divide_int_def sgn_if dvd_eq_mod_eq_0 div_minus_right
        dvd_neg_div [symmetric] simp del: dvd_eq_mod_eq_0 [symmetric])
  then show ?thesis using d by (auto simp: is_millis_def millis32_def swrap_id)
qed

lemma is_millis_0 [simp]: "is_millis 0"
  by (simp add: is_millis_def sint_ok_def)

lemma decodes_millis: "is_millis d \<Longrightarrow> decodes getMillis32 [EInt32 (millis32 d)] d"
  unfolding getMillis32_def
  by (rule decodes_bind_Nil [OF decodes_leaves(3)]) (simp add: decodes_return millis32_mult)

lemmas decodes_millis_fields = decodes_millis [THEN decodes_field] decodes_millis [THEN decodes_opt_block]

lemma guarded_millis: "guarded P getMillis32"
  unfolding getMillis32_def by (intro guarded_intros)

end
