(* ===== verification/Kafka_Group_Messages.thy ===== *)
theory Kafka_Group_Messages
  imports Kafka_Fields
begin

section \<open>Messages of consumer groups, authentication and version negotiation\<close>

text \<open>
  One record, encoder and decoder for each message of \<open>kafka/\<close> that a client exchanges with the coordinator of
  a group, with the messages of the SASL handshake and of \<open>ApiVersions\<close>. A \<open>nil\<close> and an empty slice or map
  are the same list where the code only ranges over it. A map is the list of its pairs in the order in which
  the encoder meets them, so the keys are distinct. \<open>canon\<close> says that the keys are distinct and that a field
  which the version does not carry has its zero value. For each message: what is encoded is decoded to the
  same value, and the decoder on arbitrary bytes stays inside the buffer (\<open>guarded\<close>).
\<close>

record HeartbeatRequest =
  hbq_GroupId :: string
  hbq_GenerationId :: int
  hbq_MemberId :: string

definition enc_HeartbeatRequest :: "HeartbeatRequest \<Rightarrow> etree list" where
  "enc_HeartbeatRequest r =
     concat [[EString (hbq_GroupId r), EInt32 (hbq_GenerationId r), EString (hbq_MemberId r)]]"

definition dec_HeartbeatRequest :: "int \<Rightarrow> HeartbeatRequest dec" where
  "dec_HeartbeatRequest version =
     bindD getString (\<lambda>GroupId.
     bindD getInt32 (\<lambda>GenerationId.
     bindD getString (\<lambda>MemberId.
     returnD \<lparr>hbq_GroupId = GroupId, hbq_GenerationId = GenerationId,
       hbq_MemberId = MemberId\<rparr>)))"

lemma decodes_HeartbeatRequest:
  "decodes (dec_HeartbeatRequest version) (enc_HeartbeatRequest r) r"
  unfolding dec_HeartbeatRequest_def enc_HeartbeatRequest_def
  by (intro decodes_fields decodes_elements)
     (auto)

lemma guarded_HeartbeatRequest: "guarded P (dec_HeartbeatRequest version)"
  unfolding dec_HeartbeatRequest_def by (intro guarded_intros)

record HeartbeatResponse =
  hbp_Err :: int

definition enc_HeartbeatResponse :: "HeartbeatResponse \<Rightarrow> etree list" where
  "enc_HeartbeatResponse r =
     concat [[EInt16 (hbp_Err r)]]"

definition dec_HeartbeatResponse :: "int \<Rightarrow> HeartbeatResponse dec" where
  "dec_HeartbeatResponse version =
     bindD getInt16 (\<lambda>Err.
     returnD \<lparr>hbp_Err = Err\<rparr>)"

lemma decodes_HeartbeatResponse:
  "decodes (dec_HeartbeatResponse version) (enc_HeartbeatResponse r) r"
  unfolding dec_HeartbeatResponse_def enc_HeartbeatResponse_def
  by (intro decodes_fields decodes_elements)
     (auto)

lemma guarded_HeartbeatResponse: "guarded P (dec_HeartbeatResponse version)"
  unfolding dec_HeartbeatResponse_def by (intro guarded_intros)

record LeaveGroupRequest =
  lgq_GroupId :: string
  lgq_MemberId :: string

definition enc_LeaveGroupRequest :: "LeaveGroupRequest \<Rightarrow> etree list" where
  "enc_LeaveGroupRequest r =
     concat [[EString (lgq_GroupId r), EString (lgq_MemberId r)]]"

definition dec_LeaveGroupRequest :: "int \<Rightarrow> LeaveGroupRequest dec" where
  "dec_LeaveGroupRequest version =
     bindD getString (\<lambda>GroupId.
     bindD getString (\<lambda>MemberId.
     returnD \<lparr>lgq_GroupId = GroupId, lgq_MemberId = MemberId\<rparr>))"

lemma decodes_LeaveGroupRequest:
  "decodes (dec_LeaveGroupRequest version) (enc_LeaveGroupRequest r) r"
  unfolding dec_LeaveGroupRequest_def enc_LeaveGroupRequest_def
  by (intro decodes_fields decodes_elements)
     (auto)

lemma guarded_LeaveGroupRequest: "guarded P (dec_LeaveGroupRequest version)"
  unfolding dec_LeaveGroupRequest_def by (intro guarded_intros)

record LeaveGroupResponse =
  lgp_Err :: int

definition enc_LeaveGroupResponse :: "LeaveGroupResponse \<Rightarrow> etree list" where
  "enc_LeaveGroupResponse r =
     concat [[EInt16 (lgp_Err r)]]"

definition dec_LeaveGroupResponse :: "int \<Rightarrow> LeaveGroupResponse dec" where
  "dec_LeaveGroupResponse version =
     bindD getInt16 (\<lambda>Err.
     returnD \<lparr>lgp_Err = Err\<rparr>)"

lemma decodes_LeaveGroupResponse:
  "decodes (dec_LeaveGroupResponse version) (enc_LeaveGroupResponse r) r"
  unfolding dec_LeaveGroupResponse_def enc_LeaveGroupResponse_def
  by (intro decodes_fields decodes_elements)
     (auto)

lemma guarded_LeaveGroupResponse: "guarded P (dec_LeaveGroupResponse version)"
  unfolding dec_LeaveGroupResponse_def by (intro guarded_intros)

record SaslHandshakeRequest =
  shq_Mechanism :: string
  shq_Version :: int

definition enc_SaslHandshakeRequest :: "SaslHandshakeRequest \<Rightarrow> etree list" where
  "enc_SaslHandshakeRequest r =
     concat [[EString (shq_Mechanism r)]]"

definition dec_SaslHandshakeRequest :: "int \<Rightarrow> SaslHandshakeRequest dec" where
  "dec_SaslHandshakeRequest version =
     bindD getString (\<lambda>Mechanism.
     returnD \<lparr>shq_Mechanism = Mechanism, shq_Version = 0\<rparr>)"

definition canon_SaslHandshakeRequest :: "SaslHandshakeRequest \<Rightarrow> bool" where
  "canon_SaslHandshakeRequest r \<longleftrightarrow>
     shq_Version r = 0"

lemma decodes_SaslHandshakeRequest:
  "canon_SaslHandshakeRequest r \<Longrightarrow> 
    decodes (dec_SaslHandshakeRequest version) (enc_SaslHandshakeRequest r) r"
  unfolding dec_SaslHandshakeRequest_def enc_SaslHandshakeRequest_def
  by (intro decodes_fields decodes_elements)
     (auto simp: canon_SaslHandshakeRequest_def)

lemma guarded_SaslHandshakeRequest: "guarded P (dec_SaslHandshakeRequest version)"
  unfolding dec_SaslHandshakeRequest_def by (intro guarded_intros)

record SaslHandshakeResponse =
  shp_Err :: int
  shp_EnabledMechanisms :: "string list"

definition enc_SaslHandshakeResponse :: "SaslHandshakeResponse \<Rightarrow> etree list" where
  "enc_SaslHandshakeResponse r =
     concat [[EInt16 (shp_Err r), EStringArray (shp_EnabledMechanisms r)]]"

definition dec_SaslHandshakeResponse :: "int \<Rightarrow> SaslHandshakeResponse dec" where
  "dec_SaslHandshakeResponse version =
     bindD getInt16 (\<lambda>Err.
     bindD getStringArray (\<lambda>EnabledMechanisms.
     returnD \<lparr>shp_Err = Err, shp_EnabledMechanisms = EnabledMechanisms\<rparr>))"

lemma decodes_SaslHandshakeResponse:
  "decodes (dec_SaslHandshakeResponse version) (enc_SaslHandshakeResponse r) r"
  unfolding dec_SaslHandshakeResponse_def enc_SaslHandshakeResponse_def
  by (intro decodes_fields decodes_elements)
     (auto)

lemma guarded_SaslHandshakeResponse: "guarded P (dec_SaslHandshakeResponse version)"
  unfolding dec_SaslHandshakeResponse_def by (intro guarded_intros)

record SaslAuthenticateRequest =
  saq_SaslAuthBytes :: "string option"

definition enc_SaslAuthenticateRequest :: "SaslAuthenticateRequest \<Rightarrow> etree list" where
  "enc_SaslAuthenticateRequest r =
     concat [[EBytes (saq_SaslAuthBytes r)]]"

definition dec_SaslAuthenticateRequest :: "int \<Rightarrow> SaslAuthenticateRequest dec" where
  "dec_SaslAuthenticateRequest version =
     bindD getBytes (\<lambda>SaslAuthBytes.
     returnD \<lparr>saq_SaslAuthBytes = SaslAuthBytes\<rparr>)"

lemma decodes_SaslAuthenticateRequest:
  "decodes (dec_SaslAuthenticateRequest version) (enc_SaslAuthenticateRequest r) r"
  unfolding dec_SaslAuthenticateRequest_def enc_SaslAuthenticateRequest_def
  by (intro decodes_fields decodes_elements)
     (auto)

lemma guarded_SaslAuthenticateRequest: "guarded P (dec_SaslAuthenticateRequest version)"
  unfolding dec_SaslAuthenticateRequest_def by (intro guarded_intros)

record SaslAuthenticateResponse =
  sap_Err :: int
  sap_ErrorMessage :: "string option"
  sap_SaslAuthBytes :: "string option"

definition enc_SaslAuthenticateResponse :: "SaslAuthenticateResponse \<Rightarrow> etree list" where
  "enc_SaslAuthenticateResponse r =
     concat [[EInt16 (sap_Err r), ENullableString (sap_ErrorMessage r), EBytes (sap_SaslAuthBytes r)]]"

definition dec_SaslAuthenticateResponse :: "int \<Rightarrow> SaslAuthenticateResponse dec" where
  "dec_SaslAuthenticateResponse version =
     bindD getInt16 (\<lambda>Err.
     bindD getNullableString (\<lambda>ErrorMessage.
     bindD getBytes (\<lambda>SaslAuthBytes.
     returnD \<lparr>sap_Err = Err, sap_ErrorMessage = ErrorMessage,
       sap_SaslAuthBytes = SaslAuthBytes\<rparr>)))"

lemma decodes_SaslAuthenticateResponse:
  "decodes (dec_SaslAuthenticateResponse version) (enc_SaslAuthenticateResponse r) r"
  unfolding dec_SaslAuthenticateResponse_def enc_SaslAuthenticateResponse_def
  by (intro decodes_fields decodes_elements)
     (auto)

lemma guarded_SaslAuthenticateResponse: "guarded P (dec_SaslAuthenticateResponse version)"
  unfolding dec_SaslAuthenticateResponse_def by (intro guarded_intros)

datatype ApiVersionsRequest = ApiVersionsRequest

definition enc_ApiVersionsRequest :: "ApiVersionsRequest \<Rightarrow> etree list" where
  "enc_ApiVersionsRequest r =
     concat []"

definition dec_ApiVersionsRequest :: "int \<Rightarrow> ApiVersionsRequest dec" where
  "dec_ApiVersionsRequest version =
     returnD ApiVersionsRequest"

lemma decodes_ApiVersionsRequest: "decodes (dec_ApiVersionsRequest version) (enc_ApiVersionsRequest r) r"
  by (cases r) (simp add: dec_ApiVersionsRequest_def enc_ApiVersionsRequest_def decodes_return)

lemma guarded_ApiVersionsRequest: "guarded P (dec_ApiVersionsRequest version)"
  unfolding dec_ApiVersionsRequest_def by (intro guarded_intros)

record ApiVersionsResponseBlock =
  avb_ApiKey :: int
  avb_MinVersion :: int
  avb_MaxVersion :: int

definition enc_ApiVersionsResponseBlock :: "ApiVersionsResponseBlock \<Rightarrow> etree list" where
  "enc_ApiVersionsResponseBlock r =
     concat [[EInt16 (avb_ApiKey r), EInt16 (avb_MinVersion r), EInt16 (avb_MaxVersion r)]]"

definition dec_ApiVersionsResponseBlock :: "ApiVersionsResponseBlock dec" where
  "dec_ApiVersionsResponseBlock =
     bindD getInt16 (\<lambda>ApiKey.
     bindD getInt16 (\<lambda>MinVersion.
     bindD getInt16 (\<lambda>MaxVersion.
     returnD \<lparr>avb_ApiKey = ApiKey, avb_MinVersion = MinVersion,
       avb_MaxVersion = MaxVersion\<rparr>)))"

lemma decodes_ApiVersionsResponseBlock:
  "decodes dec_ApiVersionsResponseBlock (enc_ApiVersionsResponseBlock r) r"
  unfolding dec_ApiVersionsResponseBlock_def enc_ApiVersionsResponseBlock_def
  by (intro decodes_fields decodes_elements)
     (auto)

lemma wire_ApiVersionsResponseBlock_nonempty [simp]:
  "wire (enc_ApiVersionsResponseBlock r) \<noteq> []"
  by (simp add: enc_ApiVersionsResponseBlock_def)

lemma guarded_ApiVersionsResponseBlock: "guarded P dec_ApiVersionsResponseBlock"
  unfolding dec_ApiVersionsResponseBlock_def by (intro guarded_intros)

record ApiVersionsResponse =
  avp_Err :: int
  avp_ApiVersions :: "ApiVersionsResponseBlock list"

definition enc_ApiVersionsResponse :: "ApiVersionsResponse \<Rightarrow> etree list" where
  "enc_ApiVersionsResponse r =
     concat [[EInt16 (avp_Err r)], earray enc_ApiVersionsResponseBlock (avp_ApiVersions r)]"

definition dec_ApiVersionsResponse :: "int \<Rightarrow> ApiVersionsResponse dec" where
  "dec_ApiVersionsResponse version =
     bindD getInt16 (\<lambda>Err.
     bindD (sliceD dec_ApiVersionsResponseBlock) (\<lambda>ApiVersions.
     returnD \<lparr>avp_Err = Err, avp_ApiVersions = ApiVersions\<rparr>))"

lemma decodes_ApiVersionsResponse:
  "decodes (dec_ApiVersionsResponse version) (enc_ApiVersionsResponse r) r"
  unfolding dec_ApiVersionsResponse_def enc_ApiVersionsResponse_def
  by (intro decodes_fields decodes_elements decodes_ApiVersionsResponseBlock decodes_ApiVersionsResponseBlock [THEN decodes_block] decodes_ApiVersionsResponseBlock [THEN decodes_opt_block])
     (auto)

lemma guarded_ApiVersionsResponse: "P MakePanic \<Longrightarrow> guarded P (dec_ApiVersionsResponse version)"
  unfolding dec_ApiVersionsResponse_def by (intro guarded_intros guarded_ApiVersionsResponseBlock) auto

record ConsumerGroupMemberMetadata =
  cgm_Version :: int
  cgm_Topics :: "string list"
  cgm_UserData :: "string option"

definition enc_ConsumerGroupMemberMetadata :: "ConsumerGroupMemberMetadata \<Rightarrow> etree list" where
  "enc_ConsumerGroupMemberMetadata r =
     concat [[EInt16 (cgm_Version r), EStringArray (cgm_Topics r), EBytes (cgm_UserData r)]]"

definition dec_ConsumerGroupMemberMetadata :: "ConsumerGroupMemberMetadata dec" where
  "dec_ConsumerGroupMemberMetadata =
     bindD getInt16 (\<lambda>Version.
     bindD getStringArray (\<lambda>Topics.
     bindD getBytes (\<lambda>UserData.
     returnD \<lparr>cgm_Version = Version, cgm_Topics = Topics, cgm_UserData = UserData\<rparr>)))"

lemma decodes_ConsumerGroupMemberMetadata:
  "decodes dec_ConsumerGroupMemberMetadata (enc_ConsumerGroupMemberMetadata r) r"
  unfolding dec_ConsumerGroupMemberMetadata_def enc_ConsumerGroupMemberMetadata_def
  by (intro decodes_fields decodes_elements)
     (auto)

lemma wire_ConsumerGroupMemberMetadata_nonempty [simp]:
  "wire (enc_ConsumerGroupMemberMetadata r) \<noteq> []"
  by (simp add: enc_ConsumerGroupMemberMetadata_def)

lemma guarded_ConsumerGroupMemberMetadata: "guarded P dec_ConsumerGroupMemberMetadata"
  unfolding dec_ConsumerGroupMemberMetadata_def by (intro guarded_intros)

record ConsumerGroupMemberAssignment =
  cga_Version :: int
  cga_Topics :: "(string \<times> int list) list"
  cga_UserData :: "string option"

definition enc_ConsumerGroupMemberAssignment :: "ConsumerGroupMemberAssignment \<Rightarrow> etree list" where
  "enc_ConsumerGroupMemberAssignment r =
     concat [[EInt16 (cga_Version r)],
       earray (epair (\<lambda>x. [EString x]) (\<lambda>x. [EInt32Array x])) (cga_Topics r),
       [EBytes (cga_UserData r)]]"

definition dec_ConsumerGroupMemberAssignment :: "ConsumerGroupMemberAssignment dec" where
  "dec_ConsumerGroupMemberAssignment =
     bindD getInt16 (\<lambda>Version.
     bindD (mapD (pairD getString getInt32Array)) (\<lambda>Topics.
     bindD getBytes (\<lambda>UserData.
     returnD \<lparr>cga_Version = Version, cga_Topics = Topics, cga_UserData = UserData\<rparr>)))"

definition canon_ConsumerGroupMemberAssignment :: "ConsumerGroupMemberAssignment \<Rightarrow> bool" where
  "canon_ConsumerGroupMemberAssignment r \<longleftrightarrow>
     distinct (map fst (cga_Topics r))"

lemma decodes_ConsumerGroupMemberAssignment:
  "canon_ConsumerGroupMemberAssignment r \<Longrightarrow> 
    decodes dec_ConsumerGroupMemberAssignment (enc_ConsumerGroupMemberAssignment r) r"
  unfolding dec_ConsumerGroupMemberAssignment_def enc_ConsumerGroupMemberAssignment_def
  by (intro decodes_fields decodes_elements)
     (auto simp: canon_ConsumerGroupMemberAssignment_def)

lemma wire_ConsumerGroupMemberAssignment_nonempty [simp]:
  "wire (enc_ConsumerGroupMemberAssignment r) \<noteq> []"
  by (simp add: enc_ConsumerGroupMemberAssignment_def)

lemma guarded_ConsumerGroupMemberAssignment: "guarded P dec_ConsumerGroupMemberAssignment"
  unfolding dec_ConsumerGroupMemberAssignment_def by (intro guarded_intros)

record SyncGroupRequest =
  sgq_GroupId :: string
  sgq_GenerationId :: int
  sgq_MemberId :: string
  sgq_GroupAssignments :: "(string \<times> string option) list"

definition enc_SyncGroupRequest :: "SyncGroupRequest \<Rightarrow> etree list" where
  "enc_SyncGroupRequest r =
     concat [[EString (sgq_GroupId r), EInt32 (sgq_GenerationId r), EString (sgq_MemberId r)],
       earray (epair (\<lambda>x. [EString x]) (\<lambda>x. [EBytes x])) (sgq_GroupAssignments r)]"

definition dec_SyncGroupRequest :: "int \<Rightarrow> SyncGroupRequest dec" where
  "dec_SyncGroupRequest version =
     bindD getString (\<lambda>GroupId.
     bindD getInt32 (\<lambda>GenerationId.
     bindD getString (\<lambda>MemberId.
     bindD (mapD (pairD getString getBytes)) (\<lambda>GroupAssignments.
     returnD \<lparr>sgq_GroupId = GroupId, sgq_GenerationId = GenerationId,
       sgq_MemberId = MemberId, sgq_GroupAssignments = GroupAssignments\<rparr>))))"

definition canon_SyncGroupRequest :: "SyncGroupRequest \<Rightarrow> bool" where
  "canon_SyncGroupRequest r \<longleftrightarrow>
     distinct (map fst (sgq_GroupAssignments r))"

lemma decodes_SyncGroupRequest:
  "canon_SyncGroupRequest r \<Longrightarrow> 
    decodes (dec_SyncGroupRequest version) (enc_SyncGroupRequest r) r"
  unfolding dec_SyncGroupRequest_def enc_SyncGroupRequest_def
  by (intro decodes_fields decodes_elements)
     (auto simp: canon_SyncGroupRequest_def)

lemma guarded_SyncGroupRequest: "guarded P (dec_SyncGroupRequest version)"
  unfolding dec_SyncGroupRequest_def by (intro guarded_intros)


definition AddGroupAssignment :: "string \<Rightarrow> string option \<Rightarrow> SyncGroupRequest \<Rightarrow> SyncGroupRequest" where
  "AddGroupAssignment memberId memberAssignment r =
     r\<lparr>sgq_GroupAssignments := AList.update memberId memberAssignment (sgq_GroupAssignments r)\<rparr>"

definition AddGroupAssignmentMember ::
  "string \<Rightarrow> ConsumerGroupMemberAssignment \<Rightarrow> SyncGroupRequest \<Rightarrow> (kerror + SyncGroupRequest) result" where
  "AddGroupAssignmentMember memberId memberAssignment r =
     bindR (encode (enc_ConsumerGroupMemberAssignment memberAssignment)) (\<lambda>bin.
       Inr (case bin of Inl e \<Rightarrow> Inl e | Inr bin \<Rightarrow> Inr (AddGroupAssignment memberId (Some bin) r)))"

record SyncGroupResponse =
  sgp_Err :: int
  sgp_MemberAssignment :: "string option"

definition enc_SyncGroupResponse :: "SyncGroupResponse \<Rightarrow> etree list" where
  "enc_SyncGroupResponse r =
     concat [[EInt16 (sgp_Err r), EBytes (sgp_MemberAssignment r)]]"

definition dec_SyncGroupResponse :: "int \<Rightarrow> SyncGroupResponse dec" where
  "dec_SyncGroupResponse version =
     bindD getInt16 (\<lambda>Err.
     bindD getBytes (\<lambda>MemberAssignment.
     returnD \<lparr>sgp_Err = Err, sgp_MemberAssignment = MemberAssignment\<rparr>))"

lemma decodes_SyncGroupResponse:
  "decodes (dec_SyncGroupResponse version) (enc_SyncGroupResponse r) r"
  unfolding dec_SyncGroupResponse_def enc_SyncGroupResponse_def
  by (intro decodes_fields decodes_elements)
     (auto)

lemma guarded_SyncGroupResponse: "guarded P (dec_SyncGroupResponse version)"
  unfolding dec_SyncGroupResponse_def by (intro guarded_intros)


text \<open>\<open>GetMemberAssignment\<close>; a \<open>nil\<close> assignment decodes to the zero value.\<close>

definition GetMemberAssignment :: "SyncGroupResponse \<Rightarrow> (kerror + ConsumerGroupMemberAssignment) result" where
  "GetMemberAssignment r =
     (case sgp_MemberAssignment r of
        None \<Rightarrow> Inr (Inr \<lparr>cga_Version = 0, cga_Topics = [], cga_UserData = None\<rparr>)
      | Some b \<Rightarrow> decode dec_ConsumerGroupMemberAssignment b)"

text \<open>
  What the leader of a group hands out is what a member gets: the assignment goes through the leader's
  \<open>SyncGroupRequest\<close> and comes back in the member's \<open>SyncGroupResponse\<close>.
\<close>

lemma member_assignment_handed_out:
  assumes "canon_ConsumerGroupMemberAssignment a" "tree_ok (enc_ConsumerGroupMemberAssignment a)"
    "int (length (wire (enc_ConsumerGroupMemberAssignment a))) \<le> MaxRequestSize"
  shows "\<exists>r' b. AddGroupAssignmentMember m a r = Inr (Inr r') \<and>
    map_of (sgq_GroupAssignments r') m = Some (Some b) \<and>
    GetMemberAssignment \<lparr>sgp_Err = 0, sgp_MemberAssignment = Some b\<rparr> = Inr (Inr a)"
  using decode_encode [OF decodes_ConsumerGroupMemberAssignment [OF assms(1)] assms(2,3)]
  by (simp add: AddGroupAssignmentMember_def AddGroupAssignment_def GetMemberAssignment_def update_conv)

record GroupProtocol =
  gpr_Name :: string
  gpr_Metadata :: "string option"

definition enc_GroupProtocol :: "GroupProtocol \<Rightarrow> etree list" where
  "enc_GroupProtocol r =
     concat [[EString (gpr_Name r), EBytes (gpr_Metadata r)]]"

definition dec_GroupProtocol :: "GroupProtocol dec" where
  "dec_GroupProtocol =
     bindD getString (\<lambda>Name.
     bindD getBytes (\<lambda>Metadata.
     returnD \<lparr>gpr_Name = Name, gpr_Metadata = Metadata\<rparr>))"

lemma decodes_GroupProtocol:
  "decodes dec_GroupProtocol (enc_GroupProtocol r) r"
  unfolding dec_GroupProtocol_def enc_GroupProtocol_def
  by (intro decodes_fields decodes_elements)
     (auto)

lemma wire_GroupProtocol_nonempty [simp]:
  "wire (enc_GroupProtocol r) \<noteq> []"
  by (simp add: enc_GroupProtocol_def)

lemma guarded_GroupProtocol: "guarded P dec_GroupProtocol"
  unfolding dec_GroupProtocol_def by (intro guarded_intros)


record JoinGroupRequest =
  jgq_Version :: int
  jgq_GroupId :: string
  jgq_SessionTimeout :: int
  jgq_RebalanceTimeout :: int
  jgq_MemberId :: string
  jgq_ProtocolType :: string
  jgq_GroupProtocols :: "(string \<times> string option) list"
  jgq_OrderedGroupProtocols :: "GroupProtocol list"

definition enc_JoinGroupRequest :: "JoinGroupRequest \<Rightarrow> etree list" where
  "enc_JoinGroupRequest r =
     concat [[EString (jgq_GroupId r), EInt32 (jgq_SessionTimeout r)],
       eopt (1 \<le> jgq_Version r) [EInt32 (jgq_RebalanceTimeout r)],
       [EString (jgq_MemberId r), EString (jgq_ProtocolType r)],
       (if jgq_GroupProtocols r \<noteq> [] then
          if jgq_OrderedGroupProtocols r \<noteq> []
          then [EFail (PacketDecodingError
            ''cannot specify both GroupProtocols and OrderedGroupProtocols on JoinGroupRequest'')]
          else earray (epair (\<lambda>x. [EString x]) (\<lambda>x. [EBytes x])) (jgq_GroupProtocols r)
        else earray enc_GroupProtocol (jgq_OrderedGroupProtocols r))]"

definition protocols_map :: "GroupProtocol list \<Rightarrow> (string \<times> string option) list" where
  "protocols_map ps = put_all (map (\<lambda>p. (gpr_Name p, gpr_Metadata p)) ps)"

definition dec_JoinGroupRequest :: "int \<Rightarrow> JoinGroupRequest dec" where
  "dec_JoinGroupRequest version =
     bindD getString (\<lambda>GroupId.
     bindD getInt32 (\<lambda>SessionTimeout.
     bindD (optD (1 \<le> version) 0 getInt32) (\<lambda>RebalanceTimeout.
     bindD getString (\<lambda>MemberId.
     bindD getString (\<lambda>ProtocolType.
     bindD (listD dec_GroupProtocol) (\<lambda>protocols.
     returnD \<lparr>jgq_Version = version, jgq_GroupId = GroupId, jgq_SessionTimeout = SessionTimeout,
       jgq_RebalanceTimeout = RebalanceTimeout, jgq_MemberId = MemberId, jgq_ProtocolType = ProtocolType,
       jgq_GroupProtocols = protocols_map protocols, jgq_OrderedGroupProtocols = protocols\<rparr>))))))"

text \<open>
  A request built with \<open>AddGroupProtocol\<close> has the ordered protocols only. The decoder fills the map as well, so a
  decoded request with protocols has both, and encoding it again is refused.
\<close>

definition canon_JoinGroupRequest :: "JoinGroupRequest \<Rightarrow> bool" where
  "canon_JoinGroupRequest r \<longleftrightarrow>
     jgq_GroupProtocols r = [] \<and> (1 \<le> jgq_Version r \<or> jgq_RebalanceTimeout r = 0)"

definition sent_JoinGroupRequest :: "JoinGroupRequest \<Rightarrow> JoinGroupRequest" where
  "sent_JoinGroupRequest r = r\<lparr>jgq_GroupProtocols := protocols_map (jgq_OrderedGroupProtocols r)\<rparr>"

lemma decodes_JoinGroupRequest:
  "canon_JoinGroupRequest r \<Longrightarrow>
    decodes (dec_JoinGroupRequest (jgq_Version r)) (enc_JoinGroupRequest r) (sent_JoinGroupRequest r)"
  unfolding dec_JoinGroupRequest_def enc_JoinGroupRequest_def
  by (simp only: canon_JoinGroupRequest_def refl not_True_eq_False if_False simp_thms,
      intro decodes_fields decodes_elements decodes_GroupProtocol) (auto simp: sent_JoinGroupRequest_def)

lemma guarded_JoinGroupRequest: "guarded P (dec_JoinGroupRequest version)"
  unfolding dec_JoinGroupRequest_def by (intro guarded_intros guarded_GroupProtocol)

lemma JoinGroup_reencode_fails:
  assumes "jgq_OrderedGroupProtocols r \<noteq> []"
  shows "\<exists>us k. enc_JoinGroupRequest (sent_JoinGroupRequest r) = us @ [EFail k]"
proof -
  obtain ps p where "jgq_OrderedGroupProtocols r = ps @ [p]" using assms by (metis rev_exhaust)
  then have "protocols_map (jgq_OrderedGroupProtocols r) \<noteq> []"
    by (simp add: protocols_map_def put_all_snoc)
  then show ?thesis using assms by (simp add: enc_JoinGroupRequest_def sent_JoinGroupRequest_def)
qed

text \<open>\<open>AddGroupProtocol\<close> and \<open>AddGroupProtocolMetadata\<close>, which encodes the metadata first.\<close>

definition AddGroupProtocol :: "string \<Rightarrow> string option \<Rightarrow> JoinGroupRequest \<Rightarrow> JoinGroupRequest" where
  "AddGroupProtocol name metadata r =
     r\<lparr>jgq_OrderedGroupProtocols :=
       jgq_OrderedGroupProtocols r @ [\<lparr>gpr_Name = name, gpr_Metadata = metadata\<rparr>]\<rparr>"

definition AddGroupProtocolMetadata ::
  "string \<Rightarrow> ConsumerGroupMemberMetadata \<Rightarrow> JoinGroupRequest \<Rightarrow> (kerror + JoinGroupRequest) result" where
  "AddGroupProtocolMetadata name metadata r =
     bindR (encode (enc_ConsumerGroupMemberMetadata metadata)) (\<lambda>bin.
       Inr (case bin of Inl e \<Rightarrow> Inl e | Inr bin \<Rightarrow> Inr (AddGroupProtocol name (Some bin) r)))"

record JoinGroupResponse =
  jgp_Version :: int
  jgp_ThrottleTime :: int
  jgp_Err :: int
  jgp_GenerationId :: int
  jgp_GroupProtocol :: string
  jgp_LeaderId :: string
  jgp_MemberId :: string
  jgp_Members :: "(string \<times> string option) list"

definition enc_JoinGroupResponse :: "JoinGroupResponse \<Rightarrow> etree list" where
  "enc_JoinGroupResponse r =
     concat [eopt (2 \<le> (jgp_Version r)) [EInt32 (jgp_ThrottleTime r)],
       [EInt16 (jgp_Err r), EInt32 (jgp_GenerationId r), EString (jgp_GroupProtocol r), EString (jgp_LeaderId r), EString (jgp_MemberId r)],
       earray (epair (\<lambda>x. [EString x]) (\<lambda>x. [EBytes x])) (jgp_Members r)]"

definition dec_JoinGroupResponse :: "int \<Rightarrow> JoinGroupResponse dec" where
  "dec_JoinGroupResponse version =
     bindD (optD (2 \<le> version) 0 getInt32) (\<lambda>ThrottleTime.
     bindD getInt16 (\<lambda>Err.
     bindD getInt32 (\<lambda>GenerationId.
     bindD getString (\<lambda>GroupProtocol.
     bindD getString (\<lambda>LeaderId.
     bindD getString (\<lambda>MemberId.
     bindD (mapD (pairD getString getBytes)) (\<lambda>Members.
     returnD \<lparr>jgp_Version = version, jgp_ThrottleTime = ThrottleTime, jgp_Err = Err,
       jgp_GenerationId = GenerationId, jgp_GroupProtocol = GroupProtocol, jgp_LeaderId = LeaderId,
       jgp_MemberId = MemberId, jgp_Members = Members\<rparr>)))))))"

definition canon_JoinGroupResponse :: "JoinGroupResponse \<Rightarrow> bool" where
  "canon_JoinGroupResponse r \<longleftrightarrow>
     (2 \<le> (jgp_Version r) \<or> (jgp_ThrottleTime r) = 0) \<and>
     distinct (map fst (jgp_Members r))"

lemma decodes_JoinGroupResponse:
  "canon_JoinGroupResponse r \<Longrightarrow> 
    decodes (dec_JoinGroupResponse (jgp_Version r)) (enc_JoinGroupResponse r) r"
  unfolding dec_JoinGroupResponse_def enc_JoinGroupResponse_def
  by (intro decodes_fields decodes_elements)
     (auto simp: canon_JoinGroupResponse_def)

lemma guarded_JoinGroupResponse: "guarded P (dec_JoinGroupResponse version)"
  unfolding dec_JoinGroupResponse_def by (intro guarded_intros)

record FindCoordinatorRequest =
  fcq_Version :: int
  fcq_CoordinatorKey :: string
  fcq_CoordinatorType :: int

definition enc_FindCoordinatorRequest :: "FindCoordinatorRequest \<Rightarrow> etree list" where
  "enc_FindCoordinatorRequest r =
     concat [[EString (fcq_CoordinatorKey r)],
       eopt (1 \<le> (fcq_Version r)) [EInt8 (fcq_CoordinatorType r)]]"

definition dec_FindCoordinatorRequest :: "int \<Rightarrow> FindCoordinatorRequest dec" where
  "dec_FindCoordinatorRequest version =
     bindD getString (\<lambda>CoordinatorKey.
     bindD (optD (1 \<le> version) 0 getInt8) (\<lambda>CoordinatorType.
     returnD \<lparr>fcq_Version = (if 1 \<le> version then version else 0),
       fcq_CoordinatorKey = CoordinatorKey, fcq_CoordinatorType = CoordinatorType\<rparr>))"

definition canon_FindCoordinatorRequest :: "FindCoordinatorRequest \<Rightarrow> bool" where
  "canon_FindCoordinatorRequest r \<longleftrightarrow>
     (1 \<le> (fcq_Version r) \<or> (fcq_CoordinatorType r) = 0) \<and>
     0 \<le> fcq_Version r"

lemma decodes_FindCoordinatorRequest:
  "canon_FindCoordinatorRequest r \<Longrightarrow> 
    decodes (dec_FindCoordinatorRequest (fcq_Version r)) (enc_FindCoordinatorRequest r) r"
  unfolding dec_FindCoordinatorRequest_def enc_FindCoordinatorRequest_def
  by (intro decodes_fields decodes_elements)
     (auto simp: canon_FindCoordinatorRequest_def)

lemma guarded_FindCoordinatorRequest: "guarded P (dec_FindCoordinatorRequest version)"
  unfolding dec_FindCoordinatorRequest_def by (intro guarded_intros)


record ConsumerMetadataRequest =
  cmq_ConsumerGroup :: string

definition enc_ConsumerMetadataRequest :: "ConsumerMetadataRequest \<Rightarrow> etree list" where
  "enc_ConsumerMetadataRequest r =
     enc_FindCoordinatorRequest \<lparr>fcq_Version = 0, fcq_CoordinatorKey = cmq_ConsumerGroup r, fcq_CoordinatorType = 0\<rparr>"

definition dec_ConsumerMetadataRequest :: "int \<Rightarrow> ConsumerMetadataRequest dec" where
  "dec_ConsumerMetadataRequest version =
     bindD (dec_FindCoordinatorRequest version) (\<lambda>tmp.
     returnD \<lparr>cmq_ConsumerGroup = fcq_CoordinatorKey tmp\<rparr>)"

lemma decodes_ConsumerMetadataRequest:
  "decodes (dec_ConsumerMetadataRequest 0) (enc_ConsumerMetadataRequest r) r"
proof -
  let ?f = "\<lparr>fcq_Version = 0, fcq_CoordinatorKey = cmq_ConsumerGroup r, fcq_CoordinatorType = 0\<rparr>"
  have "decodes (dec_FindCoordinatorRequest 0) (enc_FindCoordinatorRequest ?f) ?f"
    using decodes_FindCoordinatorRequest [of ?f] by (simp add: canon_FindCoordinatorRequest_def)
  then show ?thesis
    unfolding dec_ConsumerMetadataRequest_def enc_ConsumerMetadataRequest_def
    by (rule decodes_bind_Nil) (simp add: decodes_return)
qed

record DescribeGroupsRequest =
  dsq_Groups :: "string list"

definition enc_DescribeGroupsRequest :: "DescribeGroupsRequest \<Rightarrow> etree list" where
  "enc_DescribeGroupsRequest r =
     concat [[EStringArray (dsq_Groups r)]]"

definition dec_DescribeGroupsRequest :: "int \<Rightarrow> DescribeGroupsRequest dec" where
  "dec_DescribeGroupsRequest version =
     bindD getStringArray (\<lambda>Groups.
     returnD \<lparr>dsq_Groups = Groups\<rparr>)"

lemma decodes_DescribeGroupsRequest:
  "decodes (dec_DescribeGroupsRequest version) (enc_DescribeGroupsRequest r) r"
  unfolding dec_DescribeGroupsRequest_def enc_DescribeGroupsRequest_def
  by (intro decodes_fields decodes_elements)
     (auto)

lemma guarded_DescribeGroupsRequest: "guarded P (dec_DescribeGroupsRequest version)"
  unfolding dec_DescribeGroupsRequest_def by (intro guarded_intros)

record GroupMemberDescription =
  gmd_ClientId :: string
  gmd_ClientHost :: string
  gmd_MemberMetadata :: "string option"
  gmd_MemberAssignment :: "string option"

definition enc_GroupMemberDescription :: "GroupMemberDescription \<Rightarrow> etree list" where
  "enc_GroupMemberDescription r =
     concat [[EString (gmd_ClientId r), EString (gmd_ClientHost r), EBytes (gmd_MemberMetadata r), EBytes (gmd_MemberAssignment r)]]"

definition dec_GroupMemberDescription :: "GroupMemberDescription dec" where
  "dec_GroupMemberDescription =
     bindD getString (\<lambda>ClientId.
     bindD getString (\<lambda>ClientHost.
     bindD getBytes (\<lambda>MemberMetadata.
     bindD getBytes (\<lambda>MemberAssignment.
     returnD \<lparr>gmd_ClientId = ClientId, gmd_ClientHost = ClientHost,
       gmd_MemberMetadata = MemberMetadata, gmd_MemberAssignment = MemberAssignment\<rparr>))))"

lemma decodes_GroupMemberDescription:
  "decodes dec_GroupMemberDescription (enc_GroupMemberDescription r) r"
  unfolding dec_GroupMemberDescription_def enc_GroupMemberDescription_def
  by (intro decodes_fields decodes_elements)
     (auto)

lemma wire_GroupMemberDescription_nonempty [simp]:
  "wire (enc_GroupMemberDescription r) \<noteq> []"
  by (simp add: enc_GroupMemberDescription_def)

lemma guarded_GroupMemberDescription: "guarded P dec_GroupMemberDescription"
  unfolding dec_GroupMemberDescription_def by (intro guarded_intros)

record GroupDescription =
  gds_Err :: int
  gds_GroupId :: string
  gds_State :: string
  gds_ProtocolType :: string
  gds_Protocol :: string
  gds_Members :: "(string \<times> GroupMemberDescription) list"

definition enc_GroupDescription :: "GroupDescription \<Rightarrow> etree list" where
  "enc_GroupDescription r =
     concat [[EInt16 (gds_Err r), EString (gds_GroupId r), EString (gds_State r), EString (gds_ProtocolType r), EString (gds_Protocol r)],
       earray (epair (\<lambda>x. [EString x]) enc_GroupMemberDescription) (gds_Members r)]"

definition dec_GroupDescription :: "GroupDescription dec" where
  "dec_GroupDescription =
     bindD getInt16 (\<lambda>Err.
     bindD getString (\<lambda>GroupId.
     bindD getString (\<lambda>State.
     bindD getString (\<lambda>ProtocolType.
     bindD getString (\<lambda>Protocol.
     bindD (mapD (pairD getString dec_GroupMemberDescription)) (\<lambda>Members.
     returnD \<lparr>gds_Err = Err, gds_GroupId = GroupId, gds_State = State,
       gds_ProtocolType = ProtocolType, gds_Protocol = Protocol, gds_Members = Members\<rparr>))))))"

definition canon_GroupDescription :: "GroupDescription \<Rightarrow> bool" where
  "canon_GroupDescription r \<longleftrightarrow>
     distinct (map fst (gds_Members r))"

lemma decodes_GroupDescription:
  "canon_GroupDescription r \<Longrightarrow> 
    decodes dec_GroupDescription (enc_GroupDescription r) r"
  unfolding dec_GroupDescription_def enc_GroupDescription_def
  by (intro decodes_fields decodes_elements decodes_GroupMemberDescription decodes_GroupMemberDescription [THEN decodes_block] decodes_GroupMemberDescription [THEN decodes_opt_block])
     (auto simp: canon_GroupDescription_def)

lemma wire_GroupDescription_nonempty [simp]:
  "wire (enc_GroupDescription r) \<noteq> []"
  by (simp add: enc_GroupDescription_def)

lemma guarded_GroupDescription: "guarded P dec_GroupDescription"
  unfolding dec_GroupDescription_def by (intro guarded_intros guarded_GroupMemberDescription)

record DescribeGroupsResponse =
  dsp_Groups :: "GroupDescription list"

definition enc_DescribeGroupsResponse :: "DescribeGroupsResponse \<Rightarrow> etree list" where
  "enc_DescribeGroupsResponse r =
     concat [earray enc_GroupDescription (dsp_Groups r)]"

definition dec_DescribeGroupsResponse :: "int \<Rightarrow> DescribeGroupsResponse dec" where
  "dec_DescribeGroupsResponse version =
     bindD (sliceD dec_GroupDescription) (\<lambda>Groups.
     returnD \<lparr>dsp_Groups = Groups\<rparr>)"

definition canon_DescribeGroupsResponse :: "DescribeGroupsResponse \<Rightarrow> bool" where
  "canon_DescribeGroupsResponse r \<longleftrightarrow>
     (\<forall>x \<in> set (dsp_Groups r). canon_GroupDescription x)"

lemma decodes_DescribeGroupsResponse:
  "canon_DescribeGroupsResponse r \<Longrightarrow> 
    decodes (dec_DescribeGroupsResponse version) (enc_DescribeGroupsResponse r) r"
  unfolding dec_DescribeGroupsResponse_def enc_DescribeGroupsResponse_def
  by (intro decodes_fields decodes_elements decodes_GroupDescription decodes_GroupDescription [THEN decodes_block] decodes_GroupDescription [THEN decodes_opt_block])
     (auto simp: canon_DescribeGroupsResponse_def)

lemma guarded_DescribeGroupsResponse: "P MakePanic \<Longrightarrow> guarded P (dec_DescribeGroupsResponse version)"
  unfolding dec_DescribeGroupsResponse_def by (intro guarded_intros guarded_GroupDescription) auto

datatype ListGroupsRequest = ListGroupsRequest

definition enc_ListGroupsRequest :: "ListGroupsRequest \<Rightarrow> etree list" where
  "enc_ListGroupsRequest r =
     concat []"

definition dec_ListGroupsRequest :: "int \<Rightarrow> ListGroupsRequest dec" where
  "dec_ListGroupsRequest version =
     returnD ListGroupsRequest"

lemma decodes_ListGroupsRequest: "decodes (dec_ListGroupsRequest version) (enc_ListGroupsRequest r) r"
  by (cases r) (simp add: dec_ListGroupsRequest_def enc_ListGroupsRequest_def decodes_return)

lemma guarded_ListGroupsRequest: "guarded P (dec_ListGroupsRequest version)"
  unfolding dec_ListGroupsRequest_def by (intro guarded_intros)

record ListGroupsResponse =
  lip_Err :: int
  lip_Groups :: "(string \<times> string) list"

definition enc_ListGroupsResponse :: "ListGroupsResponse \<Rightarrow> etree list" where
  "enc_ListGroupsResponse r =
     concat [[EInt16 (lip_Err r)],
       earray (epair (\<lambda>x. [EString x]) (\<lambda>x. [EString x])) (lip_Groups r)]"

definition dec_ListGroupsResponse :: "int \<Rightarrow> ListGroupsResponse dec" where
  "dec_ListGroupsResponse version =
     bindD getInt16 (\<lambda>Err.
     bindD (mapD (pairD getString getString)) (\<lambda>Groups.
     returnD \<lparr>lip_Err = Err, lip_Groups = Groups\<rparr>))"

definition canon_ListGroupsResponse :: "ListGroupsResponse \<Rightarrow> bool" where
  "canon_ListGroupsResponse r \<longleftrightarrow>
     distinct (map fst (lip_Groups r))"

lemma decodes_ListGroupsResponse:
  "canon_ListGroupsResponse r \<Longrightarrow> 
    decodes (dec_ListGroupsResponse version) (enc_ListGroupsResponse r) r"
  unfolding dec_ListGroupsResponse_def enc_ListGroupsResponse_def
  by (intro decodes_fields decodes_elements)
     (auto simp: canon_ListGroupsResponse_def)

lemma guarded_ListGroupsResponse: "guarded P (dec_ListGroupsResponse version)"
  unfolding dec_ListGroupsResponse_def by (intro guarded_intros)

record DeleteGroupsRequest =
  dgq_Groups :: "string list"

definition enc_DeleteGroupsRequest :: "DeleteGroupsRequest \<Rightarrow> etree list" where
  "enc_DeleteGroupsRequest r =
     concat [[EStringArray (dgq_Groups r)]]"

definition dec_DeleteGroupsRequest :: "int \<Rightarrow> DeleteGroupsRequest dec" where
  "dec_DeleteGroupsRequest version =
     bindD getStringArray (\<lambda>Groups.
     returnD \<lparr>dgq_Groups = Groups\<rparr>)"

lemma decodes_DeleteGroupsRequest:
  "decodes (dec_DeleteGroupsRequest version) (enc_DeleteGroupsRequest r) r"
  unfolding dec_DeleteGroupsRequest_def enc_DeleteGroupsRequest_def
  by (intro decodes_fields decodes_elements)
     (auto)

lemma guarded_DeleteGroupsRequest: "guarded P (dec_DeleteGroupsRequest version)"
  unfolding dec_DeleteGroupsRequest_def by (intro guarded_intros)

record DeleteGroupsResponse =
  dgp_ThrottleTime :: int
  dgp_GroupErrorCodes :: "(string \<times> int) list"

definition enc_DeleteGroupsResponse :: "DeleteGroupsResponse \<Rightarrow> etree list" where
  "enc_DeleteGroupsResponse r =
     concat [[EInt32 (millis32 (dgp_ThrottleTime r))],
       earray (epair (\<lambda>x. [EString x]) (\<lambda>x. [EInt16 x])) (dgp_GroupErrorCodes r)]"

definition dec_DeleteGroupsResponse :: "int \<Rightarrow> DeleteGroupsResponse dec" where
  "dec_DeleteGroupsResponse version =
     bindD getMillis32 (\<lambda>ThrottleTime.
     bindD (mapD (pairD getString getInt16)) (\<lambda>GroupErrorCodes.
     returnD \<lparr>dgp_ThrottleTime = ThrottleTime, dgp_GroupErrorCodes = GroupErrorCodes\<rparr>))"

definition canon_DeleteGroupsResponse :: "DeleteGroupsResponse \<Rightarrow> bool" where
  "canon_DeleteGroupsResponse r \<longleftrightarrow>
     is_millis (dgp_ThrottleTime r) \<and>
     distinct (map fst (dgp_GroupErrorCodes r))"

lemma decodes_DeleteGroupsResponse:
  "canon_DeleteGroupsResponse r \<Longrightarrow> 
    decodes (dec_DeleteGroupsResponse version) (enc_DeleteGroupsResponse r) r"
  unfolding dec_DeleteGroupsResponse_def enc_DeleteGroupsResponse_def
  by (intro decodes_fields decodes_elements decodes_millis_fields decodes_millis)
     (auto simp: canon_DeleteGroupsResponse_def)

lemma guarded_DeleteGroupsResponse: "guarded P (dec_DeleteGroupsResponse version)"
  unfolding dec_DeleteGroupsResponse_def by (intro guarded_intros guarded_millis)

record offsetCommitRequestBlock =
  ocb_offset :: int
  ocb_timestamp :: int
  ocb_metadata :: string

definition enc_offsetCommitRequestBlock :: "int \<Rightarrow> offsetCommitRequestBlock \<Rightarrow> etree list" where
  "enc_offsetCommitRequestBlock version r =
     concat [[EInt64 (ocb_offset r)], eopt (version = 1) [EInt64 (ocb_timestamp r)],
       [EString (ocb_metadata r)]]"

definition dec_offsetCommitRequestBlock :: "int \<Rightarrow> offsetCommitRequestBlock dec" where
  "dec_offsetCommitRequestBlock version =
     bindD getInt64 (\<lambda>offset.
     bindD (optD (version = 1) 0 getInt64) (\<lambda>timestamp.
     bindD getString (\<lambda>metadata.
     returnD \<lparr>ocb_offset = offset, ocb_timestamp = timestamp,
       ocb_metadata = metadata\<rparr>)))"

definition canon_offsetCommitRequestBlock :: "int \<Rightarrow> offsetCommitRequestBlock \<Rightarrow> bool" where
  "canon_offsetCommitRequestBlock version r \<longleftrightarrow>
     (version = 1 \<or> (ocb_timestamp r) = 0)"

lemma decodes_offsetCommitRequestBlock:
  "canon_offsetCommitRequestBlock version r \<Longrightarrow> 
    decodes (dec_offsetCommitRequestBlock version) (enc_offsetCommitRequestBlock version r) r"
  unfolding dec_offsetCommitRequestBlock_def enc_offsetCommitRequestBlock_def
  by (intro decodes_fields decodes_elements)
     (auto simp: canon_offsetCommitRequestBlock_def)

lemma wire_offsetCommitRequestBlock_nonempty [simp]:
  "wire (enc_offsetCommitRequestBlock version r) \<noteq> []"
  by (simp add: enc_offsetCommitRequestBlock_def)

lemma guarded_offsetCommitRequestBlock: "guarded P (dec_offsetCommitRequestBlock version)"
  unfolding dec_offsetCommitRequestBlock_def by (intro guarded_intros)

record OffsetCommitRequest =
  ocq_ConsumerGroup :: string
  ocq_ConsumerGroupGeneration :: int
  ocq_ConsumerID :: string
  ocq_RetentionTime :: int
  ocq_Version :: int
  ocq_blocks :: "(string \<times> (int \<times> offsetCommitRequestBlock) list) list"

definition enc_OffsetCommitRequest :: "OffsetCommitRequest \<Rightarrow> etree list" where
  "enc_OffsetCommitRequest r =
     (if (ocq_Version r) < 0 \<or> 4 < (ocq_Version r) then [EFail (PacketEncodingError ''invalid or unsupported OffsetCommitRequest version field'')]
      else concat [[EString (ocq_ConsumerGroup r)],
          eopt (1 \<le> (ocq_Version r)) [EInt32 (ocq_ConsumerGroupGeneration r)],
          eopt (1 \<le> (ocq_Version r)) [EString (ocq_ConsumerID r)],
          eopt (2 \<le> (ocq_Version r)) [EInt64 (ocq_RetentionTime r)],
          earray (epair (\<lambda>x. [EString x]) (earray (epair (\<lambda>x. [EInt32 x]) (enc_offsetCommitRequestBlock (ocq_Version r))))) (ocq_blocks r)])"

definition dec_OffsetCommitRequest :: "int \<Rightarrow> OffsetCommitRequest dec" where
  "dec_OffsetCommitRequest version =
     bindD getString (\<lambda>ConsumerGroup.
     bindD (optD (1 \<le> version) 0 getInt32) (\<lambda>ConsumerGroupGeneration.
     bindD (optD (1 \<le> version) [] getString) (\<lambda>ConsumerID.
     bindD (optD (2 \<le> version) 0 getInt64) (\<lambda>RetentionTime.
     bindD (mapD (pairD getString (mapD (pairD getInt32 (dec_offsetCommitRequestBlock version))))) (\<lambda>blocks.
     returnD \<lparr>ocq_ConsumerGroup = ConsumerGroup,
       ocq_ConsumerGroupGeneration = ConsumerGroupGeneration, ocq_ConsumerID = ConsumerID,
       ocq_RetentionTime = RetentionTime, ocq_Version = version, ocq_blocks = blocks\<rparr>)))))"

definition canon_OffsetCommitRequest :: "OffsetCommitRequest \<Rightarrow> bool" where
  "canon_OffsetCommitRequest r \<longleftrightarrow>
     (1 \<le> (ocq_Version r) \<or> (ocq_ConsumerGroupGeneration r) = 0) \<and>
     (1 \<le> (ocq_Version r) \<or> (ocq_ConsumerID r) = []) \<and>
     (2 \<le> (ocq_Version r) \<or> (ocq_RetentionTime r) = 0) \<and>
     distinct (map fst (ocq_blocks r)) \<and> (\<forall>x \<in> set (ocq_blocks r). distinct (map fst (snd x)) \<and> (\<forall>x \<in> set (snd x). canon_offsetCommitRequestBlock (ocq_Version r) (snd x)))"

lemma decodes_OffsetCommitRequest:
  "canon_OffsetCommitRequest r \<Longrightarrow> 
    decodes (dec_OffsetCommitRequest (ocq_Version r)) (enc_OffsetCommitRequest r) r"
  unfolding dec_OffsetCommitRequest_def enc_OffsetCommitRequest_def
  by (intro decodes_unless_fail decodes_fields decodes_elements decodes_offsetCommitRequestBlock decodes_offsetCommitRequestBlock [THEN decodes_block] decodes_offsetCommitRequestBlock [THEN decodes_opt_block])
     (auto simp: canon_OffsetCommitRequest_def)

lemma guarded_OffsetCommitRequest: "guarded P (dec_OffsetCommitRequest version)"
  unfolding dec_OffsetCommitRequest_def by (intro guarded_intros guarded_offsetCommitRequestBlock)

record OffsetCommitResponse =
  ocp_Version :: int
  ocp_ThrottleTimeMs :: int
  ocp_Errors :: "(string \<times> (int \<times> int) list) list"

definition enc_OffsetCommitResponse :: "OffsetCommitResponse \<Rightarrow> etree list" where
  "enc_OffsetCommitResponse r =
     concat [eopt (3 \<le> (ocp_Version r)) [EInt32 (ocp_ThrottleTimeMs r)],
       earray (epair (\<lambda>x. [EString x]) (earray (epair (\<lambda>x. [EInt32 x]) (\<lambda>x. [EInt16 x])))) (ocp_Errors r)]"

definition dec_OffsetCommitResponse :: "int \<Rightarrow> OffsetCommitResponse dec" where
  "dec_OffsetCommitResponse version =
     bindD (optD (3 \<le> version) 0 getInt32) (\<lambda>ThrottleTimeMs.
     bindD (mapD (pairD getString (mapD (pairD getInt32 getInt16)))) (\<lambda>Errors.
     returnD \<lparr>ocp_Version = version, ocp_ThrottleTimeMs = ThrottleTimeMs,
       ocp_Errors = Errors\<rparr>))"

definition canon_OffsetCommitResponse :: "OffsetCommitResponse \<Rightarrow> bool" where
  "canon_OffsetCommitResponse r \<longleftrightarrow>
     (3 \<le> (ocp_Version r) \<or> (ocp_ThrottleTimeMs r) = 0) \<and>
     distinct (map fst (ocp_Errors r)) \<and> (\<forall>x \<in> set (ocp_Errors r). distinct (map fst (snd x)))"

lemma decodes_OffsetCommitResponse:
  "canon_OffsetCommitResponse r \<Longrightarrow> 
    decodes (dec_OffsetCommitResponse (ocp_Version r)) (enc_OffsetCommitResponse r) r"
  unfolding dec_OffsetCommitResponse_def enc_OffsetCommitResponse_def
  by (intro decodes_fields decodes_elements)
     (auto simp: canon_OffsetCommitResponse_def)

lemma guarded_OffsetCommitResponse: "guarded P (dec_OffsetCommitResponse version)"
  unfolding dec_OffsetCommitResponse_def by (intro guarded_intros)


record OffsetFetchRequest =
  ofq_Version :: int
  ofq_ConsumerGroup :: string
  ofq_partitions :: "(string \<times> int list) list option"

definition enc_OffsetFetchRequest :: "OffsetFetchRequest \<Rightarrow> etree list" where
  "enc_OffsetFetchRequest r =
     (if ofq_Version r < 0 \<or> 5 < ofq_Version r
      then [EFail (PacketEncodingError ''invalid or unsupported OffsetFetchRequest version field'')]
      else concat [[EString (ofq_ConsumerGroup r)],
        (if 2 \<le> ofq_Version r \<and> ofq_partitions r = None then [EInt32 (-1)]
         else earray (epair (\<lambda>x. [EString x]) (\<lambda>x. [EInt32Array x]))
           (case ofq_partitions r of None \<Rightarrow> [] | Some ps \<Rightarrow> ps))])"

definition dec_OffsetFetchRequest :: "int \<Rightarrow> OffsetFetchRequest dec" where
  "dec_OffsetFetchRequest version =
     bindD getString (\<lambda>ConsumerGroup.
     bindD getArrayLength (\<lambda>partitionCount.
     if partitionCount = 0 \<and> version < 2 \<or> partitionCount < 0
     then returnD \<lparr>ofq_Version = version, ofq_ConsumerGroup = ConsumerGroup, ofq_partitions = None\<rparr>
     else bindD (loopD (nat partitionCount) (pairD getString getInt32Array)) (\<lambda>ps.
       returnD \<lparr>ofq_Version = version, ofq_ConsumerGroup = ConsumerGroup,
         ofq_partitions = Some (put_all ps)\<rparr>)))"

definition canon_OffsetFetchRequest :: "OffsetFetchRequest \<Rightarrow> bool" where
  "canon_OffsetFetchRequest r \<longleftrightarrow>
     (case ofq_partitions r of None \<Rightarrow> True
      | Some ps \<Rightarrow> distinct (map fst ps) \<and> (2 \<le> ofq_Version r \<or> ps \<noteq> []))"

lemma decodes_OffsetFetchRequest:
  assumes canon: "canon_OffsetFetchRequest r"
  shows "decodes (dec_OffsetFetchRequest (ofq_Version r)) (enc_OffsetFetchRequest r) r"
proof (cases "ofq_Version r < 0 \<or> 5 < ofq_Version r")
  case False
  let ?f = "epair (\<lambda>x. [EString x]) (\<lambda>x. [EInt32Array x])"
    and ?k = "\<lambda>n. if n = 0 \<and> ofq_Version r < 2 \<or> n < 0
       then returnD \<lparr>ofq_Version = ofq_Version r, ofq_ConsumerGroup = ofq_ConsumerGroup r, ofq_partitions = None\<rparr>
       else bindD (loopD (nat n) (pairD getString getInt32Array)) (\<lambda>ps.
         returnD \<lparr>ofq_Version = ofq_Version r, ofq_ConsumerGroup = ofq_ConsumerGroup r,
           ofq_partitions = Some (put_all ps)\<rparr>)"
  have loop: "decodes (loopD n (pairD getString getInt32Array)) (concat (map ?f ps)) ps" if "n = length ps" for n ps
    using that decodes_loop [of ps "pairD getString getInt32Array" ?f "\<lambda>x. x"]
    by (simp add: decodes_pair decodes_leaves)
  have "decodes (bindD getArrayLength ?k) (if 2 \<le> ofq_Version r \<and> ofq_partitions r = None then [EInt32 (-1)]
         else earray ?f (case ofq_partitions r of None \<Rightarrow> [] | Some ps \<Rightarrow> ps)) r"
  proof (cases "ofq_partitions r")
    case None
    then show ?thesis
      by (auto intro!: decodes_bind_Nil [OF decodes_count_none] decodes_count decodes_return)
  next
    case (Some ps)
    with canon have "decodes (?k (int (length ps))) (concat (map ?f ps)) r"
      by (auto simp: canon_OffsetFetchRequest_def put_all_distinct intro!: decodes_bind_Nil [OF loop] decodes_return)
    with Some show ?thesis by (auto intro!: decodes_count)
  qed
  with False show ?thesis
    by (auto simp: dec_OffsetFetchRequest_def enc_OffsetFetchRequest_def decodes_leaf_binds)
qed (auto simp: enc_OffsetFetchRequest_def decodes_def)

lemma guarded_OffsetFetchRequest: "guarded P (dec_OffsetFetchRequest version)"
  unfolding dec_OffsetFetchRequest_def by (intro guarded_intros)

definition ZeroPartitions :: "OffsetFetchRequest \<Rightarrow> OffsetFetchRequest" where
  "ZeroPartitions r =
     (if ofq_partitions r = None \<and> 2 \<le> ofq_Version r then r\<lparr>ofq_partitions := Some []\<rparr> else r)"

definition AddPartition :: "string \<Rightarrow> int \<Rightarrow> OffsetFetchRequest \<Rightarrow> OffsetFetchRequest" where
  "AddPartition topic partitionID r =
     (let ps = (case ofq_partitions r of None \<Rightarrow> [] | Some ps \<Rightarrow> ps);
          old = (case map_of ps topic of None \<Rightarrow> [] | Some xs \<Rightarrow> xs)
      in r\<lparr>ofq_partitions := Some (AList.update topic (old @ [partitionID]) ps)\<rparr>)"

lemma distinct_update: "distinct (map fst ps) \<Longrightarrow> distinct (map fst (AList.update k v ps))"
  by (simp add: AList.distinct_update)

text \<open>The requests built by these two operations are ones that survive the wire.\<close>

lemma canon_AddPartition:
  "canon_OffsetFetchRequest r \<Longrightarrow> canon_OffsetFetchRequest (AddPartition topic p r) \<and>
   canon_OffsetFetchRequest (ZeroPartitions r)"
  by (auto simp: canon_OffsetFetchRequest_def AddPartition_def ZeroPartitions_def Let_def distinct_update
      update_nonempty split: option.splits)

record OffsetFetchResponseBlock =
  ofb_Offset :: int
  ofb_LeaderEpoch :: int
  ofb_Metadata :: string
  ofb_Err :: int

definition enc_OffsetFetchResponseBlock :: "int \<Rightarrow> OffsetFetchResponseBlock \<Rightarrow> etree list" where
  "enc_OffsetFetchResponseBlock version r =
     concat [[EInt64 (ofb_Offset r)], eopt (5 \<le> version) [EInt32 (ofb_LeaderEpoch r)],
       [EString (ofb_Metadata r), EInt16 (ofb_Err r)]]"

definition dec_OffsetFetchResponseBlock :: "int \<Rightarrow> OffsetFetchResponseBlock dec" where
  "dec_OffsetFetchResponseBlock version =
     bindD getInt64 (\<lambda>Offset.
     bindD (optD (5 \<le> version) 0 getInt32) (\<lambda>LeaderEpoch.
     bindD getString (\<lambda>Metadata.
     bindD getInt16 (\<lambda>Err.
     returnD \<lparr>ofb_Offset = Offset, ofb_LeaderEpoch = LeaderEpoch, ofb_Metadata = Metadata,
       ofb_Err = Err\<rparr>))))"

definition canon_OffsetFetchResponseBlock :: "int \<Rightarrow> OffsetFetchResponseBlock \<Rightarrow> bool" where
  "canon_OffsetFetchResponseBlock version r \<longleftrightarrow>
     (5 \<le> version \<or> (ofb_LeaderEpoch r) = 0)"

lemma decodes_OffsetFetchResponseBlock:
  "canon_OffsetFetchResponseBlock version r \<Longrightarrow> 
    decodes (dec_OffsetFetchResponseBlock version) (enc_OffsetFetchResponseBlock version r) r"
  unfolding dec_OffsetFetchResponseBlock_def enc_OffsetFetchResponseBlock_def
  by (intro decodes_fields decodes_elements)
     (auto simp: canon_OffsetFetchResponseBlock_def)

lemma wire_OffsetFetchResponseBlock_nonempty [simp]:
  "wire (enc_OffsetFetchResponseBlock version r) \<noteq> []"
  by (simp add: enc_OffsetFetchResponseBlock_def)

lemma guarded_OffsetFetchResponseBlock: "guarded P (dec_OffsetFetchResponseBlock version)"
  unfolding dec_OffsetFetchResponseBlock_def by (intro guarded_intros)

record OffsetFetchResponse =
  ofp_Version :: int
  ofp_ThrottleTimeMs :: int
  ofp_Blocks :: "(string \<times> (int \<times> OffsetFetchResponseBlock) list) list"
  ofp_Err :: int

definition enc_OffsetFetchResponse :: "OffsetFetchResponse \<Rightarrow> etree list" where
  "enc_OffsetFetchResponse r =
     concat [eopt (3 \<le> (ofp_Version r)) [EInt32 (ofp_ThrottleTimeMs r)],
       earray (epair (\<lambda>x. [EString x]) (earray (epair (\<lambda>x. [EInt32 x]) (enc_OffsetFetchResponseBlock (ofp_Version r))))) (ofp_Blocks r),
       eopt (2 \<le> (ofp_Version r)) [EInt16 (ofp_Err r)]]"

definition dec_OffsetFetchResponse :: "int \<Rightarrow> OffsetFetchResponse dec" where
  "dec_OffsetFetchResponse version =
     bindD (optD (3 \<le> version) 0 getInt32) (\<lambda>ThrottleTimeMs.
     bindD (mapD (pairD getString (mapD (pairD getInt32 (dec_OffsetFetchResponseBlock version))))) (\<lambda>Blocks.
     bindD (optD (2 \<le> version) 0 getInt16) (\<lambda>Err.
     returnD \<lparr>ofp_Version = version, ofp_ThrottleTimeMs = ThrottleTimeMs,
       ofp_Blocks = Blocks, ofp_Err = Err\<rparr>)))"

definition canon_OffsetFetchResponse :: "OffsetFetchResponse \<Rightarrow> bool" where
  "canon_OffsetFetchResponse r \<longleftrightarrow>
     (3 \<le> (ofp_Version r) \<or> (ofp_ThrottleTimeMs r) = 0) \<and>
     distinct (map fst (ofp_Blocks r)) \<and> (\<forall>x \<in> set (ofp_Blocks r). distinct (map fst (snd x)) \<and> (\<forall>x \<in> set (snd x). canon_OffsetFetchResponseBlock (ofp_Version r) (snd x))) \<and>
     (2 \<le> (ofp_Version r) \<or> (ofp_Err r) = 0)"

lemma decodes_OffsetFetchResponse:
  "canon_OffsetFetchResponse r \<Longrightarrow> 
    decodes (dec_OffsetFetchResponse (ofp_Version r)) (enc_OffsetFetchResponse r) r"
  unfolding dec_OffsetFetchResponse_def enc_OffsetFetchResponse_def
  by (intro decodes_fields decodes_elements decodes_OffsetFetchResponseBlock decodes_OffsetFetchResponseBlock [THEN decodes_block] decodes_OffsetFetchResponseBlock [THEN decodes_opt_block])
     (auto simp: canon_OffsetFetchResponse_def)

lemma guarded_OffsetFetchResponse: "guarded P (dec_OffsetFetchResponse version)"
  unfolding dec_OffsetFetchResponse_def by (intro guarded_intros guarded_OffsetFetchResponseBlock)

end
