(* ===== verification/Kafka_Admin_Messages.thy ===== *)
theory Kafka_Admin_Messages
  imports Kafka_Fields "HOL-Library.List_Lexorder" "HOL-Library.Char_ord"
begin

section \<open>Messages of the cluster administration\<close>

text \<open>
  Topics, partitions, records, configurations and access control lists: one record, encoder and decoder for
  each message, as in the theory of the group messages. The encoder of \<open>AlterConfigsResponse\<close> is left out: it
  swallows the error of a string that is too long, so the two passes of the encoder differ.
\<close>

record TopicDetail =
  tdt_NumPartitions :: int
  tdt_ReplicationFactor :: int
  tdt_ReplicaAssignment :: "(int \<times> int list) list"
  tdt_ConfigEntries :: "(string \<times> string option) list"

definition enc_TopicDetail :: "TopicDetail \<Rightarrow> etree list" where
  "enc_TopicDetail r =
     concat [[EInt32 (tdt_NumPartitions r), EInt16 (tdt_ReplicationFactor r)],
       earray (epair (\<lambda>x. [EInt32 x]) (\<lambda>x. [EInt32Array x])) (tdt_ReplicaAssignment r),
       earray (epair (\<lambda>x. [EString x]) (\<lambda>x. [ENullableString x])) (tdt_ConfigEntries r)]"

definition dec_TopicDetail :: "int \<Rightarrow> TopicDetail dec" where
  "dec_TopicDetail version =
     bindD getInt32 (\<lambda>NumPartitions.
     bindD getInt16 (\<lambda>ReplicationFactor.
     bindD (mapD (pairD getInt32 getInt32Array)) (\<lambda>ReplicaAssignment.
     bindD (mapD (pairD getString getNullableString)) (\<lambda>ConfigEntries.
     returnD \<lparr>tdt_NumPartitions = NumPartitions, tdt_ReplicationFactor = ReplicationFactor,
       tdt_ReplicaAssignment = ReplicaAssignment, tdt_ConfigEntries = ConfigEntries\<rparr>))))"

definition canon_TopicDetail :: "TopicDetail \<Rightarrow> bool" where
  "canon_TopicDetail r \<longleftrightarrow>
     distinct (map fst (tdt_ReplicaAssignment r)) \<and>
     distinct (map fst (tdt_ConfigEntries r))"

lemma decodes_TopicDetail:
  "canon_TopicDetail r \<Longrightarrow> 
    decodes (dec_TopicDetail version) (enc_TopicDetail r) r"
  unfolding dec_TopicDetail_def enc_TopicDetail_def
  by (intro decodes_fields decodes_elements)
     (auto simp: canon_TopicDetail_def)

lemma wire_TopicDetail_nonempty [simp]:
  "wire (enc_TopicDetail r) \<noteq> []"
  by (simp add: enc_TopicDetail_def)

lemma guarded_TopicDetail: "guarded P (dec_TopicDetail version)"
  unfolding dec_TopicDetail_def by (intro guarded_intros)

record CreateTopicsRequest =
  ctq_Version :: int
  ctq_TopicDetails :: "(string \<times> TopicDetail) list"
  ctq_Timeout :: int
  ctq_ValidateOnly :: bool

definition enc_CreateTopicsRequest :: "CreateTopicsRequest \<Rightarrow> etree list" where
  "enc_CreateTopicsRequest r =
     concat [earray (epair (\<lambda>x. [EString x]) enc_TopicDetail) (ctq_TopicDetails r),
       [EInt32 (millis32 (ctq_Timeout r))],
       eopt (1 \<le> (ctq_Version r)) [EBool (ctq_ValidateOnly r)]]"

definition dec_CreateTopicsRequest :: "int \<Rightarrow> CreateTopicsRequest dec" where
  "dec_CreateTopicsRequest version =
     bindD (mapD (pairD getString (dec_TopicDetail version))) (\<lambda>TopicDetails.
     bindD getMillis32 (\<lambda>Timeout.
     bindD (optD (1 \<le> version) False getBool) (\<lambda>ValidateOnly.
     returnD \<lparr>ctq_Version = (if 1 \<le> version then version else 0),
       ctq_TopicDetails = TopicDetails, ctq_Timeout = Timeout,
       ctq_ValidateOnly = ValidateOnly\<rparr>)))"

definition canon_CreateTopicsRequest :: "CreateTopicsRequest \<Rightarrow> bool" where
  "canon_CreateTopicsRequest r \<longleftrightarrow>
     distinct (map fst (ctq_TopicDetails r)) \<and> (\<forall>x \<in> set (ctq_TopicDetails r). canon_TopicDetail (snd x)) \<and>
     is_millis (ctq_Timeout r) \<and>
     (1 \<le> (ctq_Version r) \<or> (ctq_ValidateOnly r) = False) \<and>
     0 \<le> ctq_Version r"

lemma decodes_CreateTopicsRequest:
  "canon_CreateTopicsRequest r \<Longrightarrow> 
    decodes (dec_CreateTopicsRequest (ctq_Version r)) (enc_CreateTopicsRequest r) r"
  unfolding dec_CreateTopicsRequest_def enc_CreateTopicsRequest_def
  by (intro decodes_fields decodes_elements decodes_millis_fields decodes_millis decodes_TopicDetail decodes_TopicDetail [THEN decodes_block] decodes_TopicDetail [THEN decodes_opt_block])
     (auto simp: canon_CreateTopicsRequest_def)

lemma guarded_CreateTopicsRequest: "guarded P (dec_CreateTopicsRequest version)"
  unfolding dec_CreateTopicsRequest_def by (intro guarded_intros guarded_millis guarded_TopicDetail)

record TopicError =
  ter_Err :: int
  ter_ErrMsg :: "string option"

definition enc_TopicError :: "int \<Rightarrow> TopicError \<Rightarrow> etree list" where
  "enc_TopicError version r =
     concat [[EInt16 (ter_Err r)], eopt (1 \<le> version) [ENullableString (ter_ErrMsg r)]]"

definition dec_TopicError :: "int \<Rightarrow> TopicError dec" where
  "dec_TopicError version =
     bindD getInt16 (\<lambda>Err.
     bindD (optD (1 \<le> version) None getNullableString) (\<lambda>ErrMsg.
     returnD \<lparr>ter_Err = Err, ter_ErrMsg = ErrMsg\<rparr>))"

definition canon_TopicError :: "int \<Rightarrow> TopicError \<Rightarrow> bool" where
  "canon_TopicError version r \<longleftrightarrow>
     (1 \<le> version \<or> (ter_ErrMsg r) = None)"

lemma decodes_TopicError:
  "canon_TopicError version r \<Longrightarrow> 
    decodes (dec_TopicError version) (enc_TopicError version r) r"
  unfolding dec_TopicError_def enc_TopicError_def
  by (intro decodes_fields decodes_elements)
     (auto simp: canon_TopicError_def)

lemma wire_TopicError_nonempty [simp]:
  "wire (enc_TopicError version r) \<noteq> []"
  by (simp add: enc_TopicError_def)

lemma guarded_TopicError: "guarded P (dec_TopicError version)"
  unfolding dec_TopicError_def by (intro guarded_intros)

record CreateTopicsResponse =
  ctp_Version :: int
  ctp_ThrottleTime :: int
  ctp_TopicErrors :: "(string \<times> TopicError) list"

definition enc_CreateTopicsResponse :: "CreateTopicsResponse \<Rightarrow> etree list" where
  "enc_CreateTopicsResponse r =
     concat [eopt (2 \<le> (ctp_Version r)) [EInt32 (millis32 (ctp_ThrottleTime r))],
       earray (epair (\<lambda>x. [EString x]) (enc_TopicError (ctp_Version r))) (ctp_TopicErrors r)]"

definition dec_CreateTopicsResponse :: "int \<Rightarrow> CreateTopicsResponse dec" where
  "dec_CreateTopicsResponse version =
     bindD (optD (2 \<le> version) 0 getMillis32) (\<lambda>ThrottleTime.
     bindD (mapD (pairD getString (dec_TopicError version))) (\<lambda>TopicErrors.
     returnD \<lparr>ctp_Version = version, ctp_ThrottleTime = ThrottleTime,
       ctp_TopicErrors = TopicErrors\<rparr>))"

definition canon_CreateTopicsResponse :: "CreateTopicsResponse \<Rightarrow> bool" where
  "canon_CreateTopicsResponse r \<longleftrightarrow>
     (if 2 \<le> (ctp_Version r) then is_millis (ctp_ThrottleTime r) else (ctp_ThrottleTime r) = 0) \<and>
     distinct (map fst (ctp_TopicErrors r)) \<and> (\<forall>x \<in> set (ctp_TopicErrors r). canon_TopicError (ctp_Version r) (snd x))"

lemma decodes_CreateTopicsResponse:
  "canon_CreateTopicsResponse r \<Longrightarrow> 
    decodes (dec_CreateTopicsResponse (ctp_Version r)) (enc_CreateTopicsResponse r) r"
  unfolding dec_CreateTopicsResponse_def enc_CreateTopicsResponse_def
  by (intro decodes_fields decodes_elements decodes_millis_fields decodes_millis decodes_TopicError decodes_TopicError [THEN decodes_block] decodes_TopicError [THEN decodes_opt_block])
     (auto simp: canon_CreateTopicsResponse_def split: if_splits)

lemma guarded_CreateTopicsResponse: "guarded P (dec_CreateTopicsResponse version)"
  unfolding dec_CreateTopicsResponse_def by (intro guarded_intros guarded_millis guarded_TopicError)

record DeleteTopicsRequest =
  dtq_Version :: int
  dtq_Topics :: "string list"
  dtq_Timeout :: int

definition enc_DeleteTopicsRequest :: "DeleteTopicsRequest \<Rightarrow> etree list" where
  "enc_DeleteTopicsRequest r =
     concat [[EStringArray (dtq_Topics r), EInt32 (millis32 (dtq_Timeout r))]]"

definition dec_DeleteTopicsRequest :: "int \<Rightarrow> DeleteTopicsRequest dec" where
  "dec_DeleteTopicsRequest version =
     bindD getStringArray (\<lambda>Topics.
     bindD getMillis32 (\<lambda>Timeout.
     returnD \<lparr>dtq_Version = version, dtq_Topics = Topics, dtq_Timeout = Timeout\<rparr>))"

definition canon_DeleteTopicsRequest :: "DeleteTopicsRequest \<Rightarrow> bool" where
  "canon_DeleteTopicsRequest r \<longleftrightarrow>
     is_millis (dtq_Timeout r)"

lemma decodes_DeleteTopicsRequest:
  "canon_DeleteTopicsRequest r \<Longrightarrow> 
    decodes (dec_DeleteTopicsRequest (dtq_Version r)) (enc_DeleteTopicsRequest r) r"
  unfolding dec_DeleteTopicsRequest_def enc_DeleteTopicsRequest_def
  by (intro decodes_fields decodes_elements decodes_millis_fields decodes_millis)
     (auto simp: canon_DeleteTopicsRequest_def)

lemma guarded_DeleteTopicsRequest: "guarded P (dec_DeleteTopicsRequest version)"
  unfolding dec_DeleteTopicsRequest_def by (intro guarded_intros guarded_millis)

record DeleteTopicsResponse =
  dtp_Version :: int
  dtp_ThrottleTime :: int
  dtp_TopicErrorCodes :: "(string \<times> int) list"

definition enc_DeleteTopicsResponse :: "DeleteTopicsResponse \<Rightarrow> etree list" where
  "enc_DeleteTopicsResponse r =
     concat [eopt (1 \<le> (dtp_Version r)) [EInt32 (millis32 (dtp_ThrottleTime r))],
       earray (epair (\<lambda>x. [EString x]) (\<lambda>x. [EInt16 x])) (dtp_TopicErrorCodes r)]"

definition dec_DeleteTopicsResponse :: "int \<Rightarrow> DeleteTopicsResponse dec" where
  "dec_DeleteTopicsResponse version =
     bindD (optD (1 \<le> version) 0 getMillis32) (\<lambda>ThrottleTime.
     bindD (mapD (pairD getString getInt16)) (\<lambda>TopicErrorCodes.
     returnD \<lparr>dtp_Version = (if 1 \<le> version then version else 0),
       dtp_ThrottleTime = ThrottleTime, dtp_TopicErrorCodes = TopicErrorCodes\<rparr>))"

definition canon_DeleteTopicsResponse :: "DeleteTopicsResponse \<Rightarrow> bool" where
  "canon_DeleteTopicsResponse r \<longleftrightarrow>
     (if 1 \<le> (dtp_Version r) then is_millis (dtp_ThrottleTime r) else (dtp_ThrottleTime r) = 0) \<and>
     distinct (map fst (dtp_TopicErrorCodes r)) \<and>
     0 \<le> dtp_Version r"

lemma decodes_DeleteTopicsResponse:
  "canon_DeleteTopicsResponse r \<Longrightarrow> 
    decodes (dec_DeleteTopicsResponse (dtp_Version r)) (enc_DeleteTopicsResponse r) r"
  unfolding dec_DeleteTopicsResponse_def enc_DeleteTopicsResponse_def
  by (intro decodes_fields decodes_elements decodes_millis_fields decodes_millis)
     (auto simp: canon_DeleteTopicsResponse_def split: if_splits)

lemma guarded_DeleteTopicsResponse: "guarded P (dec_DeleteTopicsResponse version)"
  unfolding dec_DeleteTopicsResponse_def by (intro guarded_intros guarded_millis)


text \<open>
  The two \<open>encode\<close> methods go through the keys in increasing order. The list of a map with its keys in that
  order stands for the map.
\<close>

record DeleteRecordsRequestTopic =
  drt_PartitionOffsets :: "(int \<times> int) list"

definition enc_DeleteRecordsRequestTopic :: "DeleteRecordsRequestTopic \<Rightarrow> etree list" where
  "enc_DeleteRecordsRequestTopic t =
     concat [earray (epair (\<lambda>x. [EInt32 x]) (\<lambda>x. [EInt64 x])) (sort_key fst (drt_PartitionOffsets t))]"

definition dec_DeleteRecordsRequestTopic :: "int \<Rightarrow> DeleteRecordsRequestTopic dec" where
  "dec_DeleteRecordsRequestTopic version =
     bindD (mapD (pairD getInt32 getInt64)) (\<lambda>PartitionOffsets.
     returnD \<lparr>drt_PartitionOffsets = PartitionOffsets\<rparr>)"

definition in_order :: "('k :: linorder \<times> 'v) list \<Rightarrow> bool" where
  "in_order m \<longleftrightarrow> sorted (map fst m) \<and> distinct (map fst m)"

lemma sort_in_order: "in_order m \<Longrightarrow> sort_key fst m = m"
  by (simp add: in_order_def sort_key_id_if_sorted)

definition canon_DeleteRecordsRequestTopic :: "DeleteRecordsRequestTopic \<Rightarrow> bool" where
  "canon_DeleteRecordsRequestTopic t \<longleftrightarrow> in_order (drt_PartitionOffsets t)"

lemma decodes_DeleteRecordsRequestTopic:
  "canon_DeleteRecordsRequestTopic t \<Longrightarrow> decodes (dec_DeleteRecordsRequestTopic version) (enc_DeleteRecordsRequestTopic t) t"
  unfolding dec_DeleteRecordsRequestTopic_def enc_DeleteRecordsRequestTopic_def canon_DeleteRecordsRequestTopic_def
  by (simp only: sort_in_order, intro decodes_fields decodes_elements) (auto simp: in_order_def)

lemma wire_DeleteRecordsRequestTopic_nonempty [simp]: "wire (enc_DeleteRecordsRequestTopic t) \<noteq> []"
  by (simp add: enc_DeleteRecordsRequestTopic_def)

lemma guarded_DeleteRecordsRequestTopic: "guarded P (dec_DeleteRecordsRequestTopic version)"
  unfolding dec_DeleteRecordsRequestTopic_def by (intro guarded_intros)

record DeleteRecordsRequest =
  drq_Topics :: "(string \<times> DeleteRecordsRequestTopic) list"
  drq_Timeout :: int

definition enc_DeleteRecordsRequest :: "DeleteRecordsRequest \<Rightarrow> etree list" where
  "enc_DeleteRecordsRequest d =
     concat [earray (epair (\<lambda>x. [EString x]) enc_DeleteRecordsRequestTopic) (sort_key fst (drq_Topics d)),
       [EInt32 (millis32 (drq_Timeout d))]]"

definition dec_DeleteRecordsRequest :: "int \<Rightarrow> DeleteRecordsRequest dec" where
  "dec_DeleteRecordsRequest version =
     bindD (mapD (pairD getString (dec_DeleteRecordsRequestTopic version))) (\<lambda>Topics.
     bindD getMillis32 (\<lambda>Timeout.
     returnD \<lparr>drq_Topics = Topics, drq_Timeout = Timeout\<rparr>))"

definition canon_DeleteRecordsRequest :: "DeleteRecordsRequest \<Rightarrow> bool" where
  "canon_DeleteRecordsRequest d \<longleftrightarrow>
     in_order (drq_Topics d) \<and> (\<forall>x \<in> set (drq_Topics d). canon_DeleteRecordsRequestTopic (snd x)) \<and>
     is_millis (drq_Timeout d)"

lemma decodes_DeleteRecordsRequest:
  "canon_DeleteRecordsRequest d \<Longrightarrow> decodes (dec_DeleteRecordsRequest version) (enc_DeleteRecordsRequest d) d"
  unfolding dec_DeleteRecordsRequest_def enc_DeleteRecordsRequest_def canon_DeleteRecordsRequest_def
  by (simp only: sort_in_order, intro decodes_fields decodes_elements decodes_millis_fields decodes_DeleteRecordsRequestTopic)
     (auto simp: in_order_def)

lemma guarded_DeleteRecordsRequest: "guarded P (dec_DeleteRecordsRequest version)"
  unfolding dec_DeleteRecordsRequest_def by (intro guarded_intros guarded_millis guarded_DeleteRecordsRequestTopic)

record DeleteRecordsResponsePartition =
  drn_LowWatermark :: int
  drn_Err :: int

definition enc_DeleteRecordsResponsePartition :: "DeleteRecordsResponsePartition \<Rightarrow> etree list" where
  "enc_DeleteRecordsResponsePartition r =
     concat [[EInt64 (drn_LowWatermark r), EInt16 (drn_Err r)]]"

definition dec_DeleteRecordsResponsePartition :: "int \<Rightarrow> DeleteRecordsResponsePartition dec" where
  "dec_DeleteRecordsResponsePartition version =
     bindD getInt64 (\<lambda>LowWatermark.
     bindD getInt16 (\<lambda>Err.
     returnD \<lparr>drn_LowWatermark = LowWatermark, drn_Err = Err\<rparr>))"

lemma decodes_DeleteRecordsResponsePartition:
  "decodes (dec_DeleteRecordsResponsePartition version) (enc_DeleteRecordsResponsePartition r) r"
  unfolding dec_DeleteRecordsResponsePartition_def enc_DeleteRecordsResponsePartition_def
  by (intro decodes_fields decodes_elements)
     (auto)

lemma wire_DeleteRecordsResponsePartition_nonempty [simp]:
  "wire (enc_DeleteRecordsResponsePartition r) \<noteq> []"
  by (simp add: enc_DeleteRecordsResponsePartition_def)

lemma guarded_DeleteRecordsResponsePartition: "guarded P (dec_DeleteRecordsResponsePartition version)"
  unfolding dec_DeleteRecordsResponsePartition_def by (intro guarded_intros)


record DeleteRecordsResponseTopic =
  drs_Partitions :: "(int \<times> DeleteRecordsResponsePartition) list"

definition enc_DeleteRecordsResponseTopic :: "DeleteRecordsResponseTopic \<Rightarrow> etree list" where
  "enc_DeleteRecordsResponseTopic t =
     concat [earray (epair (\<lambda>x. [EInt32 x]) enc_DeleteRecordsResponsePartition) (sort_key fst (drs_Partitions t))]"

definition dec_DeleteRecordsResponseTopic :: "int \<Rightarrow> DeleteRecordsResponseTopic dec" where
  "dec_DeleteRecordsResponseTopic version =
     bindD (mapD (pairD getInt32 (dec_DeleteRecordsResponsePartition version))) (\<lambda>Partitions.
     returnD \<lparr>drs_Partitions = Partitions\<rparr>)"

definition canon_DeleteRecordsResponseTopic :: "DeleteRecordsResponseTopic \<Rightarrow> bool" where
  "canon_DeleteRecordsResponseTopic t \<longleftrightarrow> in_order (drs_Partitions t)"

lemma decodes_DeleteRecordsResponseTopic:
  "canon_DeleteRecordsResponseTopic t \<Longrightarrow>
    decodes (dec_DeleteRecordsResponseTopic version) (enc_DeleteRecordsResponseTopic t) t"
  unfolding dec_DeleteRecordsResponseTopic_def enc_DeleteRecordsResponseTopic_def canon_DeleteRecordsResponseTopic_def
  by (simp only: sort_in_order, intro decodes_fields decodes_elements decodes_DeleteRecordsResponsePartition)
     (auto simp: in_order_def)

lemma wire_DeleteRecordsResponseTopic_nonempty [simp]: "wire (enc_DeleteRecordsResponseTopic t) \<noteq> []"
  by (simp add: enc_DeleteRecordsResponseTopic_def)

lemma guarded_DeleteRecordsResponseTopic: "guarded P (dec_DeleteRecordsResponseTopic version)"
  unfolding dec_DeleteRecordsResponseTopic_def by (intro guarded_intros guarded_DeleteRecordsResponsePartition)

record DeleteRecordsResponse =
  drp_Version :: int
  drp_ThrottleTime :: int
  drp_Topics :: "(string \<times> DeleteRecordsResponseTopic) list"

definition enc_DeleteRecordsResponse :: "DeleteRecordsResponse \<Rightarrow> etree list" where
  "enc_DeleteRecordsResponse d =
     concat [[EInt32 (millis32 (drp_ThrottleTime d))],
       earray (epair (\<lambda>x. [EString x]) enc_DeleteRecordsResponseTopic) (sort_key fst (drp_Topics d))]"

definition dec_DeleteRecordsResponse :: "int \<Rightarrow> DeleteRecordsResponse dec" where
  "dec_DeleteRecordsResponse version =
     bindD getMillis32 (\<lambda>ThrottleTime.
     bindD (mapD (pairD getString (dec_DeleteRecordsResponseTopic version))) (\<lambda>Topics.
     returnD \<lparr>drp_Version = version, drp_ThrottleTime = ThrottleTime, drp_Topics = Topics\<rparr>))"

definition canon_DeleteRecordsResponse :: "DeleteRecordsResponse \<Rightarrow> bool" where
  "canon_DeleteRecordsResponse d \<longleftrightarrow>
     is_millis (drp_ThrottleTime d) \<and> in_order (drp_Topics d) \<and>
     (\<forall>x \<in> set (drp_Topics d). canon_DeleteRecordsResponseTopic (snd x))"

lemma decodes_DeleteRecordsResponse:
  "canon_DeleteRecordsResponse d \<Longrightarrow>
    decodes (dec_DeleteRecordsResponse (drp_Version d)) (enc_DeleteRecordsResponse d) d"
  unfolding dec_DeleteRecordsResponse_def enc_DeleteRecordsResponse_def canon_DeleteRecordsResponse_def
  by (simp only: sort_in_order, intro decodes_fields decodes_elements decodes_millis_fields decodes_DeleteRecordsResponseTopic)
     (auto simp: in_order_def)

lemma guarded_DeleteRecordsResponse: "guarded P (dec_DeleteRecordsResponse version)"
  unfolding dec_DeleteRecordsResponse_def by (intro guarded_intros guarded_millis guarded_DeleteRecordsResponseTopic)


record TopicPartition =
  tpt_Count :: int
  tpt_Assignment :: "int list list"

definition enc_TopicPartition :: "TopicPartition \<Rightarrow> etree list" where
  "enc_TopicPartition t =
     concat [[EInt32 (tpt_Count t)],
       (if tpt_Assignment t = [] then [EInt32 (-1)] else earray (\<lambda>x. [EInt32Array x]) (tpt_Assignment t))]"

definition dec_TopicPartition :: "int \<Rightarrow> TopicPartition dec" where
  "dec_TopicPartition version =
     bindD getInt32 (\<lambda>Count.
     bindD getInt32 (\<lambda>n.
     if n \<le> 0 then returnD \<lparr>tpt_Count = Count, tpt_Assignment = []\<rparr>
     else bindD (makeD 24 n) (\<lambda>_.
       bindD (loopD (nat n) getInt32Array) (\<lambda>Assignment.
       returnD \<lparr>tpt_Count = Count, tpt_Assignment = Assignment\<rparr>))))"

lemma decodes_TopicPartition: "decodes (dec_TopicPartition version) (enc_TopicPartition t) t"
proof -
  let ?xs = "tpt_Assignment t"
  let ?k = "\<lambda>n. if n \<le> 0 then returnD \<lparr>tpt_Count = tpt_Count t, tpt_Assignment = []\<rparr>
     else bindD (makeD 24 n) (\<lambda>_. bindD (loopD (nat n) getInt32Array) (\<lambda>Assignment.
       returnD \<lparr>tpt_Count = tpt_Count t, tpt_Assignment = Assignment\<rparr>))"
  have loop: "decodes (loopD n getInt32Array) (concat (map (\<lambda>x. [EInt32Array x]) ?xs)) ?xs" if "n = length ?xs" for n
    using that decodes_loop [of ?xs getInt32Array "\<lambda>x. [EInt32Array x]" "\<lambda>x. x"]
    by (simp add: decodes_leaves del: concat_map_singleton)
  have "decodes (bindD getInt32 ?k) (earray (\<lambda>x. [EInt32Array x]) ?xs) t" if "?xs \<noteq> []" "int (length ?xs) \<le> 131070"
    unfolding earray_def using that
    by (intro decodes_leaf_bind [OF decodes_count_int32])
       (auto intro!: decodes_make decodes_bind_Nil [OF loop] decodes_return simp del: concat_map_singleton)
  moreover have "\<not> int (length ?xs) \<le> 131070 \<Longrightarrow> decodes (bindD getInt32 ?k) (earray (\<lambda>x. [EInt32Array x]) ?xs) t"
    by (simp add: decodes_def earray_def)
  ultimately show ?thesis
    unfolding dec_TopicPartition_def enc_TopicPartition_def by (auto intro!: decodes_leaf_binds decodes_return)
qed

lemma wire_TopicPartition_nonempty [simp]: "wire (enc_TopicPartition t) \<noteq> []"
  by (simp add: enc_TopicPartition_def)

lemma guarded_TopicPartition: "P MakePanic \<Longrightarrow> guarded P (dec_TopicPartition version)"
  unfolding dec_TopicPartition_def by (intro guarded_intros guarded_makeD) auto

record CreatePartitionsRequest =
  cpq_TopicPartitions :: "(string \<times> TopicPartition) list"
  cpq_Timeout :: int
  cpq_ValidateOnly :: bool

definition enc_CreatePartitionsRequest :: "CreatePartitionsRequest \<Rightarrow> etree list" where
  "enc_CreatePartitionsRequest r =
     concat [earray (epair (\<lambda>x. [EString x]) enc_TopicPartition) (cpq_TopicPartitions r),
       [EInt32 (millis32 (cpq_Timeout r)), EBool (cpq_ValidateOnly r)]]"

definition dec_CreatePartitionsRequest :: "int \<Rightarrow> CreatePartitionsRequest dec" where
  "dec_CreatePartitionsRequest version =
     bindD (mapD (pairD getString (dec_TopicPartition version))) (\<lambda>TopicPartitions.
     bindD getMillis32 (\<lambda>Timeout.
     bindD getBool (\<lambda>ValidateOnly.
     returnD \<lparr>cpq_TopicPartitions = TopicPartitions, cpq_Timeout = Timeout,
       cpq_ValidateOnly = ValidateOnly\<rparr>)))"

definition canon_CreatePartitionsRequest :: "CreatePartitionsRequest \<Rightarrow> bool" where
  "canon_CreatePartitionsRequest r \<longleftrightarrow>
     distinct (map fst (cpq_TopicPartitions r)) \<and>
     is_millis (cpq_Timeout r)"

lemma decodes_CreatePartitionsRequest:
  "canon_CreatePartitionsRequest r \<Longrightarrow> 
    decodes (dec_CreatePartitionsRequest version) (enc_CreatePartitionsRequest r) r"
  unfolding dec_CreatePartitionsRequest_def enc_CreatePartitionsRequest_def
  by (intro decodes_fields decodes_elements decodes_millis_fields decodes_millis decodes_TopicPartition decodes_TopicPartition [THEN decodes_block] decodes_TopicPartition [THEN decodes_opt_block])
     (auto simp: canon_CreatePartitionsRequest_def)

lemma guarded_CreatePartitionsRequest: "P MakePanic \<Longrightarrow> guarded P (dec_CreatePartitionsRequest version)"
  unfolding dec_CreatePartitionsRequest_def by (intro guarded_intros guarded_millis guarded_TopicPartition) auto

record TopicPartitionError =
  tpe_Err :: int
  tpe_ErrMsg :: "string option"

definition enc_TopicPartitionError :: "TopicPartitionError \<Rightarrow> etree list" where
  "enc_TopicPartitionError r =
     concat [[EInt16 (tpe_Err r), ENullableString (tpe_ErrMsg r)]]"

definition dec_TopicPartitionError :: "int \<Rightarrow> TopicPartitionError dec" where
  "dec_TopicPartitionError version =
     bindD getInt16 (\<lambda>Err.
     bindD getNullableString (\<lambda>ErrMsg.
     returnD \<lparr>tpe_Err = Err, tpe_ErrMsg = ErrMsg\<rparr>))"

lemma decodes_TopicPartitionError:
  "decodes (dec_TopicPartitionError version) (enc_TopicPartitionError r) r"
  unfolding dec_TopicPartitionError_def enc_TopicPartitionError_def
  by (intro decodes_fields decodes_elements)
     (auto)

lemma wire_TopicPartitionError_nonempty [simp]:
  "wire (enc_TopicPartitionError r) \<noteq> []"
  by (simp add: enc_TopicPartitionError_def)

lemma guarded_TopicPartitionError: "guarded P (dec_TopicPartitionError version)"
  unfolding dec_TopicPartitionError_def by (intro guarded_intros)

record CreatePartitionsResponse =
  cpp_ThrottleTime :: int
  cpp_TopicPartitionErrors :: "(string \<times> TopicPartitionError) list"

definition enc_CreatePartitionsResponse :: "CreatePartitionsResponse \<Rightarrow> etree list" where
  "enc_CreatePartitionsResponse r =
     concat [[EInt32 (millis32 (cpp_ThrottleTime r))],
       earray (epair (\<lambda>x. [EString x]) enc_TopicPartitionError) (cpp_TopicPartitionErrors r)]"

definition dec_CreatePartitionsResponse :: "int \<Rightarrow> CreatePartitionsResponse dec" where
  "dec_CreatePartitionsResponse version =
     bindD getMillis32 (\<lambda>ThrottleTime.
     bindD (mapD (pairD getString (dec_TopicPartitionError version))) (\<lambda>TopicPartitionErrors.
     returnD \<lparr>cpp_ThrottleTime = ThrottleTime,
       cpp_TopicPartitionErrors = TopicPartitionErrors\<rparr>))"

definition canon_CreatePartitionsResponse :: "CreatePartitionsResponse \<Rightarrow> bool" where
  "canon_CreatePartitionsResponse r \<longleftrightarrow>
     is_millis (cpp_ThrottleTime r) \<and>
     distinct (map fst (cpp_TopicPartitionErrors r))"

lemma decodes_CreatePartitionsResponse:
  "canon_CreatePartitionsResponse r \<Longrightarrow> 
    decodes (dec_CreatePartitionsResponse version) (enc_CreatePartitionsResponse r) r"
  unfolding dec_CreatePartitionsResponse_def enc_CreatePartitionsResponse_def
  by (intro decodes_fields decodes_elements decodes_millis_fields decodes_millis decodes_TopicPartitionError decodes_TopicPartitionError [THEN decodes_block] decodes_TopicPartitionError [THEN decodes_opt_block])
     (auto simp: canon_CreatePartitionsResponse_def)

lemma guarded_CreatePartitionsResponse: "guarded P (dec_CreatePartitionsResponse version)"
  unfolding dec_CreatePartitionsResponse_def by (intro guarded_intros guarded_millis guarded_TopicPartitionError)


record ConfigResource =
  cfr_Type :: int
  cfr_Name :: string
  cfr_ConfigNames :: "string list"

record DescribeConfigsRequest =
  dcq_Version :: int
  dcq_Resources :: "ConfigResource list"
  dcq_IncludeSynonyms :: bool

text \<open>The bodies of the two loops over the resources.\<close>

definition enc_ConfigResource :: "ConfigResource \<Rightarrow> etree list" where
  "enc_ConfigResource c =
     concat [[EInt8 (cfr_Type c), EString (cfr_Name c)],
       (if cfr_ConfigNames c = [] then [EInt32 (-1)] else [EStringArray (cfr_ConfigNames c)])]"

definition dec_ConfigResource :: "ConfigResource dec" where
  "dec_ConfigResource =
     bindD getInt8 (\<lambda>Type.
     bindD getString (\<lambda>Name.
     bindD getArrayLength (\<lambda>confLength.
     if confLength = -1 then returnD \<lparr>cfr_Type = Type, cfr_Name = Name, cfr_ConfigNames = []\<rparr>
     else bindD (makeD 16 confLength) (\<lambda>_.
       bindD (loopD (nat confLength) getString) (\<lambda>cfnames.
       returnD \<lparr>cfr_Type = Type, cfr_Name = Name, cfr_ConfigNames = cfnames\<rparr>)))))"

definition canon_ConfigResource :: "ConfigResource \<Rightarrow> bool" where
  "canon_ConfigResource c \<longleftrightarrow> int (length (cfr_ConfigNames c)) \<le> 131070"

lemma decodes_ConfigResource: "canon_ConfigResource c \<Longrightarrow> decodes dec_ConfigResource (enc_ConfigResource c) c"
proof -
  assume canon: "canon_ConfigResource c"
  let ?ss = "cfr_ConfigNames c"
  let ?k = "\<lambda>n. if n = -1 then returnD \<lparr>cfr_Type = cfr_Type c, cfr_Name = cfr_Name c, cfr_ConfigNames = []\<rparr>
     else bindD (makeD 16 n) (\<lambda>_. bindD (loopD (nat n) getString) (\<lambda>cfnames.
       returnD \<lparr>cfr_Type = cfr_Type c, cfr_Name = cfr_Name c, cfr_ConfigNames = cfnames\<rparr>))"
  have loop: "decodes (loopD n getString) (concat (map (\<lambda>s. [EString s]) ?ss)) ?ss" if "n = length ?ss" for n
    using that decodes_loop [of ?ss getString "\<lambda>s. [EString s]" "\<lambda>x. x"]
    by (simp add: decodes_leaves del: concat_map_singleton)
  have "decodes (bindD getArrayLength ?k) [EStringArray ?ss] c"
    using canon unfolding canon_ConfigResource_def
    by (intro decodes_strings_count)
       (auto intro!: decodes_make decodes_bind_Nil [OF loop] decodes_return simp del: concat_map_singleton)
  moreover have "?ss = [] \<Longrightarrow> decodes (bindD getArrayLength ?k) [EInt32 (-1)] c"
    by (intro decodes_bind_Nil [OF decodes_count_none]) (simp add: decodes_return)
  ultimately show ?thesis
    unfolding dec_ConfigResource_def enc_ConfigResource_def by (auto simp: decodes_leaf_binds)
qed

lemma wire_ConfigResource_nonempty [simp]: "wire (enc_ConfigResource c) \<noteq> []"
  by (simp add: enc_ConfigResource_def)

lemma guarded_ConfigResource: "P MakePanic \<Longrightarrow> guarded P dec_ConfigResource"
  unfolding dec_ConfigResource_def by (intro guarded_intros guarded_makeD) auto

definition enc_DescribeConfigsRequest :: "DescribeConfigsRequest \<Rightarrow> etree list" where
  "enc_DescribeConfigsRequest r =
     concat [earray enc_ConfigResource (dcq_Resources r), eopt (1 \<le> dcq_Version r) [EBool (dcq_IncludeSynonyms r)]]"

definition dec_DescribeConfigsRequest :: "int \<Rightarrow> DescribeConfigsRequest dec" where
  "dec_DescribeConfigsRequest version =
     bindD (sliceD dec_ConfigResource) (\<lambda>Resources.
     bindD (optD (1 \<le> version) False getBool) (\<lambda>IncludeSynonyms.
     returnD \<lparr>dcq_Version = version, dcq_Resources = Resources, dcq_IncludeSynonyms = IncludeSynonyms\<rparr>))"

definition canon_DescribeConfigsRequest :: "DescribeConfigsRequest \<Rightarrow> bool" where
  "canon_DescribeConfigsRequest r \<longleftrightarrow>
     (\<forall>x \<in> set (dcq_Resources r). canon_ConfigResource x) \<and> (1 \<le> dcq_Version r \<or> dcq_IncludeSynonyms r = False)"

lemma decodes_DescribeConfigsRequest:
  "canon_DescribeConfigsRequest r \<Longrightarrow>
    decodes (dec_DescribeConfigsRequest (dcq_Version r)) (enc_DescribeConfigsRequest r) r"
  unfolding dec_DescribeConfigsRequest_def enc_DescribeConfigsRequest_def
  by (intro decodes_fields decodes_ConfigResource) (auto simp: canon_DescribeConfigsRequest_def)

lemma guarded_DescribeConfigsRequest: "P MakePanic \<Longrightarrow> guarded P (dec_DescribeConfigsRequest version)"
  unfolding dec_DescribeConfigsRequest_def by (intro guarded_intros guarded_ConfigResource) auto


record ConfigSynonym =
  cfs_ConfigName :: string
  cfs_ConfigValue :: string
  cfs_Source :: int

definition enc_ConfigSynonym :: "int \<Rightarrow> ConfigSynonym \<Rightarrow> etree list" where
  "enc_ConfigSynonym version c =
     concat [[EString (cfs_ConfigName c), EString (cfs_ConfigValue c), EInt8 (cfs_Source c)]]"

text \<open>The decoder of a synonym returns \<open>nil\<close> when one of its fields cannot be read.\<close>

definition dec_ConfigSynonym :: "int \<Rightarrow> ConfigSynonym dec" where
  "dec_ConfigSynonym version =
     quietD getString \<lparr>cfs_ConfigName = [], cfs_ConfigValue = [], cfs_Source = 0\<rparr> (\<lambda>name.
     quietD getString \<lparr>cfs_ConfigName = name, cfs_ConfigValue = [], cfs_Source = 0\<rparr> (\<lambda>value.
     quietD getInt8 \<lparr>cfs_ConfigName = name, cfs_ConfigValue = value, cfs_Source = 0\<rparr> (\<lambda>source.
     returnD \<lparr>cfs_ConfigName = name, cfs_ConfigValue = value, cfs_Source = source\<rparr>)))"

lemma decodes_ConfigSynonym: "decodes (dec_ConfigSynonym version) (enc_ConfigSynonym version c) c"
  unfolding dec_ConfigSynonym_def enc_ConfigSynonym_def
  by (intro decodes_leaves [THEN decodes_quiet] decodes_fields) auto

lemma wire_ConfigSynonym_nonempty [simp]: "wire (enc_ConfigSynonym version c) \<noteq> []"
  by (simp add: enc_ConfigSynonym_def)

lemma guarded_ConfigSynonym: "guarded P (dec_ConfigSynonym version)"
  unfolding dec_ConfigSynonym_def by (intro guarded_quiet guarded_intros)

record ConfigEntry =
  cfe_Name :: string
  cfe_Value :: string
  cfe_ReadOnly :: bool
  cfe_Default :: bool
  cfe_Source :: int
  cfe_Sensitive :: bool
  cfe_Synonyms :: "ConfigSynonym list"

definition enc_ConfigEntry :: "int \<Rightarrow> ConfigEntry \<Rightarrow> etree list" where
  "enc_ConfigEntry version r =
     concat [[EString (cfe_Name r), EString (cfe_Value r), EBool (cfe_ReadOnly r)],
       (if version \<le> 0 then [EBool (cfe_Default r), EBool (cfe_Sensitive r)]
        else concat [[EInt8 (cfe_Source r), EBool (cfe_Sensitive r)],
          earray (enc_ConfigSynonym version) (cfe_Synonyms r)])]"

definition dec_ConfigEntry :: "int \<Rightarrow> ConfigEntry dec" where
  "dec_ConfigEntry version =
     bindD getString (\<lambda>name.
     bindD getString (\<lambda>value.
     bindD getBool (\<lambda>read.
     bindD (optD (version = 0) False getBool) (\<lambda>defaultB.
     bindD (optD (version \<noteq> 0) 0 getInt8) (\<lambda>source.
     bindD getBool (\<lambda>sensitive.
     bindD (optD (0 < version) [] (sliceD (dec_ConfigSynonym version))) (\<lambda>Synonyms.
     returnD \<lparr>cfe_Name = name, cfe_Value = value, cfe_ReadOnly = read, cfe_Default = defaultB,
       cfe_Source = source, cfe_Sensitive = sensitive, cfe_Synonyms = Synonyms\<rparr>)))))))"

definition canon_ConfigEntry :: "int \<Rightarrow> ConfigEntry \<Rightarrow> bool" where
  "canon_ConfigEntry version r \<longleftrightarrow>
     (if version = 0 then cfe_Source r = 0 \<and> cfe_Synonyms r = [] else 0 < version \<and> \<not> cfe_Default r)"

lemma optD_simps [simp]: "optD True x m = m" "optD False x m = returnD x"
  by (simp_all add: optD_def)

lemma bindD_returnD [simp]: "bindD (returnD x) k = k x"
  by (simp add: bindD_def returnD_def fun_eq_iff)

lemma decodes_ConfigEntry:
  "canon_ConfigEntry version r \<Longrightarrow> decodes (dec_ConfigEntry version) (enc_ConfigEntry version r) r"
  unfolding dec_ConfigEntry_def enc_ConfigEntry_def canon_ConfigEntry_def
  by (cases "version = 0")
     (auto intro!: decodes_leaf_binds decodes_return decodes_bind_Nil [OF decodes_list_id(2)] decodes_ConfigSynonym)

lemma wire_ConfigEntry_nonempty [simp]: "wire (enc_ConfigEntry version r) \<noteq> []"
  by (simp add: enc_ConfigEntry_def)

lemma guarded_ConfigEntry: "P MakePanic \<Longrightarrow> guarded P (dec_ConfigEntry version)"
  unfolding dec_ConfigEntry_def by (intro guarded_intros guarded_ConfigSynonym) auto

record ResourceResponse =
  rrs_ErrorCode :: int
  rrs_ErrorMsg :: string
  rrs_Type :: int
  rrs_Name :: string
  rrs_Configs :: "ConfigEntry list"

definition enc_ResourceResponse :: "int \<Rightarrow> ResourceResponse \<Rightarrow> etree list" where
  "enc_ResourceResponse version r =
     concat [[EInt16 (rrs_ErrorCode r), EString (rrs_ErrorMsg r), EInt8 (rrs_Type r), EString (rrs_Name r)],
       earray (enc_ConfigEntry version) (rrs_Configs r)]"

definition dec_ResourceResponse :: "int \<Rightarrow> ResourceResponse dec" where
  "dec_ResourceResponse version =
     bindD getInt16 (\<lambda>ErrorCode.
     bindD getString (\<lambda>ErrorMsg.
     bindD getInt8 (\<lambda>Type.
     bindD getString (\<lambda>Name.
     bindD (sliceD (dec_ConfigEntry version)) (\<lambda>Configs.
     returnD \<lparr>rrs_ErrorCode = ErrorCode, rrs_ErrorMsg = ErrorMsg, rrs_Type = Type,
       rrs_Name = Name, rrs_Configs = Configs\<rparr>)))))"

definition canon_ResourceResponse :: "int \<Rightarrow> ResourceResponse \<Rightarrow> bool" where
  "canon_ResourceResponse version r \<longleftrightarrow>
     (\<forall>x \<in> set (rrs_Configs r). canon_ConfigEntry version x)"

lemma decodes_ResourceResponse:
  "canon_ResourceResponse version r \<Longrightarrow> 
    decodes (dec_ResourceResponse version) (enc_ResourceResponse version r) r"
  unfolding dec_ResourceResponse_def enc_ResourceResponse_def
  by (intro decodes_fields decodes_elements decodes_ConfigEntry decodes_ConfigEntry [THEN decodes_block] decodes_ConfigEntry [THEN decodes_opt_block])
     (auto simp: canon_ResourceResponse_def)

lemma wire_ResourceResponse_nonempty [simp]:
  "wire (enc_ResourceResponse version r) \<noteq> []"
  by (simp add: enc_ResourceResponse_def)

lemma guarded_ResourceResponse: "P MakePanic \<Longrightarrow> guarded P (dec_ResourceResponse version)"
  unfolding dec_ResourceResponse_def by (intro guarded_intros guarded_ConfigEntry) auto

record DescribeConfigsResponse =
  dcp_Version :: int
  dcp_ThrottleTime :: int
  dcp_Resources :: "ResourceResponse list"

definition enc_DescribeConfigsResponse :: "DescribeConfigsResponse \<Rightarrow> etree list" where
  "enc_DescribeConfigsResponse r =
     concat [[EInt32 (millis32 (dcp_ThrottleTime r))],
       earray (enc_ResourceResponse (dcp_Version r)) (dcp_Resources r)]"

definition dec_DescribeConfigsResponse :: "int \<Rightarrow> DescribeConfigsResponse dec" where
  "dec_DescribeConfigsResponse version =
     bindD getMillis32 (\<lambda>ThrottleTime.
     bindD (sliceD (dec_ResourceResponse version)) (\<lambda>Resources.
     returnD \<lparr>dcp_Version = version, dcp_ThrottleTime = ThrottleTime,
       dcp_Resources = Resources\<rparr>))"

definition canon_DescribeConfigsResponse :: "DescribeConfigsResponse \<Rightarrow> bool" where
  "canon_DescribeConfigsResponse r \<longleftrightarrow>
     is_millis (dcp_ThrottleTime r) \<and>
     (\<forall>x \<in> set (dcp_Resources r). canon_ResourceResponse (dcp_Version r) x)"

lemma decodes_DescribeConfigsResponse:
  "canon_DescribeConfigsResponse r \<Longrightarrow> 
    decodes (dec_DescribeConfigsResponse (dcp_Version r)) (enc_DescribeConfigsResponse r) r"
  unfolding dec_DescribeConfigsResponse_def enc_DescribeConfigsResponse_def
  by (intro decodes_fields decodes_elements decodes_millis_fields decodes_millis decodes_ResourceResponse decodes_ResourceResponse [THEN decodes_block] decodes_ResourceResponse [THEN decodes_opt_block])
     (auto simp: canon_DescribeConfigsResponse_def)

lemma guarded_DescribeConfigsResponse: "P MakePanic \<Longrightarrow> guarded P (dec_DescribeConfigsResponse version)"
  unfolding dec_DescribeConfigsResponse_def by (intro guarded_intros guarded_millis guarded_ResourceResponse) auto

record AlterConfigsResource =
  acr_Type :: int
  acr_Name :: string
  acr_ConfigEntries :: "(string \<times> string option) list"

definition enc_AlterConfigsResource :: "AlterConfigsResource \<Rightarrow> etree list" where
  "enc_AlterConfigsResource r =
     concat [[EInt8 (acr_Type r), EString (acr_Name r)],
       earray (epair (\<lambda>x. [EString x]) (\<lambda>x. [ENullableString x])) (acr_ConfigEntries r)]"

definition dec_AlterConfigsResource :: "int \<Rightarrow> AlterConfigsResource dec" where
  "dec_AlterConfigsResource version =
     bindD getInt8 (\<lambda>Type.
     bindD getString (\<lambda>Name.
     bindD (mapD (pairD getString getNullableString)) (\<lambda>ConfigEntries.
     returnD \<lparr>acr_Type = Type, acr_Name = Name, acr_ConfigEntries = ConfigEntries\<rparr>)))"

definition canon_AlterConfigsResource :: "AlterConfigsResource \<Rightarrow> bool" where
  "canon_AlterConfigsResource r \<longleftrightarrow>
     distinct (map fst (acr_ConfigEntries r))"

lemma decodes_AlterConfigsResource:
  "canon_AlterConfigsResource r \<Longrightarrow> 
    decodes (dec_AlterConfigsResource version) (enc_AlterConfigsResource r) r"
  unfolding dec_AlterConfigsResource_def enc_AlterConfigsResource_def
  by (intro decodes_fields decodes_elements)
     (auto simp: canon_AlterConfigsResource_def)

lemma wire_AlterConfigsResource_nonempty [simp]:
  "wire (enc_AlterConfigsResource r) \<noteq> []"
  by (simp add: enc_AlterConfigsResource_def)

lemma guarded_AlterConfigsResource: "guarded P (dec_AlterConfigsResource version)"
  unfolding dec_AlterConfigsResource_def by (intro guarded_intros)

record AlterConfigsRequest =
  acq_Resources :: "AlterConfigsResource list"
  acq_ValidateOnly :: bool

definition enc_AlterConfigsRequest :: "AlterConfigsRequest \<Rightarrow> etree list" where
  "enc_AlterConfigsRequest r =
     concat [earray enc_AlterConfigsResource (acq_Resources r), [EBool (acq_ValidateOnly r)]]"

definition dec_AlterConfigsRequest :: "int \<Rightarrow> AlterConfigsRequest dec" where
  "dec_AlterConfigsRequest version =
     bindD (sliceD (dec_AlterConfigsResource version)) (\<lambda>Resources.
     bindD getBool (\<lambda>ValidateOnly.
     returnD \<lparr>acq_Resources = Resources, acq_ValidateOnly = ValidateOnly\<rparr>))"

definition canon_AlterConfigsRequest :: "AlterConfigsRequest \<Rightarrow> bool" where
  "canon_AlterConfigsRequest r \<longleftrightarrow>
     (\<forall>x \<in> set (acq_Resources r). canon_AlterConfigsResource x)"

lemma decodes_AlterConfigsRequest:
  "canon_AlterConfigsRequest r \<Longrightarrow> 
    decodes (dec_AlterConfigsRequest version) (enc_AlterConfigsRequest r) r"
  unfolding dec_AlterConfigsRequest_def enc_AlterConfigsRequest_def
  by (intro decodes_fields decodes_elements decodes_AlterConfigsResource decodes_AlterConfigsResource [THEN decodes_block] decodes_AlterConfigsResource [THEN decodes_opt_block])
     (auto simp: canon_AlterConfigsRequest_def)

lemma guarded_AlterConfigsRequest: "P MakePanic \<Longrightarrow> guarded P (dec_AlterConfigsRequest version)"
  unfolding dec_AlterConfigsRequest_def by (intro guarded_intros guarded_AlterConfigsResource) auto


record AlterConfigsResourceResponse =
  arr_ErrorCode :: int
  arr_ErrorMsg :: string
  arr_Type :: int
  arr_Name :: string

record AlterConfigsResponse =
  acp_ThrottleTime :: int
  acp_Resources :: "AlterConfigsResourceResponse list"

definition dec_AlterConfigsResponse :: "int \<Rightarrow> AlterConfigsResponse dec" where
  "dec_AlterConfigsResponse version =
     bindD getMillis32 (\<lambda>ThrottleTime.
     bindD (sliceD
       (bindD getInt16 (\<lambda>errCode.
        bindD getString (\<lambda>e.
        bindD getInt8 (\<lambda>t.
        bindD getString (\<lambda>name.
        returnD \<lparr>arr_ErrorCode = errCode, arr_ErrorMsg = e, arr_Type = t, arr_Name = name\<rparr>)))))) (\<lambda>Resources.
     returnD \<lparr>acp_ThrottleTime = ThrottleTime, acp_Resources = Resources\<rparr>))"

lemma guarded_AlterConfigsResponse: "P MakePanic \<Longrightarrow> guarded P (dec_AlterConfigsResponse version)"
  unfolding dec_AlterConfigsResponse_def by (intro guarded_intros guarded_millis) auto

record AclFilter =
  acf_Version :: int
  acf_ResourceType :: int
  acf_ResourceName :: "string option"
  acf_ResourcePatternTypeFilter :: int
  acf_Principal :: "string option"
  acf_Host :: "string option"
  acf_Operation :: int
  acf_PermissionType :: int

definition enc_AclFilter :: "AclFilter \<Rightarrow> etree list" where
  "enc_AclFilter r =
     concat [[EInt8 (swrap 8 (acf_ResourceType r)), ENullableString (acf_ResourceName r)],
       eopt ((acf_Version r) = 1) [EInt8 (swrap 8 (acf_ResourcePatternTypeFilter r))],
       [ENullableString (acf_Principal r), ENullableString (acf_Host r), EInt8 (swrap 8 (acf_Operation r)), EInt8 (swrap 8 (acf_PermissionType r))]]"

definition dec_AclFilter :: "int \<Rightarrow> AclFilter dec" where
  "dec_AclFilter version =
     bindD getInt8 (\<lambda>ResourceType.
     bindD getNullableString (\<lambda>ResourceName.
     bindD (optD (version = 1) 0 getInt8) (\<lambda>ResourcePatternTypeFilter.
     bindD getNullableString (\<lambda>Principal.
     bindD getNullableString (\<lambda>Host.
     bindD getInt8 (\<lambda>Operation.
     bindD getInt8 (\<lambda>PermissionType.
     returnD \<lparr>acf_Version = version, acf_ResourceType = ResourceType,
       acf_ResourceName = ResourceName, acf_ResourcePatternTypeFilter = ResourcePatternTypeFilter,
       acf_Principal = Principal, acf_Host = Host, acf_Operation = Operation,
       acf_PermissionType = PermissionType\<rparr>)))))))"

definition canon_AclFilter :: "AclFilter \<Rightarrow> bool" where
  "canon_AclFilter r \<longleftrightarrow>
     sint_ok 8 (acf_ResourceType r) \<and>
     (if (acf_Version r) = 1 then sint_ok 8 (acf_ResourcePatternTypeFilter r) else (acf_ResourcePatternTypeFilter r) = 0) \<and>
     sint_ok 8 (acf_Operation r) \<and>
     sint_ok 8 (acf_PermissionType r)"

lemma decodes_AclFilter:
  "canon_AclFilter r \<Longrightarrow> 
    decodes (dec_AclFilter (acf_Version r)) (enc_AclFilter r) r"
  unfolding dec_AclFilter_def enc_AclFilter_def
  by (intro decodes_fields decodes_elements)
     (auto simp: canon_AclFilter_def swrap_id)

lemma wire_AclFilter_nonempty [simp]:
  "wire (enc_AclFilter r) \<noteq> []"
  by (simp add: enc_AclFilter_def)

lemma guarded_AclFilter: "guarded P (dec_AclFilter version)"
  unfolding dec_AclFilter_def by (intro guarded_intros)


record DescribeAclsRequest =
  daq_Version :: int
  daq_AclFilter :: AclFilter

definition enc_DescribeAclsRequest :: "DescribeAclsRequest \<Rightarrow> etree list" where
  "enc_DescribeAclsRequest d = enc_AclFilter ((daq_AclFilter d)\<lparr>acf_Version := daq_Version d\<rparr>)"

definition dec_DescribeAclsRequest :: "int \<Rightarrow> DescribeAclsRequest dec" where
  "dec_DescribeAclsRequest version =
     bindD (dec_AclFilter version) (\<lambda>AclFilter.
     returnD \<lparr>daq_Version = version, daq_AclFilter = AclFilter\<rparr>)"

definition canon_DescribeAclsRequest :: "DescribeAclsRequest \<Rightarrow> bool" where
  "canon_DescribeAclsRequest d \<longleftrightarrow>
     sint_ok 16 (daq_Version d) \<and> acf_Version (daq_AclFilter d) = daq_Version d \<and> canon_AclFilter (daq_AclFilter d)"

lemma AclFilter_same_version: "acf_Version f = v \<Longrightarrow> f\<lparr>acf_Version := v\<rparr> = f"
  by (cases f) auto

lemma decodes_DescribeAclsRequest:
  "canon_DescribeAclsRequest d \<Longrightarrow>
    decodes (dec_DescribeAclsRequest (daq_Version d)) (enc_DescribeAclsRequest d) d"
  unfolding dec_DescribeAclsRequest_def enc_DescribeAclsRequest_def
  using decodes_AclFilter [of "daq_AclFilter d"]
  by (auto simp: canon_DescribeAclsRequest_def AclFilter_same_version intro!: decodes_bind_Nil decodes_return)

lemma guarded_DescribeAclsRequest: "guarded P (dec_DescribeAclsRequest version)"
  unfolding dec_DescribeAclsRequest_def by (intro guarded_intros guarded_AclFilter)

record DeleteAclsRequest =
  dlq_Version :: int
  dlq_Filters :: "AclFilter list"

definition enc_DeleteAclsRequest :: "DeleteAclsRequest \<Rightarrow> etree list" where
  "enc_DeleteAclsRequest d =
     concat [earray (\<lambda>filter. enc_AclFilter (filter\<lparr>acf_Version := dlq_Version d\<rparr>)) (dlq_Filters d)]"

definition dec_DeleteAclsRequest :: "int \<Rightarrow> DeleteAclsRequest dec" where
  "dec_DeleteAclsRequest version =
     bindD (sliceD (dec_AclFilter version)) (\<lambda>Filters.
     returnD \<lparr>dlq_Version = version, dlq_Filters = Filters\<rparr>)"

definition canon_DeleteAclsRequest :: "DeleteAclsRequest \<Rightarrow> bool" where
  "canon_DeleteAclsRequest d \<longleftrightarrow>
     sint_ok 16 (dlq_Version d) \<and> (\<forall>f \<in> set (dlq_Filters d). acf_Version f = dlq_Version d \<and> canon_AclFilter f)"

lemma decodes_DeleteAclsRequest:
  assumes "canon_DeleteAclsRequest d"
  shows "decodes (dec_DeleteAclsRequest (dlq_Version d)) (enc_DeleteAclsRequest d) d"
  unfolding dec_DeleteAclsRequest_def enc_DeleteAclsRequest_def
proof (intro decodes_fields)
  fix f assume "f \<in> set (dlq_Filters d)"
  with assms have "acf_Version f = dlq_Version d" "canon_AclFilter f"
    by (auto simp: canon_DeleteAclsRequest_def)
  then show "decodes (dec_AclFilter (dlq_Version d)) (enc_AclFilter (f\<lparr>acf_Version := dlq_Version d\<rparr>)) f"
    using decodes_AclFilter [of f] by (simp add: AclFilter_same_version)
qed auto

lemma guarded_DeleteAclsRequest: "P MakePanic \<Longrightarrow> guarded P (dec_DeleteAclsRequest version)"
  unfolding dec_DeleteAclsRequest_def by (intro guarded_intros guarded_AclFilter) auto


record Resource =
  rsc_ResourceType :: int
  rsc_ResourceName :: string
  rsc_ResourcePatternType :: int

definition enc_Resource :: "int \<Rightarrow> Resource \<Rightarrow> etree list" where
  "enc_Resource version r =
     concat [[EInt8 (swrap 8 (rsc_ResourceType r)), EString (rsc_ResourceName r)],
       eopt (version = 1)
         [EInt8 (swrap 8 (if rsc_ResourcePatternType r = 0 then 3 else rsc_ResourcePatternType r))]]"

definition dec_Resource :: "int \<Rightarrow> Resource dec" where
  "dec_Resource version =
     bindD getInt8 (\<lambda>resourceType.
     bindD getString (\<lambda>ResourceName.
     bindD (optD (version = 1) 0 getInt8) (\<lambda>pattern.
     returnD \<lparr>rsc_ResourceType = resourceType, rsc_ResourceName = ResourceName,
       rsc_ResourcePatternType = pattern\<rparr>)))"

definition canon_Resource :: "int \<Rightarrow> Resource \<Rightarrow> bool" where
  "canon_Resource version r \<longleftrightarrow>
     sint_ok 8 (rsc_ResourceType r) \<and>
     (if version = 1 then rsc_ResourcePatternType r \<noteq> 0 \<and> sint_ok 8 (rsc_ResourcePatternType r)
      else rsc_ResourcePatternType r = 0)"

lemma decodes_Resource: "canon_Resource version r \<Longrightarrow> decodes (dec_Resource version) (enc_Resource version r) r"
  unfolding dec_Resource_def enc_Resource_def
  by (intro decodes_fields) (auto simp: canon_Resource_def swrap_id)

lemma wire_Resource_nonempty [simp]: "wire (enc_Resource version r) \<noteq> []"
  by (simp add: enc_Resource_def)

lemma guarded_Resource: "guarded P (dec_Resource version)"
  unfolding dec_Resource_def by (intro guarded_intros)

record Acl =
  acl_Principal :: string
  acl_Host :: string
  acl_Operation :: int
  acl_PermissionType :: int

definition enc_Acl :: "Acl \<Rightarrow> etree list" where
  "enc_Acl r =
     concat [[EString (acl_Principal r), EString (acl_Host r), EInt8 (swrap 8 (acl_Operation r)), EInt8 (swrap 8 (acl_PermissionType r))]]"

definition dec_Acl :: "int \<Rightarrow> Acl dec" where
  "dec_Acl version =
     bindD getString (\<lambda>Principal.
     bindD getString (\<lambda>Host.
     bindD getInt8 (\<lambda>Operation.
     bindD getInt8 (\<lambda>PermissionType.
     returnD \<lparr>acl_Principal = Principal, acl_Host = Host, acl_Operation = Operation,
       acl_PermissionType = PermissionType\<rparr>))))"

definition canon_Acl :: "Acl \<Rightarrow> bool" where
  "canon_Acl r \<longleftrightarrow>
     sint_ok 8 (acl_Operation r) \<and>
     sint_ok 8 (acl_PermissionType r)"

lemma decodes_Acl:
  "canon_Acl r \<Longrightarrow> decodes (dec_Acl version) (enc_Acl r) r"
  unfolding dec_Acl_def enc_Acl_def
  by (intro decodes_fields decodes_elements)
     (auto simp: canon_Acl_def swrap_id)

lemma wire_Acl_nonempty [simp]:
  "wire (enc_Acl r) \<noteq> []"
  by (simp add: enc_Acl_def)

lemma guarded_Acl: "guarded P (dec_Acl version)"
  unfolding dec_Acl_def by (intro guarded_intros)

record ResourceAcls =
  rac_Resource :: Resource
  rac_Acls :: "Acl list"

definition enc_ResourceAcls :: "int \<Rightarrow> ResourceAcls \<Rightarrow> etree list" where
  "enc_ResourceAcls version r =
     concat [enc_Resource version (rac_Resource r), earray enc_Acl (rac_Acls r)]"

definition dec_ResourceAcls :: "int \<Rightarrow> ResourceAcls dec" where
  "dec_ResourceAcls version =
     bindD (dec_Resource version) (\<lambda>Resource.
     bindD (sliceD (dec_Acl version)) (\<lambda>Acls.
     returnD \<lparr>rac_Resource = Resource, rac_Acls = Acls\<rparr>))"

definition canon_ResourceAcls :: "int \<Rightarrow> ResourceAcls \<Rightarrow> bool" where
  "canon_ResourceAcls version r \<longleftrightarrow>
     canon_Resource version (rac_Resource r) \<and>
     (\<forall>x \<in> set (rac_Acls r). canon_Acl x)"

lemma decodes_ResourceAcls:
  "canon_ResourceAcls version r \<Longrightarrow> 
    decodes (dec_ResourceAcls version) (enc_ResourceAcls version r) r"
  unfolding dec_ResourceAcls_def enc_ResourceAcls_def
  by (intro decodes_fields decodes_elements decodes_Resource decodes_Resource [THEN decodes_block] decodes_Resource [THEN decodes_opt_block] decodes_Acl decodes_Acl [THEN decodes_block] decodes_Acl [THEN decodes_opt_block])
     (auto simp: canon_ResourceAcls_def)

lemma wire_ResourceAcls_nonempty [simp]:
  "wire (enc_ResourceAcls version r) \<noteq> []"
  by (simp add: enc_ResourceAcls_def)

lemma guarded_ResourceAcls: "P MakePanic \<Longrightarrow> guarded P (dec_ResourceAcls version)"
  unfolding dec_ResourceAcls_def by (intro guarded_intros guarded_Resource guarded_Acl) auto

record AclCreation =
  act_Resource :: Resource
  act_Acl :: Acl

definition enc_AclCreation :: "int \<Rightarrow> AclCreation \<Rightarrow> etree list" where
  "enc_AclCreation version r =
     concat [enc_Resource version (act_Resource r), enc_Acl (act_Acl r)]"

definition dec_AclCreation :: "int \<Rightarrow> AclCreation dec" where
  "dec_AclCreation version =
     bindD (dec_Resource version) (\<lambda>Resource.
     bindD (dec_Acl version) (\<lambda>Acl.
     returnD \<lparr>act_Resource = Resource, act_Acl = Acl\<rparr>))"

definition canon_AclCreation :: "int \<Rightarrow> AclCreation \<Rightarrow> bool" where
  "canon_AclCreation version r \<longleftrightarrow>
     canon_Resource version (act_Resource r) \<and>
     canon_Acl (act_Acl r)"

lemma decodes_AclCreation:
  "canon_AclCreation version r \<Longrightarrow> 
    decodes (dec_AclCreation version) (enc_AclCreation version r) r"
  unfolding dec_AclCreation_def enc_AclCreation_def
  by (intro decodes_fields decodes_elements decodes_Resource decodes_Resource [THEN decodes_block] decodes_Resource [THEN decodes_opt_block] decodes_Acl decodes_Acl [THEN decodes_block] decodes_Acl [THEN decodes_opt_block])
     (auto simp: canon_AclCreation_def)

lemma wire_AclCreation_nonempty [simp]:
  "wire (enc_AclCreation version r) \<noteq> []"
  by (simp add: enc_AclCreation_def)

lemma guarded_AclCreation: "guarded P (dec_AclCreation version)"
  unfolding dec_AclCreation_def by (intro guarded_intros guarded_Resource guarded_Acl)

record CreateAclsRequest =
  caq_Version :: int
  caq_AclCreations :: "AclCreation list"

definition enc_CreateAclsRequest :: "CreateAclsRequest \<Rightarrow> etree list" where
  "enc_CreateAclsRequest r =
     concat [earray (enc_AclCreation (caq_Version r)) (caq_AclCreations r)]"

definition dec_CreateAclsRequest :: "int \<Rightarrow> CreateAclsRequest dec" where
  "dec_CreateAclsRequest version =
     bindD (sliceD (dec_AclCreation version)) (\<lambda>AclCreations.
     returnD \<lparr>caq_Version = version, caq_AclCreations = AclCreations\<rparr>)"

definition canon_CreateAclsRequest :: "CreateAclsRequest \<Rightarrow> bool" where
  "canon_CreateAclsRequest r \<longleftrightarrow>
     (\<forall>x \<in> set (caq_AclCreations r). canon_AclCreation (caq_Version r) x)"

lemma decodes_CreateAclsRequest:
  "canon_CreateAclsRequest r \<Longrightarrow> 
    decodes (dec_CreateAclsRequest (caq_Version r)) (enc_CreateAclsRequest r) r"
  unfolding dec_CreateAclsRequest_def enc_CreateAclsRequest_def
  by (intro decodes_fields decodes_elements decodes_AclCreation decodes_AclCreation [THEN decodes_block] decodes_AclCreation [THEN decodes_opt_block])
     (auto simp: canon_CreateAclsRequest_def)

lemma guarded_CreateAclsRequest: "P MakePanic \<Longrightarrow> guarded P (dec_CreateAclsRequest version)"
  unfolding dec_CreateAclsRequest_def by (intro guarded_intros guarded_AclCreation) auto

record AclCreationResponse =
  acn_Err :: int
  acn_ErrMsg :: "string option"

definition enc_AclCreationResponse :: "AclCreationResponse \<Rightarrow> etree list" where
  "enc_AclCreationResponse r =
     concat [[EInt16 (acn_Err r), ENullableString (acn_ErrMsg r)]]"

definition dec_AclCreationResponse :: "int \<Rightarrow> AclCreationResponse dec" where
  "dec_AclCreationResponse version =
     bindD getInt16 (\<lambda>Err.
     bindD getNullableString (\<lambda>ErrMsg.
     returnD \<lparr>acn_Err = Err, acn_ErrMsg = ErrMsg\<rparr>))"

lemma decodes_AclCreationResponse:
  "decodes (dec_AclCreationResponse version) (enc_AclCreationResponse r) r"
  unfolding dec_AclCreationResponse_def enc_AclCreationResponse_def
  by (intro decodes_fields decodes_elements)
     (auto)

lemma wire_AclCreationResponse_nonempty [simp]:
  "wire (enc_AclCreationResponse r) \<noteq> []"
  by (simp add: enc_AclCreationResponse_def)

lemma guarded_AclCreationResponse: "guarded P (dec_AclCreationResponse version)"
  unfolding dec_AclCreationResponse_def by (intro guarded_intros)

record CreateAclsResponse =
  cap_ThrottleTime :: int
  cap_AclCreationResponses :: "AclCreationResponse list"

definition enc_CreateAclsResponse :: "CreateAclsResponse \<Rightarrow> etree list" where
  "enc_CreateAclsResponse r =
     concat [[EInt32 (millis32 (cap_ThrottleTime r))],
       earray enc_AclCreationResponse (cap_AclCreationResponses r)]"

definition dec_CreateAclsResponse :: "int \<Rightarrow> CreateAclsResponse dec" where
  "dec_CreateAclsResponse version =
     bindD getMillis32 (\<lambda>ThrottleTime.
     bindD (sliceD (dec_AclCreationResponse version)) (\<lambda>AclCreationResponses.
     returnD \<lparr>cap_ThrottleTime = ThrottleTime,
       cap_AclCreationResponses = AclCreationResponses\<rparr>))"

definition canon_CreateAclsResponse :: "CreateAclsResponse \<Rightarrow> bool" where
  "canon_CreateAclsResponse r \<longleftrightarrow>
     is_millis (cap_ThrottleTime r)"

lemma decodes_CreateAclsResponse:
  "canon_CreateAclsResponse r \<Longrightarrow> 
    decodes (dec_CreateAclsResponse version) (enc_CreateAclsResponse r) r"
  unfolding dec_CreateAclsResponse_def enc_CreateAclsResponse_def
  by (intro decodes_fields decodes_elements decodes_millis_fields decodes_millis decodes_AclCreationResponse decodes_AclCreationResponse [THEN decodes_block] decodes_AclCreationResponse [THEN decodes_opt_block])
     (auto simp: canon_CreateAclsResponse_def)

lemma guarded_CreateAclsResponse: "P MakePanic \<Longrightarrow> guarded P (dec_CreateAclsResponse version)"
  unfolding dec_CreateAclsResponse_def by (intro guarded_intros guarded_millis guarded_AclCreationResponse) auto

record MatchingAcl =
  mac_Err :: int
  mac_ErrMsg :: "string option"
  mac_Resource :: Resource
  mac_Acl :: Acl

definition enc_MatchingAcl :: "int \<Rightarrow> MatchingAcl \<Rightarrow> etree list" where
  "enc_MatchingAcl version r =
     concat [[EInt16 (mac_Err r), ENullableString (mac_ErrMsg r)], enc_Resource version (mac_Resource r),
       enc_Acl (mac_Acl r)]"

definition dec_MatchingAcl :: "int \<Rightarrow> MatchingAcl dec" where
  "dec_MatchingAcl version =
     bindD getInt16 (\<lambda>Err.
     bindD getNullableString (\<lambda>ErrMsg.
     bindD (dec_Resource version) (\<lambda>Resource.
     bindD (dec_Acl version) (\<lambda>Acl.
     returnD \<lparr>mac_Err = Err, mac_ErrMsg = ErrMsg, mac_Resource = Resource,
       mac_Acl = Acl\<rparr>))))"

definition canon_MatchingAcl :: "int \<Rightarrow> MatchingAcl \<Rightarrow> bool" where
  "canon_MatchingAcl version r \<longleftrightarrow>
     canon_Resource version (mac_Resource r) \<and>
     canon_Acl (mac_Acl r)"

lemma decodes_MatchingAcl:
  "canon_MatchingAcl version r \<Longrightarrow> 
    decodes (dec_MatchingAcl version) (enc_MatchingAcl version r) r"
  unfolding dec_MatchingAcl_def enc_MatchingAcl_def
  by (intro decodes_fields decodes_elements decodes_Resource decodes_Resource [THEN decodes_block] decodes_Resource [THEN decodes_opt_block] decodes_Acl decodes_Acl [THEN decodes_block] decodes_Acl [THEN decodes_opt_block])
     (auto simp: canon_MatchingAcl_def)

lemma wire_MatchingAcl_nonempty [simp]:
  "wire (enc_MatchingAcl version r) \<noteq> []"
  by (simp add: enc_MatchingAcl_def)

lemma guarded_MatchingAcl: "guarded P (dec_MatchingAcl version)"
  unfolding dec_MatchingAcl_def by (intro guarded_intros guarded_Resource guarded_Acl)

record FilterResponse =
  fir_Err :: int
  fir_ErrMsg :: "string option"
  fir_MatchingAcls :: "MatchingAcl list"

definition enc_FilterResponse :: "int \<Rightarrow> FilterResponse \<Rightarrow> etree list" where
  "enc_FilterResponse version r =
     concat [[EInt16 (fir_Err r), ENullableString (fir_ErrMsg r)],
       earray (enc_MatchingAcl version) (fir_MatchingAcls r)]"

definition dec_FilterResponse :: "int \<Rightarrow> FilterResponse dec" where
  "dec_FilterResponse version =
     bindD getInt16 (\<lambda>Err.
     bindD getNullableString (\<lambda>ErrMsg.
     bindD (sliceD (dec_MatchingAcl version)) (\<lambda>MatchingAcls.
     returnD \<lparr>fir_Err = Err, fir_ErrMsg = ErrMsg, fir_MatchingAcls = MatchingAcls\<rparr>)))"

definition canon_FilterResponse :: "int \<Rightarrow> FilterResponse \<Rightarrow> bool" where
  "canon_FilterResponse version r \<longleftrightarrow>
     (\<forall>x \<in> set (fir_MatchingAcls r). canon_MatchingAcl version x)"

lemma decodes_FilterResponse:
  "canon_FilterResponse version r \<Longrightarrow> 
    decodes (dec_FilterResponse version) (enc_FilterResponse version r) r"
  unfolding dec_FilterResponse_def enc_FilterResponse_def
  by (intro decodes_fields decodes_elements decodes_MatchingAcl decodes_MatchingAcl [THEN decodes_block] decodes_MatchingAcl [THEN decodes_opt_block])
     (auto simp: canon_FilterResponse_def)

lemma wire_FilterResponse_nonempty [simp]:
  "wire (enc_FilterResponse version r) \<noteq> []"
  by (simp add: enc_FilterResponse_def)

lemma guarded_FilterResponse: "P MakePanic \<Longrightarrow> guarded P (dec_FilterResponse version)"
  unfolding dec_FilterResponse_def by (intro guarded_intros guarded_MatchingAcl) auto

record DeleteAclsResponse =
  dlp_Version :: int
  dlp_ThrottleTime :: int
  dlp_FilterResponses :: "FilterResponse list"

definition enc_DeleteAclsResponse :: "DeleteAclsResponse \<Rightarrow> etree list" where
  "enc_DeleteAclsResponse r =
     concat [[EInt32 (millis32 (dlp_ThrottleTime r))],
       earray (enc_FilterResponse (dlp_Version r)) (dlp_FilterResponses r)]"

definition dec_DeleteAclsResponse :: "int \<Rightarrow> DeleteAclsResponse dec" where
  "dec_DeleteAclsResponse version =
     bindD getMillis32 (\<lambda>ThrottleTime.
     bindD (sliceD (dec_FilterResponse version)) (\<lambda>FilterResponses.
     returnD \<lparr>dlp_Version = 0, dlp_ThrottleTime = ThrottleTime,
       dlp_FilterResponses = FilterResponses\<rparr>))"

definition canon_DeleteAclsResponse :: "DeleteAclsResponse \<Rightarrow> bool" where
  "canon_DeleteAclsResponse r \<longleftrightarrow>
     is_millis (dlp_ThrottleTime r) \<and>
     (\<forall>x \<in> set (dlp_FilterResponses r). canon_FilterResponse (dlp_Version r) x) \<and>
     dlp_Version r = 0"

lemma decodes_DeleteAclsResponse:
  "canon_DeleteAclsResponse r \<Longrightarrow> 
    decodes (dec_DeleteAclsResponse (dlp_Version r)) (enc_DeleteAclsResponse r) r"
  unfolding dec_DeleteAclsResponse_def enc_DeleteAclsResponse_def
  by (intro decodes_fields decodes_elements decodes_millis_fields decodes_millis decodes_FilterResponse decodes_FilterResponse [THEN decodes_block] decodes_FilterResponse [THEN decodes_opt_block])
     (auto simp: canon_DeleteAclsResponse_def)

lemma guarded_DeleteAclsResponse: "P MakePanic \<Longrightarrow> guarded P (dec_DeleteAclsResponse version)"
  unfolding dec_DeleteAclsResponse_def by (intro guarded_intros guarded_millis guarded_FilterResponse) auto


text \<open>
  The decoder of the response reads the error message as a plain string and keeps it only when it is not empty,
  and it leaves the field \<open>Version\<close> alone.
\<close>

record DescribeAclsResponse =
  dap_Version :: int
  dap_ThrottleTime :: int
  dap_Err :: int
  dap_ErrMsg :: "string option"
  dap_ResourceAcls :: "ResourceAcls list"

definition enc_DescribeAclsResponse :: "DescribeAclsResponse \<Rightarrow> etree list" where
  "enc_DescribeAclsResponse d =
     concat [[EInt32 (millis32 (dap_ThrottleTime d)), EInt16 (dap_Err d), ENullableString (dap_ErrMsg d)],
       earray (enc_ResourceAcls (dap_Version d)) (dap_ResourceAcls d)]"

definition dec_DescribeAclsResponse :: "int \<Rightarrow> DescribeAclsResponse dec" where
  "dec_DescribeAclsResponse version =
     bindD getMillis32 (\<lambda>ThrottleTime.
     bindD getInt16 (\<lambda>Err.
     bindD getString (\<lambda>errmsg.
     bindD (sliceD (dec_ResourceAcls version)) (\<lambda>ResourceAcls.
     returnD \<lparr>dap_Version = 0, dap_ThrottleTime = ThrottleTime, dap_Err = Err,
       dap_ErrMsg = (if errmsg \<noteq> [] then Some errmsg else None), dap_ResourceAcls = ResourceAcls\<rparr>))))"

definition canon_DescribeAclsResponse :: "DescribeAclsResponse \<Rightarrow> bool" where
  "canon_DescribeAclsResponse d \<longleftrightarrow>
     is_millis (dap_ThrottleTime d) \<and> dap_ErrMsg d \<noteq> Some [] \<and>
     (\<forall>x \<in> set (dap_ResourceAcls d). canon_ResourceAcls (dap_Version d) x)"

lemma decodes_DescribeAclsResponse:
  "canon_DescribeAclsResponse d \<Longrightarrow>
    decodes (dec_DescribeAclsResponse (dap_Version d)) (enc_DescribeAclsResponse d) (d\<lparr>dap_Version := 0\<rparr>)"
  unfolding dec_DescribeAclsResponse_def enc_DescribeAclsResponse_def
  by (intro decodes_fields decodes_millis_fields decodes_null_string [THEN decodes_field] decodes_ResourceAcls)
     (auto simp: canon_DescribeAclsResponse_def split: option.splits)

lemma guarded_DescribeAclsResponse: "P MakePanic \<Longrightarrow> guarded P (dec_DescribeAclsResponse version)"
  unfolding dec_DescribeAclsResponse_def by (intro guarded_intros guarded_millis guarded_ResourceAcls) auto

end
