(* ===== verification/Kafka_Txn_Messages.thy ===== *)
theory Kafka_Txn_Messages
  imports Kafka_Fields
begin

section \<open>Messages of transactions\<close>

text \<open>
  The producer identifier, the partitions and offsets of a transaction and its end: one record, encoder and
  decoder for each message, as in the theory of the group messages.
\<close>

record InitProducerIDRequest =
  ipq_TransactionalID :: "string option"
  ipq_TransactionTimeout :: int

definition enc_InitProducerIDRequest :: "InitProducerIDRequest \<Rightarrow> etree list" where
  "enc_InitProducerIDRequest r =
     concat [[ENullableString (ipq_TransactionalID r), EInt32 (millis32 (ipq_TransactionTimeout r))]]"

definition dec_InitProducerIDRequest :: "int \<Rightarrow> InitProducerIDRequest dec" where
  "dec_InitProducerIDRequest version =
     bindD getNullableString (\<lambda>TransactionalID.
     bindD getMillis32 (\<lambda>TransactionTimeout.
     returnD \<lparr>ipq_TransactionalID = TransactionalID,
       ipq_TransactionTimeout = TransactionTimeout\<rparr>))"

definition canon_InitProducerIDRequest :: "InitProducerIDRequest \<Rightarrow> bool" where
  "canon_InitProducerIDRequest r \<longleftrightarrow>
     is_millis (ipq_TransactionTimeout r)"

lemma decodes_InitProducerIDRequest:
  "canon_InitProducerIDRequest r \<Longrightarrow> 
    decodes (dec_InitProducerIDRequest version) (enc_InitProducerIDRequest r) r"
  unfolding dec_InitProducerIDRequest_def enc_InitProducerIDRequest_def
  by (intro decodes_fields decodes_elements decodes_millis_fields decodes_millis)
     (auto simp: canon_InitProducerIDRequest_def)

lemma guarded_InitProducerIDRequest: "guarded P (dec_InitProducerIDRequest version)"
  unfolding dec_InitProducerIDRequest_def by (intro guarded_intros guarded_millis)

record InitProducerIDResponse =
  ipp_ThrottleTime :: int
  ipp_Err :: int
  ipp_ProducerID :: int
  ipp_ProducerEpoch :: int

definition enc_InitProducerIDResponse :: "InitProducerIDResponse \<Rightarrow> etree list" where
  "enc_InitProducerIDResponse r =
     concat [[EInt32 (millis32 (ipp_ThrottleTime r)), EInt16 (ipp_Err r), EInt64 (ipp_ProducerID r), EInt16 (ipp_ProducerEpoch r)]]"

definition dec_InitProducerIDResponse :: "int \<Rightarrow> InitProducerIDResponse dec" where
  "dec_InitProducerIDResponse version =
     bindD getMillis32 (\<lambda>ThrottleTime.
     bindD getInt16 (\<lambda>Err.
     bindD getInt64 (\<lambda>ProducerID.
     bindD getInt16 (\<lambda>ProducerEpoch.
     returnD \<lparr>ipp_ThrottleTime = ThrottleTime, ipp_Err = Err, ipp_ProducerID = ProducerID,
       ipp_ProducerEpoch = ProducerEpoch\<rparr>))))"

definition canon_InitProducerIDResponse :: "InitProducerIDResponse \<Rightarrow> bool" where
  "canon_InitProducerIDResponse r \<longleftrightarrow>
     is_millis (ipp_ThrottleTime r)"

lemma decodes_InitProducerIDResponse:
  "canon_InitProducerIDResponse r \<Longrightarrow> 
    decodes (dec_InitProducerIDResponse version) (enc_InitProducerIDResponse r) r"
  unfolding dec_InitProducerIDResponse_def enc_InitProducerIDResponse_def
  by (intro decodes_fields decodes_elements decodes_millis_fields decodes_millis)
     (auto simp: canon_InitProducerIDResponse_def)

lemma guarded_InitProducerIDResponse: "guarded P (dec_InitProducerIDResponse version)"
  unfolding dec_InitProducerIDResponse_def by (intro guarded_intros guarded_millis)

record AddPartitionsToTxnRequest =
  apq_TransactionalID :: string
  apq_ProducerID :: int
  apq_ProducerEpoch :: int
  apq_TopicPartitions :: "(string \<times> int list) list"

definition enc_AddPartitionsToTxnRequest :: "AddPartitionsToTxnRequest \<Rightarrow> etree list" where
  "enc_AddPartitionsToTxnRequest r =
     concat [[EString (apq_TransactionalID r), EInt64 (apq_ProducerID r), EInt16 (apq_ProducerEpoch r)],
       earray (epair (\<lambda>x. [EString x]) (\<lambda>x. [EInt32Array x])) (apq_TopicPartitions r)]"

definition dec_AddPartitionsToTxnRequest :: "int \<Rightarrow> AddPartitionsToTxnRequest dec" where
  "dec_AddPartitionsToTxnRequest version =
     bindD getString (\<lambda>TransactionalID.
     bindD getInt64 (\<lambda>ProducerID.
     bindD getInt16 (\<lambda>ProducerEpoch.
     bindD (mapD (pairD getString getInt32Array)) (\<lambda>TopicPartitions.
     returnD \<lparr>apq_TransactionalID = TransactionalID, apq_ProducerID = ProducerID,
       apq_ProducerEpoch = ProducerEpoch, apq_TopicPartitions = TopicPartitions\<rparr>))))"

definition canon_AddPartitionsToTxnRequest :: "AddPartitionsToTxnRequest \<Rightarrow> bool" where
  "canon_AddPartitionsToTxnRequest r \<longleftrightarrow>
     distinct (map fst (apq_TopicPartitions r))"

lemma decodes_AddPartitionsToTxnRequest:
  "canon_AddPartitionsToTxnRequest r \<Longrightarrow> 
    decodes (dec_AddPartitionsToTxnRequest version) (enc_AddPartitionsToTxnRequest r) r"
  unfolding dec_AddPartitionsToTxnRequest_def enc_AddPartitionsToTxnRequest_def
  by (intro decodes_fields decodes_elements)
     (auto simp: canon_AddPartitionsToTxnRequest_def)

lemma guarded_AddPartitionsToTxnRequest: "guarded P (dec_AddPartitionsToTxnRequest version)"
  unfolding dec_AddPartitionsToTxnRequest_def by (intro guarded_intros)

record PartitionError =
  per_Partition :: int
  per_Err :: int

definition enc_PartitionError :: "PartitionError \<Rightarrow> etree list" where
  "enc_PartitionError r =
     concat [[EInt32 (per_Partition r), EInt16 (per_Err r)]]"

definition dec_PartitionError :: "int \<Rightarrow> PartitionError dec" where
  "dec_PartitionError version =
     bindD getInt32 (\<lambda>Partition.
     bindD getInt16 (\<lambda>Err.
     returnD \<lparr>per_Partition = Partition, per_Err = Err\<rparr>))"

lemma decodes_PartitionError:
  "decodes (dec_PartitionError version) (enc_PartitionError r) r"
  unfolding dec_PartitionError_def enc_PartitionError_def
  by (intro decodes_fields decodes_elements)
     (auto)

lemma wire_PartitionError_nonempty [simp]:
  "wire (enc_PartitionError r) \<noteq> []"
  by (simp add: enc_PartitionError_def)

lemma guarded_PartitionError: "guarded P (dec_PartitionError version)"
  unfolding dec_PartitionError_def by (intro guarded_intros)

record AddPartitionsToTxnResponse =
  app_ThrottleTime :: int
  app_Errors :: "(string \<times> PartitionError list) list"

definition enc_AddPartitionsToTxnResponse :: "AddPartitionsToTxnResponse \<Rightarrow> etree list" where
  "enc_AddPartitionsToTxnResponse r =
     concat [[EInt32 (millis32 (app_ThrottleTime r))],
       earray (epair (\<lambda>x. [EString x]) (earray enc_PartitionError)) (app_Errors r)]"

definition dec_AddPartitionsToTxnResponse :: "int \<Rightarrow> AddPartitionsToTxnResponse dec" where
  "dec_AddPartitionsToTxnResponse version =
     bindD getMillis32 (\<lambda>ThrottleTime.
     bindD (mapD (pairD getString (sliceD (dec_PartitionError version)))) (\<lambda>Errors.
     returnD \<lparr>app_ThrottleTime = ThrottleTime, app_Errors = Errors\<rparr>))"

definition canon_AddPartitionsToTxnResponse :: "AddPartitionsToTxnResponse \<Rightarrow> bool" where
  "canon_AddPartitionsToTxnResponse r \<longleftrightarrow>
     is_millis (app_ThrottleTime r) \<and>
     distinct (map fst (app_Errors r))"

lemma decodes_AddPartitionsToTxnResponse:
  "canon_AddPartitionsToTxnResponse r \<Longrightarrow> 
    decodes (dec_AddPartitionsToTxnResponse version) (enc_AddPartitionsToTxnResponse r) r"
  unfolding dec_AddPartitionsToTxnResponse_def enc_AddPartitionsToTxnResponse_def
  by (intro decodes_fields decodes_elements decodes_millis_fields decodes_millis decodes_PartitionError decodes_PartitionError [THEN decodes_block] decodes_PartitionError [THEN decodes_opt_block])
     (auto simp: canon_AddPartitionsToTxnResponse_def)

lemma guarded_AddPartitionsToTxnResponse: "P MakePanic \<Longrightarrow> guarded P (dec_AddPartitionsToTxnResponse version)"
  unfolding dec_AddPartitionsToTxnResponse_def by (intro guarded_intros guarded_millis guarded_PartitionError) auto

record AddOffsetsToTxnRequest =
  aoq_TransactionalID :: string
  aoq_ProducerID :: int
  aoq_ProducerEpoch :: int
  aoq_GroupID :: string

definition enc_AddOffsetsToTxnRequest :: "AddOffsetsToTxnRequest \<Rightarrow> etree list" where
  "enc_AddOffsetsToTxnRequest r =
     concat [[EString (aoq_TransactionalID r), EInt64 (aoq_ProducerID r), EInt16 (aoq_ProducerEpoch r), EString (aoq_GroupID r)]]"

definition dec_AddOffsetsToTxnRequest :: "int \<Rightarrow> AddOffsetsToTxnRequest dec" where
  "dec_AddOffsetsToTxnRequest version =
     bindD getString (\<lambda>TransactionalID.
     bindD getInt64 (\<lambda>ProducerID.
     bindD getInt16 (\<lambda>ProducerEpoch.
     bindD getString (\<lambda>GroupID.
     returnD \<lparr>aoq_TransactionalID = TransactionalID, aoq_ProducerID = ProducerID,
       aoq_ProducerEpoch = ProducerEpoch, aoq_GroupID = GroupID\<rparr>))))"

lemma decodes_AddOffsetsToTxnRequest:
  "decodes (dec_AddOffsetsToTxnRequest version) (enc_AddOffsetsToTxnRequest r) r"
  unfolding dec_AddOffsetsToTxnRequest_def enc_AddOffsetsToTxnRequest_def
  by (intro decodes_fields decodes_elements)
     (auto)

lemma guarded_AddOffsetsToTxnRequest: "guarded P (dec_AddOffsetsToTxnRequest version)"
  unfolding dec_AddOffsetsToTxnRequest_def by (intro guarded_intros)

record AddOffsetsToTxnResponse =
  aop_ThrottleTime :: int
  aop_Err :: int

definition enc_AddOffsetsToTxnResponse :: "AddOffsetsToTxnResponse \<Rightarrow> etree list" where
  "enc_AddOffsetsToTxnResponse r =
     concat [[EInt32 (millis32 (aop_ThrottleTime r)), EInt16 (aop_Err r)]]"

definition dec_AddOffsetsToTxnResponse :: "int \<Rightarrow> AddOffsetsToTxnResponse dec" where
  "dec_AddOffsetsToTxnResponse version =
     bindD getMillis32 (\<lambda>ThrottleTime.
     bindD getInt16 (\<lambda>Err.
     returnD \<lparr>aop_ThrottleTime = ThrottleTime, aop_Err = Err\<rparr>))"

definition canon_AddOffsetsToTxnResponse :: "AddOffsetsToTxnResponse \<Rightarrow> bool" where
  "canon_AddOffsetsToTxnResponse r \<longleftrightarrow>
     is_millis (aop_ThrottleTime r)"

lemma decodes_AddOffsetsToTxnResponse:
  "canon_AddOffsetsToTxnResponse r \<Longrightarrow> 
    decodes (dec_AddOffsetsToTxnResponse version) (enc_AddOffsetsToTxnResponse r) r"
  unfolding dec_AddOffsetsToTxnResponse_def enc_AddOffsetsToTxnResponse_def
  by (intro decodes_fields decodes_elements decodes_millis_fields decodes_millis)
     (auto simp: canon_AddOffsetsToTxnResponse_def)

lemma guarded_AddOffsetsToTxnResponse: "guarded P (dec_AddOffsetsToTxnResponse version)"
  unfolding dec_AddOffsetsToTxnResponse_def by (intro guarded_intros guarded_millis)

record EndTxnRequest =
  etq_TransactionalID :: string
  etq_ProducerID :: int
  etq_ProducerEpoch :: int
  etq_TransactionResult :: bool

definition enc_EndTxnRequest :: "EndTxnRequest \<Rightarrow> etree list" where
  "enc_EndTxnRequest r =
     concat [[EString (etq_TransactionalID r), EInt64 (etq_ProducerID r), EInt16 (etq_ProducerEpoch r), EBool (etq_TransactionResult r)]]"

definition dec_EndTxnRequest :: "int \<Rightarrow> EndTxnRequest dec" where
  "dec_EndTxnRequest version =
     bindD getString (\<lambda>TransactionalID.
     bindD getInt64 (\<lambda>ProducerID.
     bindD getInt16 (\<lambda>ProducerEpoch.
     bindD getBool (\<lambda>TransactionResult.
     returnD \<lparr>etq_TransactionalID = TransactionalID, etq_ProducerID = ProducerID,
       etq_ProducerEpoch = ProducerEpoch, etq_TransactionResult = TransactionResult\<rparr>))))"

lemma decodes_EndTxnRequest:
  "decodes (dec_EndTxnRequest version) (enc_EndTxnRequest r) r"
  unfolding dec_EndTxnRequest_def enc_EndTxnRequest_def
  by (intro decodes_fields decodes_elements)
     (auto)

lemma guarded_EndTxnRequest: "guarded P (dec_EndTxnRequest version)"
  unfolding dec_EndTxnRequest_def by (intro guarded_intros)

record EndTxnResponse =
  etp_ThrottleTime :: int
  etp_Err :: int

definition enc_EndTxnResponse :: "EndTxnResponse \<Rightarrow> etree list" where
  "enc_EndTxnResponse r =
     concat [[EInt32 (millis32 (etp_ThrottleTime r)), EInt16 (etp_Err r)]]"

definition dec_EndTxnResponse :: "int \<Rightarrow> EndTxnResponse dec" where
  "dec_EndTxnResponse version =
     bindD getMillis32 (\<lambda>ThrottleTime.
     bindD getInt16 (\<lambda>Err.
     returnD \<lparr>etp_ThrottleTime = ThrottleTime, etp_Err = Err\<rparr>))"

definition canon_EndTxnResponse :: "EndTxnResponse \<Rightarrow> bool" where
  "canon_EndTxnResponse r \<longleftrightarrow>
     is_millis (etp_ThrottleTime r)"

lemma decodes_EndTxnResponse:
  "canon_EndTxnResponse r \<Longrightarrow> 
    decodes (dec_EndTxnResponse version) (enc_EndTxnResponse r) r"
  unfolding dec_EndTxnResponse_def enc_EndTxnResponse_def
  by (intro decodes_fields decodes_elements decodes_millis_fields decodes_millis)
     (auto simp: canon_EndTxnResponse_def)

lemma guarded_EndTxnResponse: "guarded P (dec_EndTxnResponse version)"
  unfolding dec_EndTxnResponse_def by (intro guarded_intros guarded_millis)

record PartitionOffsetMetadata =
  pom_Partition :: int
  pom_Offset :: int
  pom_Metadata :: "string option"

definition enc_PartitionOffsetMetadata :: "PartitionOffsetMetadata \<Rightarrow> etree list" where
  "enc_PartitionOffsetMetadata r =
     concat [[EInt32 (pom_Partition r), EInt64 (pom_Offset r), ENullableString (pom_Metadata r)]]"

definition dec_PartitionOffsetMetadata :: "int \<Rightarrow> PartitionOffsetMetadata dec" where
  "dec_PartitionOffsetMetadata version =
     bindD getInt32 (\<lambda>Partition.
     bindD getInt64 (\<lambda>Offset.
     bindD getNullableString (\<lambda>Metadata.
     returnD \<lparr>pom_Partition = Partition, pom_Offset = Offset,
       pom_Metadata = Metadata\<rparr>)))"

lemma decodes_PartitionOffsetMetadata:
  "decodes (dec_PartitionOffsetMetadata version) (enc_PartitionOffsetMetadata r) r"
  unfolding dec_PartitionOffsetMetadata_def enc_PartitionOffsetMetadata_def
  by (intro decodes_fields decodes_elements)
     (auto)

lemma wire_PartitionOffsetMetadata_nonempty [simp]:
  "wire (enc_PartitionOffsetMetadata r) \<noteq> []"
  by (simp add: enc_PartitionOffsetMetadata_def)

lemma guarded_PartitionOffsetMetadata: "guarded P (dec_PartitionOffsetMetadata version)"
  unfolding dec_PartitionOffsetMetadata_def by (intro guarded_intros)

record TxnOffsetCommitRequest =
  toq_TransactionalID :: string
  toq_GroupID :: string
  toq_ProducerID :: int
  toq_ProducerEpoch :: int
  toq_Topics :: "(string \<times> PartitionOffsetMetadata list) list"

definition enc_TxnOffsetCommitRequest :: "TxnOffsetCommitRequest \<Rightarrow> etree list" where
  "enc_TxnOffsetCommitRequest r =
     concat [[EString (toq_TransactionalID r), EString (toq_GroupID r), EInt64 (toq_ProducerID r), EInt16 (toq_ProducerEpoch r)],
       earray (epair (\<lambda>x. [EString x]) (earray enc_PartitionOffsetMetadata)) (toq_Topics r)]"

definition dec_TxnOffsetCommitRequest :: "int \<Rightarrow> TxnOffsetCommitRequest dec" where
  "dec_TxnOffsetCommitRequest version =
     bindD getString (\<lambda>TransactionalID.
     bindD getString (\<lambda>GroupID.
     bindD getInt64 (\<lambda>ProducerID.
     bindD getInt16 (\<lambda>ProducerEpoch.
     bindD (mapD (pairD getString (sliceD (dec_PartitionOffsetMetadata version)))) (\<lambda>Topics.
     returnD \<lparr>toq_TransactionalID = TransactionalID, toq_GroupID = GroupID,
       toq_ProducerID = ProducerID, toq_ProducerEpoch = ProducerEpoch, toq_Topics = Topics\<rparr>)))))"

definition canon_TxnOffsetCommitRequest :: "TxnOffsetCommitRequest \<Rightarrow> bool" where
  "canon_TxnOffsetCommitRequest r \<longleftrightarrow>
     distinct (map fst (toq_Topics r))"

lemma decodes_TxnOffsetCommitRequest:
  "canon_TxnOffsetCommitRequest r \<Longrightarrow> 
    decodes (dec_TxnOffsetCommitRequest version) (enc_TxnOffsetCommitRequest r) r"
  unfolding dec_TxnOffsetCommitRequest_def enc_TxnOffsetCommitRequest_def
  by (intro decodes_fields decodes_elements decodes_PartitionOffsetMetadata decodes_PartitionOffsetMetadata [THEN decodes_block] decodes_PartitionOffsetMetadata [THEN decodes_opt_block])
     (auto simp: canon_TxnOffsetCommitRequest_def)

lemma guarded_TxnOffsetCommitRequest: "P MakePanic \<Longrightarrow> guarded P (dec_TxnOffsetCommitRequest version)"
  unfolding dec_TxnOffsetCommitRequest_def by (intro guarded_intros guarded_PartitionOffsetMetadata) auto

record TxnOffsetCommitResponse =
  top_ThrottleTime :: int
  top_Topics :: "(string \<times> PartitionError list) list"

definition enc_TxnOffsetCommitResponse :: "TxnOffsetCommitResponse \<Rightarrow> etree list" where
  "enc_TxnOffsetCommitResponse r =
     concat [[EInt32 (millis32 (top_ThrottleTime r))],
       earray (epair (\<lambda>x. [EString x]) (earray enc_PartitionError)) (top_Topics r)]"

definition dec_TxnOffsetCommitResponse :: "int \<Rightarrow> TxnOffsetCommitResponse dec" where
  "dec_TxnOffsetCommitResponse version =
     bindD getMillis32 (\<lambda>ThrottleTime.
     bindD (mapD (pairD getString (sliceD (dec_PartitionError version)))) (\<lambda>Topics.
     returnD \<lparr>top_ThrottleTime = ThrottleTime, top_Topics = Topics\<rparr>))"

definition canon_TxnOffsetCommitResponse :: "TxnOffsetCommitResponse \<Rightarrow> bool" where
  "canon_TxnOffsetCommitResponse r \<longleftrightarrow>
     is_millis (top_ThrottleTime r) \<and>
     distinct (map fst (top_Topics r))"

lemma decodes_TxnOffsetCommitResponse:
  "canon_TxnOffsetCommitResponse r \<Longrightarrow> 
    decodes (dec_TxnOffsetCommitResponse version) (enc_TxnOffsetCommitResponse r) r"
  unfolding dec_TxnOffsetCommitResponse_def enc_TxnOffsetCommitResponse_def
  by (intro decodes_fields decodes_elements decodes_millis_fields decodes_millis decodes_PartitionError decodes_PartitionError [THEN decodes_block] decodes_PartitionError [THEN decodes_opt_block])
     (auto simp: canon_TxnOffsetCommitResponse_def)

lemma guarded_TxnOffsetCommitResponse: "P MakePanic \<Longrightarrow> guarded P (dec_TxnOffsetCommitResponse version)"
  unfolding dec_TxnOffsetCommitResponse_def by (intro guarded_intros guarded_millis guarded_PartitionError) auto

end
