(* ===== verification/Kafka_Data_Messages.thy ===== *)
theory Kafka_Data_Messages
  imports Kafka_Fields
begin

section \<open>Messages about brokers, metadata and offsets\<close>

text \<open>
  The messages a client needs to find the leader of a partition and the offset to start from, and the request
  that fetches messages. A broker is encoded as the host and the port of its address, so the functions of the
  package \<open>net\<close> that join and split addresses are part of the codec.
\<close>


subsection \<open>Addresses (package net)\<close>

fun last_index :: "'a list \<Rightarrow> 'a \<Rightarrow> nat option" where
  "last_index [] x = None"
| "last_index (y # ys) x =
     (case last_index ys x of Some i \<Rightarrow> Some (Suc i) | None \<Rightarrow> if x = y then Some 0 else None)"

definition JoinHostPort :: "string \<Rightarrow> string \<Rightarrow> string" where
  "JoinHostPort host port =
     (if CHR '':'' \<in> set host then ''['' @ host @ '']:'' @ port else host @ '':'' @ port)"

definition addrErr :: "string \<Rightarrow> string \<Rightarrow> kerror" where
  "addrErr addr why = ErrorString (''address '' @ addr @ '': '' @ why)"

definition split_checked :: "string \<Rightarrow> string \<Rightarrow> nat \<Rightarrow> nat \<Rightarrow> nat \<Rightarrow> kerror + (string \<times> string)" where
  "split_checked hostport host i j k =
     (if CHR ''['' \<in> set (drop j hostport) then Inl (addrErr hostport ''unexpected '[' in address'')
      else if CHR '']'' \<in> set (drop k hostport) then Inl (addrErr hostport ''unexpected ']' in address'')
      else Inr (host, drop (Suc i) hostport))"

definition SplitHostPort :: "string \<Rightarrow> kerror + (string \<times> string)" where
  "SplitHostPort hostport =
     (case last_index hostport (CHR '':'') of
        None \<Rightarrow> Inl (addrErr hostport ''missing port in address'')
      | Some i \<Rightarrow>
          if hd hostport = CHR ''['' then
            (case index_of hostport '']'' of
               None \<Rightarrow> Inl (addrErr hostport ''missing ']' in address'')
             | Some e \<Rightarrow>
                 if Suc e = length hostport then Inl (addrErr hostport ''missing port in address'')
                 else if Suc e = i
                   then split_checked hostport (take (e - 1) (drop 1 hostport)) i 1 (Suc e)
                 else if hostport ! Suc e = CHR '':'' then Inl (addrErr hostport ''too many colons in address'')
                 else Inl (addrErr hostport ''missing port in address''))
          else if CHR '':'' \<in> set (take i hostport) then Inl (addrErr hostport ''too many colons in address'')
          else split_checked hostport (take i hostport) i 0 0)"

lemma last_index_append:
  "x \<notin> set ys \<Longrightarrow> last_index (xs @ x # ys) x = Some (length xs)"
proof -
  assume "x \<notin> set ys"
  then have "last_index ys x = None" by (induction ys) auto
  then show ?thesis by (induction xs) auto
qed

lemma index_of_byte: "c \<notin> set xs \<Longrightarrow> index_of (xs @ c # ys) [c] = Some (length xs)"
  by (induction xs) auto

text \<open>Splitting undoes joining for a host without brackets.\<close>

lemma Split_Join:
  assumes "CHR ''['' \<notin> set host" "CHR '']'' \<notin> set host"
    "CHR '':'' \<notin> set port" "CHR ''['' \<notin> set port" "CHR '']'' \<notin> set port"
  shows "SplitHostPort (JoinHostPort host port) = Inr (host, port)"
proof (cases "CHR '':'' \<in> set host")
  case True
  let ?hp = "CHR ''['' # host @ CHR '']'' # CHR '':'' # port"
  have join: "JoinHostPort host port = ?hp" using True by (simp add: JoinHostPort_def)
  have l: "last_index ?hp (CHR '':'') = Some (Suc (Suc (length host)))"
    using last_index_append [OF assms(3), of "CHR ''['' # host @ [CHR '']'']"] by simp
  have e: "index_of ?hp '']'' = Some (Suc (length host))"
    using assms(2) index_of_byte [of "CHR '']''" "CHR ''['' # host" "CHR '':'' # port"] by simp
  have "split_checked ?hp host (Suc (Suc (length host))) 1 (Suc (Suc (length host))) = Inr (host, port)"
    using assms by (simp add: split_checked_def)
  then show ?thesis
    unfolding join SplitHostPort_def by (simp add: l e del: index_of.simps last_index.simps)
next
  case False
  let ?hp = "host @ CHR '':'' # port"
  have join: "JoinHostPort host port = ?hp" using False by (simp add: JoinHostPort_def)
  have l: "last_index ?hp (CHR '':'') = Some (length host)" using assms(3) by (rule last_index_append)
  have h: "hd ?hp \<noteq> CHR ''[''" using assms(1) by (cases host) auto
  have "split_checked ?hp host (length host) 0 0 = Inr (host, port)"
    using assms by (simp add: split_checked_def)
  then show ?thesis
    unfolding join SplitHostPort_def using False by (simp add: l h del: last_index.simps)
qed

subsection \<open>Brokers, metadata and offsets\<close>

text \<open>A broker as the messages carry it; its connection is not part of it.\<close>

record Broker =
  brk_rack :: "string option"
  brk_id :: int
  brk_addr :: string

definition enc_Broker :: "int \<Rightarrow> Broker \<Rightarrow> etree list" where
  "enc_Broker version b =
     (case SplitHostPort (brk_addr b) of
        Inl e \<Rightarrow> [EFail e]
      | Inr (host, portstr) \<Rightarrow>
          (case ParseInt portstr of
             (_, Some e) \<Rightarrow> [EFail (ErrNum e)]
           | (port, None) \<Rightarrow>
               concat [[EInt32 (brk_id b), EString host, EInt32 (swrap 32 port)],
                 eopt (1 \<le> version) [ENullableString (brk_rack b)]]))"

definition dec_Broker :: "int \<Rightarrow> Broker dec" where
  "dec_Broker version =
     bindD getInt32 (\<lambda>id.
     bindD getString (\<lambda>host.
     bindD getInt32 (\<lambda>port.
     bindD (optD (1 \<le> version) None getNullableString) (\<lambda>rack.
     let addr = JoinHostPort host (Itoa port) in
     (case SplitHostPort addr of
        Inl e \<Rightarrow> failD e
      | Inr _ \<Rightarrow> returnD \<lparr>brk_rack = rack, brk_id = id, brk_addr = addr\<rparr>)))))"

text \<open>The address is a host and a port number written the way \<open>JoinHostPort\<close> and \<open>Itoa\<close> write them.\<close>

definition canon_addr :: "string \<Rightarrow> bool" where
  "canon_addr a \<longleftrightarrow>
     (case SplitHostPort a of
        Inl e \<Rightarrow> False
      | Inr (host, portstr) \<Rightarrow>
          (case ParseInt portstr of
             (_, Some e) \<Rightarrow> False
           | (port, None) \<Rightarrow> sint_ok 32 port \<and> a = JoinHostPort host (Itoa port)))"

definition canon_Broker :: "int \<Rightarrow> Broker \<Rightarrow> bool" where
  "canon_Broker version b \<longleftrightarrow> canon_addr (brk_addr b) \<and> (1 \<le> version \<or> brk_rack b = None)"

lemma Itoa_chars: "c \<in> set (Itoa n) \<Longrightarrow> is_digit c \<or> c = CHR ''-''"
  using is_digit_digits_of [of "nat n"] is_digit_digits_of [of "nat (- n)"]
  by (auto simp: Itoa_def list_all_iff split: if_splits)

lemma Itoa_plain: "CHR '':'' \<notin> set (Itoa n)" "CHR ''['' \<notin> set (Itoa n)" "CHR '']'' \<notin> set (Itoa n)"
  by (auto dest!: Itoa_chars simp: is_digit_def)

lemma canon_addr_Join:
  assumes "CHR ''['' \<notin> set host" "CHR '']'' \<notin> set host" "sint_ok 32 port"
  shows "canon_addr (JoinHostPort host (Itoa port))"
proof -
  have "SplitHostPort (JoinHostPort host (Itoa port)) = Inr (host, Itoa port)"
    using assms by (intro Split_Join Itoa_plain)
  moreover have "ParseInt (Itoa port) = (port, None)"
    using assms(3) by (intro ParseInt_Itoa) (auto simp: int64_ok_def sint_ok_def)
  ultimately show ?thesis using assms(3) by (simp add: canon_addr_def)
qed

lemma decodes_Broker: "canon_Broker version b \<Longrightarrow> decodes (dec_Broker version) (enc_Broker version b) b"
proof -
  assume canon: "canon_Broker version b"
  then obtain host portstr port where s: "SplitHostPort (brk_addr b) = Inr (host, portstr)"
    "ParseInt portstr = (port, None)" "sint_ok 32 port" "brk_addr b = JoinHostPort host (Itoa port)"
    by (auto simp: canon_Broker_def canon_addr_def split: sum.splits option.splits)
  let ?ts = "concat [[EInt32 (brk_id b), EString host, EInt32 port], eopt (1 \<le> version) [ENullableString (brk_rack b)]]"
  have e: "enc_Broker version b = ?ts"
    using s(1-3) by (simp add: enc_Broker_def swrap_id)
  show ?thesis
    unfolding dec_Broker_def e
    by (intro decodes_fields) (use canon in \<open>auto simp: Let_def s(1) canon_Broker_def s(4) [symmetric] intro!: decodes_return\<close>)
qed

lemma wire_Broker_nonempty [simp]: "canon_Broker version b \<Longrightarrow> wire (enc_Broker version b) \<noteq> []"
  by (auto simp: enc_Broker_def canon_Broker_def canon_addr_def split: sum.splits option.splits prod.splits)

lemma guarded_Broker: "guarded P (dec_Broker version)"
  unfolding dec_Broker_def Let_def by (intro guarded_intros) (auto intro: guarded_return split: sum.splits)


text \<open>\<open>NoNode\<close> stands for a coordinator that is not known.\<close>

definition NoNode :: Broker where
  "NoNode = \<lparr>brk_rack = None, brk_id = -1, brk_addr = '':-1''\<rparr>"

record FindCoordinatorResponse =
  fcp_Version :: int
  fcp_ThrottleTime :: int
  fcp_Err :: int
  fcp_ErrMsg :: "string option"
  fcp_Coordinator :: "Broker option"

definition enc_FindCoordinatorResponse :: "FindCoordinatorResponse \<Rightarrow> etree list" where
  "enc_FindCoordinatorResponse f =
     concat [eopt (1 \<le> fcp_Version f) [EInt32 (millis32 (fcp_ThrottleTime f))], [EInt16 (fcp_Err f)],
       eopt (1 \<le> fcp_Version f) [ENullableString (fcp_ErrMsg f)],
       enc_Broker 0 (case fcp_Coordinator f of None \<Rightarrow> NoNode | Some b \<Rightarrow> b)]"

definition dec_FindCoordinatorResponse :: "int \<Rightarrow> FindCoordinatorResponse dec" where
  "dec_FindCoordinatorResponse version =
     bindD (optD (1 \<le> version) 0 getMillis32) (\<lambda>ThrottleTime.
     bindD getInt16 (\<lambda>Err.
     bindD (optD (1 \<le> version) None getNullableString) (\<lambda>ErrMsg.
     bindD (dec_Broker 0) (\<lambda>coordinator.
     returnD \<lparr>fcp_Version = (if 1 \<le> version then version else 0), fcp_ThrottleTime = ThrottleTime,
       fcp_Err = Err, fcp_ErrMsg = ErrMsg,
       fcp_Coordinator = (if brk_addr coordinator = '':0'' then None else Some coordinator)\<rparr>))))"

definition canon_FindCoordinatorResponse :: "FindCoordinatorResponse \<Rightarrow> bool" where
  "canon_FindCoordinatorResponse f \<longleftrightarrow>
     0 \<le> fcp_Version f \<and>
     (if 1 \<le> fcp_Version f then is_millis (fcp_ThrottleTime f) else fcp_ThrottleTime f = 0 \<and> fcp_ErrMsg f = None) \<and>
     (case fcp_Coordinator f of None \<Rightarrow> True | Some b \<Rightarrow> canon_Broker 0 b \<and> brk_addr b \<noteq> '':0'')"

text \<open>A missing coordinator is encoded as \<open>NoNode\<close>, and decoded as a coordinator with the address \<open>:-1\<close>.\<close>

definition sent_FindCoordinatorResponse :: "FindCoordinatorResponse \<Rightarrow> FindCoordinatorResponse" where
  "sent_FindCoordinatorResponse f =
     f\<lparr>fcp_Coordinator := Some (case fcp_Coordinator f of None \<Rightarrow> NoNode | Some b \<Rightarrow> b)\<rparr>"

lemma canon_NoNode: "canon_Broker 0 NoNode"
proof -
  have "canon_addr (JoinHostPort [] (Itoa (-1)))" by (rule canon_addr_Join) (simp_all add: sint_ok_def)
  moreover have "JoinHostPort [] (Itoa (-1)) = '':-1''"
    by (simp add: JoinHostPort_def Itoa_def digits_of.simps byte_def) code_simp
  ultimately show ?thesis by (simp add: canon_Broker_def NoNode_def)
qed

lemma decodes_FindCoordinatorResponse:
  assumes "canon_FindCoordinatorResponse f"
  shows "decodes (dec_FindCoordinatorResponse (fcp_Version f)) (enc_FindCoordinatorResponse f) (sent_FindCoordinatorResponse f)"
proof -
  let ?b = "case fcp_Coordinator f of None \<Rightarrow> NoNode | Some b \<Rightarrow> b"
  have b: "canon_Broker 0 ?b" "brk_addr ?b \<noteq> '':0''"
    using assms canon_NoNode
    by (auto simp: canon_FindCoordinatorResponse_def NoNode_def split: option.splits)
  show ?thesis
    unfolding dec_FindCoordinatorResponse_def enc_FindCoordinatorResponse_def
    by (intro decodes_fields decodes_millis_fields decodes_Broker [THEN decodes_block] b(1))
       (use assms b(2) in \<open>auto simp: canon_FindCoordinatorResponse_def sent_FindCoordinatorResponse_def split: if_splits\<close>)
qed

lemma guarded_FindCoordinatorResponse: "guarded P (dec_FindCoordinatorResponse version)"
  unfolding dec_FindCoordinatorResponse_def by (intro guarded_intros guarded_millis guarded_Broker)

record ConsumerMetadataResponse =
  cmp_Err :: int
  cmp_Coordinator :: "Broker option"
  cmp_CoordinatorID :: int
  cmp_CoordinatorHost :: string
  cmp_CoordinatorPort :: int

definition ParseInt32 :: "string \<Rightarrow> int \<times> num_error option" where
  "ParseInt32 s =
     (case ParseInt s of
        (n, None) \<Rightarrow> if n < - (2 ^ 31) then (- (2 ^ 31), Some ErrRange)
          else if 2 ^ 31 \<le> n then (2 ^ 31 - 1, Some ErrRange) else (n, None)
      | (n, Some e) \<Rightarrow> (n, Some e))"

definition dec_ConsumerMetadataResponse :: "int \<Rightarrow> ConsumerMetadataResponse dec" where
  "dec_ConsumerMetadataResponse version =
     bindD (dec_FindCoordinatorResponse version) (\<lambda>tmp.
     (case fcp_Coordinator tmp of
        None \<Rightarrow> returnD \<lparr>cmp_Err = fcp_Err tmp, cmp_Coordinator = None, cmp_CoordinatorID = 0,
          cmp_CoordinatorHost = [], cmp_CoordinatorPort = 0\<rparr>
      | Some c \<Rightarrow>
          (case SplitHostPort (brk_addr c) of
             Inl e \<Rightarrow> failD e
           | Inr (host, portstr) \<Rightarrow>
               (case ParseInt32 portstr of
                  (_, Some e) \<Rightarrow> failD (ErrNum e)
                | (port, None) \<Rightarrow>
                    returnD \<lparr>cmp_Err = fcp_Err tmp, cmp_Coordinator = Some c, cmp_CoordinatorID = brk_id c,
                      cmp_CoordinatorHost = host, cmp_CoordinatorPort = swrap 32 port\<rparr>))))"

definition enc_ConsumerMetadataResponse :: "ConsumerMetadataResponse \<Rightarrow> etree list" where
  "enc_ConsumerMetadataResponse r =
     (let c = (case cmp_Coordinator r of
         Some c \<Rightarrow> c
       | None \<Rightarrow> \<lparr>brk_rack = None, brk_id = cmp_CoordinatorID r,
           brk_addr = JoinHostPort (cmp_CoordinatorHost r) (Itoa (cmp_CoordinatorPort r))\<rparr>)
      in enc_FindCoordinatorResponse \<lparr>fcp_Version = 0, fcp_ThrottleTime = 0, fcp_Err = cmp_Err r,
           fcp_ErrMsg = None, fcp_Coordinator = Some c\<rparr>)"

text \<open>
  A response is usually filled with the identifier, host and port of the coordinator. The decoded response has
  the same and the broker they make.
\<close>

definition sent_ConsumerMetadataResponse :: "ConsumerMetadataResponse \<Rightarrow> ConsumerMetadataResponse" where
  "sent_ConsumerMetadataResponse r =
     r\<lparr>cmp_Coordinator := Some \<lparr>brk_rack = None, brk_id = cmp_CoordinatorID r,
       brk_addr = JoinHostPort (cmp_CoordinatorHost r) (Itoa (cmp_CoordinatorPort r))\<rparr>\<rparr>"

definition canon_ConsumerMetadataResponse :: "ConsumerMetadataResponse \<Rightarrow> bool" where
  "canon_ConsumerMetadataResponse r \<longleftrightarrow>
     cmp_Coordinator r = None \<and> sint_ok 32 (cmp_CoordinatorPort r) \<and>
     CHR ''['' \<notin> set (cmp_CoordinatorHost r) \<and> CHR '']'' \<notin> set (cmp_CoordinatorHost r) \<and>
     JoinHostPort (cmp_CoordinatorHost r) (Itoa (cmp_CoordinatorPort r)) \<noteq> '':0''"

lemma ParseInt32_Itoa: "sint_ok 32 n \<Longrightarrow> ParseInt32 (Itoa n) = (n, None)"
  using ParseInt_Itoa [of n] by (simp add: ParseInt32_def int64_ok_def sint_ok_def)

lemma decodes_ConsumerMetadataResponse:
  assumes canon: "canon_ConsumerMetadataResponse r"
  shows "decodes (dec_ConsumerMetadataResponse 0) (enc_ConsumerMetadataResponse r) (sent_ConsumerMetadataResponse r)"
proof -
  let ?a = "JoinHostPort (cmp_CoordinatorHost r) (Itoa (cmp_CoordinatorPort r))"
  let ?b = "\<lparr>brk_rack = None, brk_id = cmp_CoordinatorID r, brk_addr = ?a\<rparr>"
  let ?f = "\<lparr>fcp_Version = 0, fcp_ThrottleTime = 0, fcp_Err = cmp_Err r, fcp_ErrMsg = None, fcp_Coordinator = Some ?b\<rparr>"
  have split: "SplitHostPort ?a = Inr (cmp_CoordinatorHost r, Itoa (cmp_CoordinatorPort r))"
    using canon by (intro Split_Join Itoa_plain) (simp_all add: canon_ConsumerMetadataResponse_def)
  have "canon_FindCoordinatorResponse ?f"
    using canon canon_addr_Join by (simp add: canon_ConsumerMetadataResponse_def canon_FindCoordinatorResponse_def canon_Broker_def)
  from decodes_FindCoordinatorResponse [OF this]
  have f: "decodes (dec_FindCoordinatorResponse 0) (enc_FindCoordinatorResponse ?f) ?f"
    by (simp add: sent_FindCoordinatorResponse_def)
  have enc: "enc_ConsumerMetadataResponse r = enc_FindCoordinatorResponse ?f"
    using canon by (simp add: enc_ConsumerMetadataResponse_def canon_ConsumerMetadataResponse_def)
  show ?thesis
    unfolding enc dec_ConsumerMetadataResponse_def
    by (rule decodes_bind_Nil [OF f])
       (use canon in \<open>auto simp: split ParseInt32_Itoa swrap_id canon_ConsumerMetadataResponse_def
          sent_ConsumerMetadataResponse_def intro!: decodes_return\<close>)
qed

lemma guarded_ConsumerMetadataResponse: "guarded P (dec_ConsumerMetadataResponse version)"
  unfolding dec_ConsumerMetadataResponse_def
  by (intro guarded_bind guarded_FindCoordinatorResponse)
     (auto intro: guarded_return split: option.splits sum.splits prod.splits)

record PartitionMetadata =
  pmd_Err :: int
  pmd_ID :: int
  pmd_Leader :: int
  pmd_Replicas :: "int list"
  pmd_Isr :: "int list"
  pmd_OfflineReplicas :: "int list"

definition enc_PartitionMetadata :: "int \<Rightarrow> PartitionMetadata \<Rightarrow> etree list" where
  "enc_PartitionMetadata version r =
     concat [[EInt16 (pmd_Err r), EInt32 (pmd_ID r), EInt32 (pmd_Leader r), EInt32Array (pmd_Replicas r), EInt32Array (pmd_Isr r)],
       eopt (5 \<le> version) [EInt32Array (pmd_OfflineReplicas r)]]"

definition dec_PartitionMetadata :: "int \<Rightarrow> PartitionMetadata dec" where
  "dec_PartitionMetadata version =
     bindD getInt16 (\<lambda>Err.
     bindD getInt32 (\<lambda>ID.
     bindD getInt32 (\<lambda>Leader.
     bindD getInt32Array (\<lambda>Replicas.
     bindD getInt32Array (\<lambda>Isr.
     bindD (optD (5 \<le> version) [] getInt32Array) (\<lambda>OfflineReplicas.
     returnD \<lparr>pmd_Err = Err, pmd_ID = ID, pmd_Leader = Leader, pmd_Replicas = Replicas,
       pmd_Isr = Isr, pmd_OfflineReplicas = OfflineReplicas\<rparr>))))))"

definition canon_PartitionMetadata :: "int \<Rightarrow> PartitionMetadata \<Rightarrow> bool" where
  "canon_PartitionMetadata version r \<longleftrightarrow>
     (5 \<le> version \<or> (pmd_OfflineReplicas r) = [])"

lemma decodes_PartitionMetadata:
  "canon_PartitionMetadata version r \<Longrightarrow> 
    decodes (dec_PartitionMetadata version) (enc_PartitionMetadata version r) r"
  unfolding dec_PartitionMetadata_def enc_PartitionMetadata_def
  by (intro decodes_fields decodes_elements)
     (auto simp: canon_PartitionMetadata_def)

lemma wire_PartitionMetadata_nonempty [simp]:
  "wire (enc_PartitionMetadata version r) \<noteq> []"
  by (simp add: enc_PartitionMetadata_def)

lemma guarded_PartitionMetadata: "guarded P (dec_PartitionMetadata version)"
  unfolding dec_PartitionMetadata_def by (intro guarded_intros)

record TopicMetadata =
  tmd_Err :: int
  tmd_Name :: string
  tmd_IsInternal :: bool
  tmd_Partitions :: "PartitionMetadata list"

definition enc_TopicMetadata :: "int \<Rightarrow> TopicMetadata \<Rightarrow> etree list" where
  "enc_TopicMetadata version r =
     concat [[EInt16 (tmd_Err r), EString (tmd_Name r)],
       eopt (1 \<le> version) [EBool (tmd_IsInternal r)],
       earray (enc_PartitionMetadata version) (tmd_Partitions r)]"

definition dec_TopicMetadata :: "int \<Rightarrow> TopicMetadata dec" where
  "dec_TopicMetadata version =
     bindD getInt16 (\<lambda>Err.
     bindD getString (\<lambda>Name.
     bindD (optD (1 \<le> version) False getBool) (\<lambda>IsInternal.
     bindD (sliceD (dec_PartitionMetadata version)) (\<lambda>Partitions.
     returnD \<lparr>tmd_Err = Err, tmd_Name = Name, tmd_IsInternal = IsInternal,
       tmd_Partitions = Partitions\<rparr>))))"

definition canon_TopicMetadata :: "int \<Rightarrow> TopicMetadata \<Rightarrow> bool" where
  "canon_TopicMetadata version r \<longleftrightarrow>
     (1 \<le> version \<or> (tmd_IsInternal r) = False) \<and>
     (\<forall>x \<in> set (tmd_Partitions r). canon_PartitionMetadata version x)"

lemma decodes_TopicMetadata:
  "canon_TopicMetadata version r \<Longrightarrow> 
    decodes (dec_TopicMetadata version) (enc_TopicMetadata version r) r"
  unfolding dec_TopicMetadata_def enc_TopicMetadata_def
  by (intro decodes_fields decodes_elements decodes_PartitionMetadata decodes_PartitionMetadata [THEN decodes_block] decodes_PartitionMetadata [THEN decodes_opt_block])
     (auto simp: canon_TopicMetadata_def)

lemma wire_TopicMetadata_nonempty [simp]:
  "wire (enc_TopicMetadata version r) \<noteq> []"
  by (simp add: enc_TopicMetadata_def)

lemma guarded_TopicMetadata: "P MakePanic \<Longrightarrow> guarded P (dec_TopicMetadata version)"
  unfolding dec_TopicMetadata_def by (intro guarded_intros guarded_PartitionMetadata) auto

record MetadataResponse =
  mdp_Version :: int
  mdp_ThrottleTimeMs :: int
  mdp_Brokers :: "Broker list"
  mdp_ClusterID :: "string option"
  mdp_ControllerID :: int
  mdp_Topics :: "TopicMetadata list"

definition enc_MetadataResponse :: "MetadataResponse \<Rightarrow> etree list" where
  "enc_MetadataResponse r =
     concat [eopt (3 \<le> (mdp_Version r)) [EInt32 (mdp_ThrottleTimeMs r)],
       earray (enc_Broker (mdp_Version r)) (mdp_Brokers r),
       eopt (2 \<le> (mdp_Version r)) [ENullableString (mdp_ClusterID r)],
       eopt (1 \<le> (mdp_Version r)) [EInt32 (mdp_ControllerID r)],
       earray (enc_TopicMetadata (mdp_Version r)) (mdp_Topics r)]"

definition dec_MetadataResponse :: "int \<Rightarrow> MetadataResponse dec" where
  "dec_MetadataResponse version =
     bindD (optD (3 \<le> version) 0 getInt32) (\<lambda>ThrottleTimeMs.
     bindD (sliceD (dec_Broker version)) (\<lambda>Brokers.
     bindD (optD (2 \<le> version) None getNullableString) (\<lambda>ClusterID.
     bindD (optD (1 \<le> version) (-1) getInt32) (\<lambda>ControllerID.
     bindD (sliceD (dec_TopicMetadata version)) (\<lambda>Topics.
     returnD \<lparr>mdp_Version = version, mdp_ThrottleTimeMs = ThrottleTimeMs,
       mdp_Brokers = Brokers, mdp_ClusterID = ClusterID, mdp_ControllerID = ControllerID,
       mdp_Topics = Topics\<rparr>)))))"

definition canon_MetadataResponse :: "MetadataResponse \<Rightarrow> bool" where
  "canon_MetadataResponse r \<longleftrightarrow>
     (3 \<le> (mdp_Version r) \<or> (mdp_ThrottleTimeMs r) = 0) \<and>
     (\<forall>x \<in> set (mdp_Brokers r). canon_Broker (mdp_Version r) x) \<and>
     (2 \<le> (mdp_Version r) \<or> (mdp_ClusterID r) = None) \<and>
     (1 \<le> (mdp_Version r) \<or> (mdp_ControllerID r) = (-1)) \<and>
     (\<forall>x \<in> set (mdp_Topics r). canon_TopicMetadata (mdp_Version r) x)"

lemma decodes_MetadataResponse:
  "canon_MetadataResponse r \<Longrightarrow> 
    decodes (dec_MetadataResponse (mdp_Version r)) (enc_MetadataResponse r) r"
  unfolding dec_MetadataResponse_def enc_MetadataResponse_def
  by (intro decodes_fields decodes_elements decodes_Broker decodes_Broker [THEN decodes_block] decodes_Broker [THEN decodes_opt_block] decodes_TopicMetadata decodes_TopicMetadata [THEN decodes_block] decodes_TopicMetadata [THEN decodes_opt_block])
     (auto simp: canon_MetadataResponse_def)

lemma guarded_MetadataResponse: "P MakePanic \<Longrightarrow> guarded P (dec_MetadataResponse version)"
  unfolding dec_MetadataResponse_def by (intro guarded_intros guarded_Broker guarded_TopicMetadata) auto


definition AddBroker :: "string \<Rightarrow> int \<Rightarrow> MetadataResponse \<Rightarrow> MetadataResponse" where
  "AddBroker addr brokerID r =
     r\<lparr>mdp_Brokers := mdp_Brokers r @ [\<lparr>brk_rack = None, brk_id = brokerID, brk_addr = addr\<rparr>]\<rparr>"

text \<open>
  \<open>AddTopic\<close> and \<open>AddTopicPartition\<close> update the first entry with the name or the identifier, or append one.
\<close>

fun upsert :: "('a \<Rightarrow> bool) \<Rightarrow> 'a \<Rightarrow> ('a \<Rightarrow> 'a) \<Rightarrow> 'a list \<Rightarrow> 'a list" where
  "upsert match new f [] = [f new]"
| "upsert match new f (x # xs) = (if match x then f x # xs else x # upsert match new f xs)"

definition with_topic :: "string \<Rightarrow> (TopicMetadata \<Rightarrow> TopicMetadata) \<Rightarrow> MetadataResponse \<Rightarrow> MetadataResponse" where
  "with_topic topic f r =
     r\<lparr>mdp_Topics := upsert (\<lambda>tm. tmd_Name tm = topic)
       \<lparr>tmd_Err = 0, tmd_Name = topic, tmd_IsInternal = False, tmd_Partitions = []\<rparr> f (mdp_Topics r)\<rparr>"

definition AddTopic :: "string \<Rightarrow> int \<Rightarrow> MetadataResponse \<Rightarrow> MetadataResponse" where
  "AddTopic topic err = with_topic topic (\<lambda>tm. tm\<lparr>tmd_Err := err\<rparr>)"

definition AddTopicPartition ::
  "string \<Rightarrow> int \<Rightarrow> int \<Rightarrow> int list \<Rightarrow> int list \<Rightarrow> int list \<Rightarrow> int \<Rightarrow> MetadataResponse \<Rightarrow> MetadataResponse" where
  "AddTopicPartition topic part brokerID replicas isr offline err =
     with_topic topic (\<lambda>tm. tm\<lparr>tmd_Err := 0,
       tmd_Partitions := upsert (\<lambda>pm. pmd_ID pm = part)
         \<lparr>pmd_Err = 0, pmd_ID = part, pmd_Leader = 0, pmd_Replicas = [], pmd_Isr = [], pmd_OfflineReplicas = []\<rparr>
         (\<lambda>pm. pm\<lparr>pmd_Leader := brokerID, pmd_Replicas := replicas, pmd_Isr := isr,
            pmd_OfflineReplicas := offline, pmd_Err := err\<rparr>) (tmd_Partitions tm)\<rparr>)"

text \<open>Topics stay unique by name and partitions by identifier.\<close>

lemma upsert_keys:
  assumes "key new = k" "\<And>x. match x \<longleftrightarrow> key x = k" "\<And>x. key (f x) = key x"
  shows "map key (upsert match new f xs) = map key xs @ (if k \<in> set (map key xs) then [] else [k])"
  using assms by (induction xs) auto

lemma with_topic_topics:
  assumes "\<And>x. tmd_Name (f x) = tmd_Name x"
  shows "map tmd_Name (mdp_Topics (with_topic t f r)) =
    map tmd_Name (mdp_Topics r) @ (if t \<in> set (map tmd_Name (mdp_Topics r)) then [] else [t])"
  using upsert_keys [of tmd_Name _ t "\<lambda>tm. tmd_Name tm = t" f "mdp_Topics r"] assms by (simp add: with_topic_def)

lemma AddTopicPartition_topics:
  "map tmd_Name (mdp_Topics (AddTopicPartition t p b rs isr off e r)) =
   map tmd_Name (mdp_Topics r) @ (if t \<in> set (map tmd_Name (mdp_Topics r)) then [] else [t])"
  by (simp add: AddTopicPartition_def with_topic_topics)


record MetadataRequest =
  mdq_Version :: int
  mdq_Topics :: "string list"
  mdq_AllowAutoTopicCreation :: bool

definition enc_MetadataRequest :: "MetadataRequest \<Rightarrow> etree list" where
  "enc_MetadataRequest r =
     (if mdq_Version r < 0 \<or> 5 < mdq_Version r
      then [EFail (PacketEncodingError ''invalid or unsupported MetadataRequest version field'')]
      else concat [
        (if mdq_Version r = 0 \<or> mdq_Topics r \<noteq> [] then earray (\<lambda>x. [EString x]) (mdq_Topics r) else [EInt32 (-1)]),
        eopt (3 < mdq_Version r) [EBool (mdq_AllowAutoTopicCreation r)]])"

definition dec_MetadataRequest :: "int \<Rightarrow> MetadataRequest dec" where
  "dec_MetadataRequest version =
     bindD getInt32 (\<lambda>size.
     bindD (if 0 < size then bindD (makeD 16 size) (\<lambda>_. loopD (nat size) getString) else returnD []) (\<lambda>Topics.
     bindD (optD (3 < version) False getBool) (\<lambda>autoCreation.
     returnD \<lparr>mdq_Version = version, mdq_Topics = Topics, mdq_AllowAutoTopicCreation = autoCreation\<rparr>)))"

definition canon_MetadataRequest :: "MetadataRequest \<Rightarrow> bool" where
  "canon_MetadataRequest r \<longleftrightarrow> 3 < mdq_Version r \<or> mdq_AllowAutoTopicCreation r = False"

lemma decodes_topics:
  fixes xs :: "string list"
  defines "m n \<equiv> if 0 < n then bindD (makeD 16 n) (\<lambda>_. loopD (nat n) getString) else returnD []"
  shows "decodes (bindD getInt32 m) (earray (\<lambda>x. [EString x]) xs) xs"
    and "xs = [] \<Longrightarrow> decodes (bindD getInt32 m) [EInt32 (-1)] xs"
proof -
  have loop: "decodes (loopD n getString) (concat (map (\<lambda>s. [EString s]) xs)) xs" if "n = length xs" for n
    using that decodes_loop [of xs getString "\<lambda>s. [EString s]" "\<lambda>x. x"]
    by (simp add: decodes_leaves del: concat_map_singleton)
  show "decodes (bindD getInt32 m) (earray (\<lambda>x. [EString x]) xs) xs"
  proof (cases "int (length xs) \<le> 131070")
    case True
    then show ?thesis unfolding earray_def m_def
      by (intro decodes_leaf_bind [OF decodes_count_int32])
         (auto intro!: decodes_make loop decodes_return simp del: concat_map_singleton)
  qed (simp add: decodes_def earray_def)
  show "xs = [] \<Longrightarrow> decodes (bindD getInt32 m) [EInt32 (-1)] xs"
    unfolding m_def by (intro decodes_bind_Nil [OF decodes_leaves(3)]) (simp add: decodes_return)
qed

lemma decodes_MetadataRequest:
  assumes canon: "canon_MetadataRequest r"
  shows "decodes (dec_MetadataRequest (mdq_Version r)) (enc_MetadataRequest r) r"
proof -
  let ?m = "\<lambda>n. if 0 < n then bindD (makeD 16 n) (\<lambda>_. loopD (nat n) getString) else returnD []"
  let ?k = "\<lambda>Topics. bindD (optD (3 < mdq_Version r) False getBool) (\<lambda>autoCreation.
     returnD \<lparr>mdq_Version = mdq_Version r, mdq_Topics = Topics, mdq_AllowAutoTopicCreation = autoCreation\<rparr>)"
  have dec: "dec_MetadataRequest (mdq_Version r) = bindD (bindD getInt32 ?m) ?k"
    by (simp add: dec_MetadataRequest_def bindD_assoc)
  have topics: "decodes (bindD getInt32 ?m)
      (if mdq_Version r = 0 \<or> mdq_Topics r \<noteq> [] then earray (\<lambda>x. [EString x]) (mdq_Topics r) else [EInt32 (-1)])
      (mdq_Topics r)"
    using decodes_topics [of "mdq_Topics r"] by auto
  show ?thesis
    unfolding dec enc_MetadataRequest_def
    by (intro decodes_unless_fail decodes_block [OF topics] decodes_fields)
       (use canon in \<open>auto simp: canon_MetadataRequest_def\<close>)
qed

lemma guarded_MetadataRequest: "guarded P (dec_MetadataRequest version)"
proof -
  have "guarded P (bindD getInt32 (\<lambda>n. if 0 < n then bindD (makeD 16 n) (\<lambda>_. loopD (nat n) getString) else returnD []))"
    by (rule guarded_bind_value [OF guarded_getInts(3) getInt32_range])
       (auto simp: sint_ok_def intro!: guarded_intros guarded_makeD)
  moreover have "dec_MetadataRequest version = bindD (bindD getInt32 (\<lambda>n. if 0 < n then bindD (makeD 16 n) (\<lambda>_. loopD (nat n) getString) else returnD []))
    (\<lambda>Topics. bindD (optD (3 < version) False getBool) (\<lambda>autoCreation.
     returnD \<lparr>mdq_Version = version, mdq_Topics = Topics, mdq_AllowAutoTopicCreation = autoCreation\<rparr>))"
    by (simp add: dec_MetadataRequest_def bindD_assoc)
  ultimately show ?thesis by (auto intro!: guarded_intros)
qed


text \<open>\<open>r.blocks[topic][part] = block\<close>, with the maps made where they are missing.\<close>

definition add_block :: "'k \<Rightarrow> 'p \<Rightarrow> 'b \<Rightarrow> ('k \<times> ('p \<times> 'b) list) list \<Rightarrow> ('k \<times> ('p \<times> 'b) list) list" where
  "add_block topic part b blocks =
     AList.update topic (AList.update part b (case map_of blocks topic of None \<Rightarrow> [] | Some ps \<Rightarrow> ps)) blocks"

lemma add_block_lookup:
  "(case map_of (add_block t p b bs) t' of None \<Rightarrow> None | Some ps \<Rightarrow> map_of ps p') =
   (if t' = t \<and> p' = p then Some b else case map_of bs t' of None \<Rightarrow> None | Some ps \<Rightarrow> map_of ps p')"
  by (auto simp: add_block_def update_conv split: option.splits)

lemma update_values: "x \<in> set (AList.update k v xs) \<Longrightarrow> x = (k, v) \<or> x \<in> set xs"
  by (induction xs) (auto split: if_splits)

lemma map_of_values: "map_of xs k = Some v \<Longrightarrow> (k, v) \<in> set xs"
  by (rule map_of_SomeD)

lemma add_block_all:
  assumes "distinct (map fst bs)" "\<forall>x \<in> set bs. distinct (map fst (snd x)) \<and> (\<forall>x \<in> set (snd x). Q (snd x))" "Q b"
  shows "distinct (map fst (add_block t p b bs)) \<and>
    (\<forall>x \<in> set (add_block t p b bs). distinct (map fst (snd x)) \<and> (\<forall>x \<in> set (snd x). Q (snd x)))"
proof -
  let ?old = "case map_of bs t of None \<Rightarrow> [] | Some ps \<Rightarrow> ps"
  have "distinct (map fst ?old) \<and> (\<forall>x \<in> set ?old. Q (snd x))"
  proof (cases "map_of bs t")
    case (Some ps)
    then show ?thesis using bspec [OF assms(2) map_of_SomeD [OF Some]] by simp
  qed simp
  then have "distinct (map fst (AList.update p b ?old)) \<and> (\<forall>x \<in> set (AList.update p b ?old). Q (snd x))"
    using assms(3) by (auto simp: AList.distinct_update dest: update_values)
  then show ?thesis using assms(1,2) by (auto simp: add_block_def AList.distinct_update dest!: update_values)
qed

record offsetRequestBlock =
  orb_time :: int
  orb_maxOffsets :: int

definition enc_offsetRequestBlock :: "int \<Rightarrow> offsetRequestBlock \<Rightarrow> etree list" where
  "enc_offsetRequestBlock version r =
     concat [[EInt64 (orb_time r)], eopt (version = 0) [EInt32 (orb_maxOffsets r)]]"

definition dec_offsetRequestBlock :: "int \<Rightarrow> offsetRequestBlock dec" where
  "dec_offsetRequestBlock version =
     bindD getInt64 (\<lambda>time.
     bindD (optD (version = 0) 0 getInt32) (\<lambda>maxOffsets.
     returnD \<lparr>orb_time = time, orb_maxOffsets = maxOffsets\<rparr>))"

definition canon_offsetRequestBlock :: "int \<Rightarrow> offsetRequestBlock \<Rightarrow> bool" where
  "canon_offsetRequestBlock version r \<longleftrightarrow>
     (version = 0 \<or> (orb_maxOffsets r) = 0)"

lemma decodes_offsetRequestBlock:
  "canon_offsetRequestBlock version r \<Longrightarrow> 
    decodes (dec_offsetRequestBlock version) (enc_offsetRequestBlock version r) r"
  unfolding dec_offsetRequestBlock_def enc_offsetRequestBlock_def
  by (intro decodes_fields decodes_elements)
     (auto simp: canon_offsetRequestBlock_def)

lemma wire_offsetRequestBlock_nonempty [simp]:
  "wire (enc_offsetRequestBlock version r) \<noteq> []"
  by (simp add: enc_offsetRequestBlock_def)

lemma guarded_offsetRequestBlock: "guarded P (dec_offsetRequestBlock version)"
  unfolding dec_offsetRequestBlock_def by (intro guarded_intros)


record OffsetRequest =
  orq_Version :: int
  orq_replicaID :: int
  orq_isReplicaIDSet :: bool
  orq_blocks :: "(string \<times> (int \<times> offsetRequestBlock) list) list"

definition enc_OffsetRequest :: "OffsetRequest \<Rightarrow> etree list" where
  "enc_OffsetRequest r =
     concat [[EInt32 (if orq_isReplicaIDSet r then orq_replicaID r else -1)],
       earray (epair (\<lambda>x. [EString x]) (earray (epair (\<lambda>x. [EInt32 x])
         (enc_offsetRequestBlock (orq_Version r))))) (orq_blocks r)]"

definition SetReplicaID :: "int \<Rightarrow> OffsetRequest \<Rightarrow> OffsetRequest" where
  "SetReplicaID replicaID r = r\<lparr>orq_replicaID := replicaID, orq_isReplicaIDSet := True\<rparr>"

definition dec_OffsetRequest :: "int \<Rightarrow> OffsetRequest dec" where
  "dec_OffsetRequest version =
     bindD getInt32 (\<lambda>replicaID.
     bindD (mapD (pairD getString (mapD (pairD getInt32 (dec_offsetRequestBlock version))))) (\<lambda>blocks.
     let r = \<lparr>orq_Version = version, orq_replicaID = 0, orq_isReplicaIDSet = False, orq_blocks = blocks\<rparr>
     in returnD (if 0 \<le> replicaID then SetReplicaID replicaID r else r)))"

definition canon_OffsetRequest :: "OffsetRequest \<Rightarrow> bool" where
  "canon_OffsetRequest r \<longleftrightarrow>
     (if orq_isReplicaIDSet r then 0 \<le> orq_replicaID r else orq_replicaID r = 0) \<and>
     distinct (map fst (orq_blocks r)) \<and>
     (\<forall>x \<in> set (orq_blocks r). distinct (map fst (snd x)) \<and>
       (\<forall>x \<in> set (snd x). canon_offsetRequestBlock (orq_Version r) (snd x)))"

lemma decodes_OffsetRequest:
  "canon_OffsetRequest r \<Longrightarrow> decodes (dec_OffsetRequest (orq_Version r)) (enc_OffsetRequest r) r"
  unfolding dec_OffsetRequest_def enc_OffsetRequest_def Let_def
  by (intro decodes_fields decodes_elements decodes_offsetRequestBlock)
     (auto simp: canon_OffsetRequest_def SetReplicaID_def split: if_splits)

lemma guarded_OffsetRequest: "guarded P (dec_OffsetRequest version)"
  unfolding dec_OffsetRequest_def Let_def by (intro guarded_intros guarded_offsetRequestBlock)

definition ReplicaID :: "OffsetRequest \<Rightarrow> int" where
  "ReplicaID r = (if orq_isReplicaIDSet r then orq_replicaID r else -1)"

definition AddBlock_OffsetRequest :: "string \<Rightarrow> int \<Rightarrow> int \<Rightarrow> int \<Rightarrow> OffsetRequest \<Rightarrow> OffsetRequest" where
  "AddBlock_OffsetRequest topic partitionID time maxOffsets r =
     (let tmp = \<lparr>orb_time = time, orb_maxOffsets = (if orq_Version r = 0 then maxOffsets else 0)\<rparr>
      in r\<lparr>orq_blocks := add_block topic partitionID tmp (orq_blocks r)\<rparr>)"

lemma canon_AddBlock_OffsetRequest:
  "canon_OffsetRequest r \<Longrightarrow> canon_OffsetRequest (AddBlock_OffsetRequest topic p t n r)"
  using add_block_all [of "orq_blocks r" "canon_offsetRequestBlock (orq_Version r)"
    "\<lparr>orb_time = t, orb_maxOffsets = (if orq_Version r = 0 then n else 0)\<rparr>" topic p]
  by (simp add: canon_OffsetRequest_def AddBlock_OffsetRequest_def canon_offsetRequestBlock_def)


record OffsetResponseBlock =
  ofr_Err :: int
  ofr_Offsets :: "int list"
  ofr_Offset :: int
  ofr_Timestamp :: int

definition dec_OffsetResponseBlock :: "int \<Rightarrow> OffsetResponseBlock dec" where
  "dec_OffsetResponseBlock version =
     bindD getInt16 (\<lambda>Err.
     if version = 0
     then bindD getInt64Array (\<lambda>Offsets.
       returnD \<lparr>ofr_Err = Err, ofr_Offsets = Offsets, ofr_Offset = 0, ofr_Timestamp = 0\<rparr>)
     else bindD getInt64 (\<lambda>Timestamp.
       bindD getInt64 (\<lambda>Offset.
       returnD \<lparr>ofr_Err = Err, ofr_Offsets = [Offset], ofr_Offset = Offset, ofr_Timestamp = Timestamp\<rparr>)))"

definition enc_OffsetResponseBlock :: "int \<Rightarrow> OffsetResponseBlock \<Rightarrow> etree list" where
  "enc_OffsetResponseBlock version b =
     concat [[EInt16 (ofr_Err b)],
       (if version = 0 then [EInt64Array (ofr_Offsets b)] else [EInt64 (ofr_Timestamp b), EInt64 (ofr_Offset b)])]"

definition canon_OffsetResponseBlock :: "int \<Rightarrow> OffsetResponseBlock \<Rightarrow> bool" where
  "canon_OffsetResponseBlock version b \<longleftrightarrow>
     (if version = 0 then ofr_Offset b = 0 \<and> ofr_Timestamp b = 0 else ofr_Offsets b = [ofr_Offset b])"

lemma decodes_OffsetResponseBlock:
  "canon_OffsetResponseBlock version b \<Longrightarrow>
    decodes (dec_OffsetResponseBlock version) (enc_OffsetResponseBlock version b) b"
  unfolding dec_OffsetResponseBlock_def enc_OffsetResponseBlock_def
  by (cases "version = 0")
     (auto simp: canon_OffsetResponseBlock_def intro!: decodes_leaf_binds decodes_return)

lemma wire_OffsetResponseBlock_nonempty [simp]: "wire (enc_OffsetResponseBlock version b) \<noteq> []"
  by (simp add: enc_OffsetResponseBlock_def)

lemma guarded_OffsetResponseBlock: "guarded P (dec_OffsetResponseBlock version)"
  unfolding dec_OffsetResponseBlock_def by (intro guarded_intros)

text \<open>The decoder leaves the field \<open>Version\<close> of the response alone.\<close>

record OffsetResponse =
  orp_Version :: int
  orp_Blocks :: "(string \<times> (int \<times> OffsetResponseBlock) list) list"

definition dec_OffsetResponse :: "int \<Rightarrow> OffsetResponse dec" where
  "dec_OffsetResponse version =
     bindD (mapD (pairD getString (mapD (pairD getInt32 (dec_OffsetResponseBlock version))))) (\<lambda>Blocks.
     returnD \<lparr>orp_Version = 0, orp_Blocks = Blocks\<rparr>)"

definition enc_OffsetResponse :: "OffsetResponse \<Rightarrow> etree list" where
  "enc_OffsetResponse r =
     concat [earray (epair (\<lambda>x. [EString x]) (earray (epair (\<lambda>x. [EInt32 x])
       (enc_OffsetResponseBlock (orp_Version r))))) (orp_Blocks r)]"

definition canon_OffsetResponse :: "OffsetResponse \<Rightarrow> bool" where
  "canon_OffsetResponse r \<longleftrightarrow>
     distinct (map fst (orp_Blocks r)) \<and>
     (\<forall>x \<in> set (orp_Blocks r). distinct (map fst (snd x)) \<and>
       (\<forall>x \<in> set (snd x). canon_OffsetResponseBlock (orp_Version r) (snd x)))"

lemma decodes_OffsetResponse:
  "canon_OffsetResponse r \<Longrightarrow>
    decodes (dec_OffsetResponse (orp_Version r)) (enc_OffsetResponse r) (r\<lparr>orp_Version := 0\<rparr>)"
  unfolding dec_OffsetResponse_def enc_OffsetResponse_def
  by (intro decodes_fields decodes_elements decodes_OffsetResponseBlock) (auto simp: canon_OffsetResponse_def)

lemma guarded_OffsetResponse: "guarded P (dec_OffsetResponse version)"
  unfolding dec_OffsetResponse_def by (intro guarded_intros guarded_OffsetResponseBlock)

definition GetBlock_OffsetResponse :: "string \<Rightarrow> int \<Rightarrow> OffsetResponse \<Rightarrow> OffsetResponseBlock option" where
  "GetBlock_OffsetResponse topic part r =
     (case map_of (orp_Blocks r) topic of None \<Rightarrow> None | Some ps \<Rightarrow> map_of ps part)"

definition AddTopicPartition_OffsetResponse :: "string \<Rightarrow> int \<Rightarrow> int \<Rightarrow> OffsetResponse \<Rightarrow> OffsetResponse" where
  "AddTopicPartition_OffsetResponse topic part offset r =
     r\<lparr>orp_Blocks := add_block topic part
       \<lparr>ofr_Err = 0, ofr_Offsets = [offset], ofr_Offset = offset, ofr_Timestamp = 0\<rparr> (orp_Blocks r)\<rparr>"

record fetchRequestBlock =
  fqb_fetchOffset :: int
  fqb_maxBytes :: int

definition enc_fetchRequestBlock :: "fetchRequestBlock \<Rightarrow> etree list" where
  "enc_fetchRequestBlock r =
     concat [[EInt64 (fqb_fetchOffset r), EInt32 (fqb_maxBytes r)]]"

definition dec_fetchRequestBlock :: "fetchRequestBlock dec" where
  "dec_fetchRequestBlock =
     bindD getInt64 (\<lambda>fetchOffset.
     bindD getInt32 (\<lambda>maxBytes.
     returnD \<lparr>fqb_fetchOffset = fetchOffset, fqb_maxBytes = maxBytes\<rparr>))"

lemma decodes_fetchRequestBlock:
  "decodes dec_fetchRequestBlock (enc_fetchRequestBlock r) r"
  unfolding dec_fetchRequestBlock_def enc_fetchRequestBlock_def
  by (intro decodes_fields decodes_elements)
     (auto)

lemma wire_fetchRequestBlock_nonempty [simp]:
  "wire (enc_fetchRequestBlock r) \<noteq> []"
  by (simp add: enc_fetchRequestBlock_def)

lemma guarded_fetchRequestBlock: "guarded P dec_fetchRequestBlock"
  unfolding dec_fetchRequestBlock_def by (intro guarded_intros)


record FetchRequest =
  frq_MaxWaitTime :: int
  frq_MinBytes :: int
  frq_MaxBytes :: int
  frq_Version :: int
  frq_Isolation :: int
  frq_blocks :: "(string \<times> (int \<times> fetchRequestBlock) list) list"

definition enc_FetchRequest :: "FetchRequest \<Rightarrow> etree list" where
  "enc_FetchRequest r =
     concat [[EInt32 (-1), EInt32 (frq_MaxWaitTime r), EInt32 (frq_MinBytes r)],
       eopt (3 \<le> frq_Version r) [EInt32 (frq_MaxBytes r)],
       eopt (4 \<le> frq_Version r) [EInt8 (frq_Isolation r)],
       earray (epair (\<lambda>x. [EString x]) (earray (epair (\<lambda>x. [EInt32 x]) enc_fetchRequestBlock))) (frq_blocks r)]"

definition dec_FetchRequest :: "int \<Rightarrow> FetchRequest dec" where
  "dec_FetchRequest version =
     bindD getInt32 (\<lambda>_.
     bindD getInt32 (\<lambda>MaxWaitTime.
     bindD getInt32 (\<lambda>MinBytes.
     bindD (optD (3 \<le> version) 0 getInt32) (\<lambda>MaxBytes.
     bindD (optD (4 \<le> version) 0 getInt8) (\<lambda>isolation.
     bindD (mapD (pairD getString (mapD (pairD getInt32 dec_fetchRequestBlock)))) (\<lambda>blocks.
     returnD \<lparr>frq_MaxWaitTime = MaxWaitTime, frq_MinBytes = MinBytes, frq_MaxBytes = MaxBytes,
       frq_Version = version, frq_Isolation = isolation, frq_blocks = blocks\<rparr>))))))"

definition canon_FetchRequest :: "FetchRequest \<Rightarrow> bool" where
  "canon_FetchRequest r \<longleftrightarrow>
     (3 \<le> frq_Version r \<or> frq_MaxBytes r = 0) \<and> (4 \<le> frq_Version r \<or> frq_Isolation r = 0) \<and>
     distinct (map fst (frq_blocks r)) \<and> (\<forall>x \<in> set (frq_blocks r). distinct (map fst (snd x)))"

lemma decodes_FetchRequest:
  "canon_FetchRequest r \<Longrightarrow> decodes (dec_FetchRequest (frq_Version r)) (enc_FetchRequest r) r"
  unfolding dec_FetchRequest_def enc_FetchRequest_def
  by (intro decodes_fields decodes_elements decodes_fetchRequestBlock) (auto simp: canon_FetchRequest_def)

lemma guarded_FetchRequest: "guarded P (dec_FetchRequest version)"
  unfolding dec_FetchRequest_def by (intro guarded_intros guarded_fetchRequestBlock)

definition AddBlock_FetchRequest :: "string \<Rightarrow> int \<Rightarrow> int \<Rightarrow> int \<Rightarrow> FetchRequest \<Rightarrow> FetchRequest" where
  "AddBlock_FetchRequest topic partitionID fetchOffset maxBytes r =
     (let tmp = \<lparr>fqb_fetchOffset = fetchOffset, fqb_maxBytes = maxBytes\<rparr>
      in r\<lparr>frq_blocks := add_block topic partitionID tmp (frq_blocks r)\<rparr>)"

lemma canon_AddBlock_FetchRequest:
  "canon_FetchRequest r \<Longrightarrow> canon_FetchRequest (AddBlock_FetchRequest topic p off n r)"
  unfolding canon_FetchRequest_def AddBlock_FetchRequest_def Let_def
  using add_block_all [of "frq_blocks r" "\<lambda>_. True" _ topic p] by auto

end
