(* ===== verification/Kafka_Records.thy ===== *)
theory Kafka_Records
  imports Kafka_Fields
begin

section \<open>Messages, record batches and their compression\<close>

text \<open>
  The two formats in which a partition stores messages: the message sets of the old protocol
  (message.go, message_set.go) and the record batches of the new one (record.go, record_batch.go), and their
  union (records.go). The compression libraries are parameters: \<open>pack\<close> and \<open>unpack\<close> stand for gzip, snappy, lz4
  and zstd, and a batch survives when \<open>unpack\<close> undoes \<open>pack\<close>.
\<close>

subsection \<open>Timestamps (timestamp.go)\<close>

text \<open>A \<open>time.Time\<close> is the number of nanoseconds since 1970, \<open>None\<close> the zero time of the year 1.\<close>

type_synonym gotime = "int option"

definition enc_Timestamp :: "gotime \<Rightarrow> etree list" where
  "enc_Timestamp t =
     (case t of
        None \<Rightarrow> [EInt64 (-1)]
      | Some ns \<Rightarrow>
          if 0 \<le> ns then [EInt64 (wrap64 ns sdiv 1000000)]
          else [EFail (PacketEncodingError ''invalid timestamp'')])"

definition dec_Timestamp :: "gotime dec" where
  "dec_Timestamp = bindD getInt64 (\<lambda>millis. returnD (if 0 \<le> millis then Some (millis * 1000000) else None))"

definition is_timestamp :: "gotime \<Rightarrow> bool" where
  "is_timestamp t \<longleftrightarrow> (case t of None \<Rightarrow> True | Some ns \<Rightarrow> 0 \<le> ns \<and> ns mod 1000000 = 0 \<and> ns < 2 ^ 63)"

lemma sdiv_exact: "d mod 1000000 = 0 \<Longrightarrow> d sdiv 1000000 * 1000000 = (d :: int)"
  by (auto simp: signed_divide_int_def sgn_if div_minus_right dvd_neg_div [symmetric] dvd_eq_mod_eq_0)

lemma decodes_Timestamp: "is_timestamp t \<Longrightarrow> decodes dec_Timestamp (enc_Timestamp t) t"
proof (cases t)
  case (Some ns)
  assume "is_timestamp t"
  then have ns: "0 \<le> ns" "ns mod 1000000 = 0" "wrap64 ns = ns"
    using wrap64_id [of ns] by (auto simp: is_timestamp_def Some int64_ok_def)
  have "0 \<le> ns sdiv 1000000" using ns(1) by (simp add: signed_divide_int_def sgn_if pos_imp_zdiv_nonneg_iff)
  then show ?thesis unfolding dec_Timestamp_def enc_Timestamp_def
    using Some ns sdiv_exact [OF ns(2)]
    by (auto intro!: decodes_bind_Nil [OF decodes_leaves(4)] decodes_return)
qed (auto simp: dec_Timestamp_def enc_Timestamp_def intro!: decodes_bind_Nil [OF decodes_leaves(4)] decodes_return)

lemma guarded_Timestamp: "guarded P dec_Timestamp"
  unfolding dec_Timestamp_def by (intro guarded_intros)

subsection \<open>Records (record.go)\<close>

record RecordHeader =
  rhd_Key :: "string option"
  rhd_Value :: "string option"

definition enc_RecordHeader :: "RecordHeader \<Rightarrow> etree list" where
  "enc_RecordHeader h = concat [[EVarintBytes (rhd_Key h), EVarintBytes (rhd_Value h)]]"

definition dec_RecordHeader :: "RecordHeader dec" where
  "dec_RecordHeader =
     bindD getVarintBytes (\<lambda>Key.
     bindD getVarintBytes (\<lambda>Value.
     returnD \<lparr>rhd_Key = Key, rhd_Value = Value\<rparr>))"

lemma decodes_RecordHeader: "decodes dec_RecordHeader (enc_RecordHeader h) h"
  unfolding dec_RecordHeader_def enc_RecordHeader_def by (intro decodes_fields) auto

lemma guarded_RecordHeader: "guarded P dec_RecordHeader"
  unfolding dec_RecordHeader_def by (intro guarded_intros)

text \<open>
  \<open>length\<close> is the variable-length field around the record: the first pass of the encoder and the decoder set it.
\<close>

record Record =
  rec_Headers :: "RecordHeader list"
  rec_Attributes :: int
  rec_TimestampDelta :: int
  rec_OffsetDelta :: int
  rec_Key :: "string option"
  rec_Value :: "string option"
  rec_length :: int

definition record_body :: "Record \<Rightarrow> etree list" where
  "record_body r =
     concat [[EInt8 (rec_Attributes r), EVarint (rec_TimestampDelta r sdiv 1000000), EVarint (rec_OffsetDelta r),
       EVarintBytes (rec_Key r), EVarintBytes (rec_Value r), EVarint (int (length (rec_Headers r)))],
       concat (map enc_RecordHeader (rec_Headers r))]"

definition enc_Record :: "Record \<Rightarrow> etree list" where
  "enc_Record r = [EFrame (FVarintLength (rec_length r)) (record_body r)]"

definition dec_record_body :: "int \<Rightarrow> Record dec" where
  "dec_record_body n =
     bindD getInt8 (\<lambda>Attributes.
     bindD getVarint (\<lambda>timestamp.
     bindD getVarint (\<lambda>OffsetDelta.
     bindD getVarintBytes (\<lambda>Key.
     bindD getVarintBytes (\<lambda>Value.
     bindD getVarint (\<lambda>numHeaders.
     bindD (optD (0 \<le> numHeaders) () (makeD 8 numHeaders)) (\<lambda>_.
     bindD (loopD (nat numHeaders) dec_RecordHeader) (\<lambda>Headers.
     returnD \<lparr>rec_Headers = Headers, rec_Attributes = Attributes,
       rec_TimestampDelta = wrap64 (timestamp * 1000000), rec_OffsetDelta = OffsetDelta,
       rec_Key = Key, rec_Value = Value, rec_length = n\<rparr>))))))))"

definition dec_Record :: "Record dec" where
  "dec_Record = frameD (FVarintLength 0) dec_record_body"

definition sent_Record :: "Record \<Rightarrow> Record" where
  "sent_Record r = r\<lparr>rec_length := int (length (wire (record_body r)))\<rparr>"

definition canon_Record :: "Record \<Rightarrow> bool" where
  "canon_Record r \<longleftrightarrow>
     rec_TimestampDelta r mod 1000000 = 0 \<and> int64_ok (rec_TimestampDelta r) \<and>
     int (length (rec_Headers r)) \<le> 2 ^ 31"

lemma decodes_Record:
  assumes canon: "canon_Record r"
  shows "decodes dec_Record (enc_Record r) (sent_Record r)"
proof -
  let ?n = "int (length (wire (record_body r)))" and ?hs = "rec_Headers r"
  have ts: "wrap64 (rec_TimestampDelta r sdiv 1000000 * 1000000) = rec_TimestampDelta r"
    using canon sdiv_exact wrap64_id by (simp add: canon_Record_def)
  have make: "decodes (bindD (optD (0 \<le> int (length ?hs)) () (makeD 8 (int (length ?hs)))) k) ts v" if "decodes (k ()) ts v" for k ts v
    using canon that by (auto simp: optD_def canon_Record_def intro!: decodes_make)
  have loop: "decodes (loopD n dec_RecordHeader) (concat (map enc_RecordHeader ?hs)) ?hs" if "n = length ?hs" for n
    using that decodes_loop [of ?hs dec_RecordHeader enc_RecordHeader "\<lambda>x. x"] by (simp add: decodes_RecordHeader)
  have "decodes (dec_record_body ?n) (record_body r) (sent_Record r)"
    unfolding dec_record_body_def record_body_def
    by (intro decodes_fields make decodes_block [OF loop])
       (simp_all add: ts sent_Record_def record_body_def)
  then show ?thesis
    unfolding dec_Record_def enc_Record_def by (intro decodes_frame) simp_all
qed

lemma guarded_Record: "P MakePanic \<Longrightarrow> guarded P dec_Record"
  unfolding dec_Record_def dec_record_body_def
  by (intro guarded_intros guarded_RecordHeader guarded_makeD) auto

lemma wire_Record_nonempty [simp]: "wire (enc_Record r) \<noteq> []"
  by (simp add: enc_Record_def)

subsection \<open>Compression (compress.go, decompress.go)\<close>

type_synonym packer = "int \<Rightarrow> int \<Rightarrow> string \<Rightarrow> kerror + string"
type_synonym unpacker = "int \<Rightarrow> string \<Rightarrow> kerror + string"

definition compress :: "packer \<Rightarrow> int \<Rightarrow> int \<Rightarrow> string \<Rightarrow> kerror + string" where
  "compress pack cc level data =
     (if cc = 0 then Inr data
      else if 1 \<le> cc \<and> cc \<le> 4 then pack cc level data
      else Inl (PacketEncodingError (''unsupported compression codec ('' @ Itoa cc @ '')'')))"

definition decompress :: "unpacker \<Rightarrow> int \<Rightarrow> string \<Rightarrow> kerror + string" where
  "decompress unpack cc data =
     (if cc = 0 then Inr data
      else if 1 \<le> cc \<and> cc \<le> 4 then unpack cc data
      else Inl (PacketDecodingError (''invalid compression specified ('' @ Itoa cc @ '')'')))"

text \<open>What the libraries document: decompression undoes compression.\<close>

definition lossless :: "packer \<Rightarrow> unpacker \<Rightarrow> bool" where
  "lossless pack unpack \<longleftrightarrow>
     (\<forall>cc level data z. 1 \<le> cc \<and> cc \<le> 4 \<and> pack cc level data = Inr z \<longrightarrow> unpack cc z = Inr data)"

lemma decompress_compress:
  "lossless pack unpack \<Longrightarrow> compress pack cc level data = Inr z \<Longrightarrow> decompress unpack cc z = Inr data"
  by (auto simp: lossless_def compress_def decompress_def split: if_splits)

lemma decompress_codec: "decompress unpack cc z = Inr data \<Longrightarrow> 0 \<le> cc \<and> cc \<le> 4"
  by (auto simp: decompress_def split: if_splits)

subsection \<open>Record batches (record_batch.go)\<close>

record RecordBatch =
  rbt_FirstOffset :: int
  rbt_PartitionLeaderEpoch :: int
  rbt_Version :: int
  rbt_Codec :: int
  rbt_CompressionLevel :: int
  rbt_Control :: bool
  rbt_LogAppendTime :: bool
  rbt_LastOffsetDelta :: int
  rbt_FirstTimestamp :: gotime
  rbt_MaxTimestamp :: gotime
  rbt_ProducerID :: int
  rbt_ProducerEpoch :: int
  rbt_FirstSequence :: int
  rbt_Records :: "Record list"
  rbt_PartialTrailingRecord :: bool
  rbt_IsTransactional :: bool
  rbt_compressedRecords :: "string option"
  rbt_recordsLen :: int

definition LastOffset :: "RecordBatch \<Rightarrow> int" where
  "LastOffset b = wrap64 (rbt_FirstOffset b + rbt_LastOffsetDelta b)"

definition addRecord :: "Record \<Rightarrow> RecordBatch \<Rightarrow> RecordBatch" where
  "addRecord r b = b\<lparr>rbt_Records := rbt_Records b @ [r]\<rparr>"

unbundle bit_operations_syntax

definition computeAttributes :: "RecordBatch \<Rightarrow> int" where
  "computeAttributes b =
     (let attr = rbt_Codec b AND 7;
          attr = (if rbt_Control b then attr OR 0x20 else attr);
          attr = (if rbt_LogAppendTime b then attr OR 0x08 else attr)
      in if rbt_IsTransactional b then attr OR 0x10 else attr)"

definition encodeE :: "etree list \<Rightarrow> kerror + string" where
  "encodeE ts = (case encode ts of Inl p \<Rightarrow> Inl (ErrorString ''panic'') | Inr r \<Rightarrow> r)"

text \<open>The encoder never panics, so the first case of \<open>encodeE\<close> does not occur.\<close>

lemma encode_no_panic: "encode ts \<noteq> Inl p"
proof (cases "prep ts 0")
  case (Inr r)
  then obtain n ts' where p: "prep ts 0 = Inr (n, ts')" by (cases r) simp
  show ?thesis
  proof (cases "n \<le> MaxRequestSize")
    case True
    from encode_wire [OF p True] show ?thesis by simp
  qed (use p in \<open>simp add: encode_def\<close>)
qed (simp add: encode_def)

definition encodeRecords :: "packer \<Rightarrow> RecordBatch \<Rightarrow> kerror + string" where
  "encodeRecords pack b =
     bindR (encodeE (concat (map enc_Record (rbt_Records b)))) (\<lambda>raw.
       compress pack (rbt_Codec b) (rbt_CompressionLevel b) raw)"

definition batch_payload :: "packer \<Rightarrow> RecordBatch \<Rightarrow> kerror + string" where
  "batch_payload pack b = (case rbt_compressedRecords b of Some c \<Rightarrow> Inr c | None \<Rightarrow> encodeRecords pack b)"

definition batch_fields :: "RecordBatch \<Rightarrow> etree list" where
  "batch_fields b =
     concat [[EInt16 (computeAttributes b), EInt32 (rbt_LastOffsetDelta b)],
       enc_Timestamp (rbt_FirstTimestamp b), enc_Timestamp (rbt_MaxTimestamp b),
       [EInt64 (rbt_ProducerID b), EInt16 (rbt_ProducerEpoch b), EInt32 (rbt_FirstSequence b)]]"

definition enc_RecordBatch :: "packer \<Rightarrow> RecordBatch \<Rightarrow> etree list" where
  "enc_RecordBatch pack b =
     (if rbt_Version b \<noteq> 2
      then [EFail (PacketEncodingError (''unsupported compression codec ('' @ Itoa (rbt_Codec b) @ '')''))]
      else
        [EInt64 (rbt_FirstOffset b),
         EFrame FLength
           [EInt32 (rbt_PartitionLeaderEpoch b), EInt8 (rbt_Version b),
            EFrame (FCrc crcCastagnoli)
              (batch_fields b @
               [EArrayLength (int (length (rbt_Records b))),
                (case batch_payload pack b of Inl e \<Rightarrow> EFail e | Inr c \<Rightarrow> ERawBytes c)])]])"

text \<open>\<open>getRawBytes\<close> where missing data is not an error but the end of a partial batch.\<close>

definition tryRawBytes :: "int \<Rightarrow> string option dec" where
  "tryRawBytes n d =
     bindR (getRawBytes n d) (\<lambda>(r, d').
       Inr (case r of Inl e \<Rightarrow> if e = ErrInsufficientData then Inr None else Inl e | Inr b \<Rightarrow> Inr (Some b), d'))"

text \<open>A frame that is left without its \<open>pop\<close> when the calls in between say so.\<close>

definition frameOptD :: "frame \<Rightarrow> (int \<Rightarrow> (bool \<times> 'a) dec) \<Rightarrow> (bool \<times> 'a) dec" where
  "frameOptD f m d =
     bindD (pushD f) (\<lambda>n. bindD (m n) (\<lambda>(ok, x).
       if ok then bindD (checkD f (rd_off d) n) (\<lambda>_. returnD (ok, x)) else returnD (ok, x))) d"

definition recordBatchOverhead :: int where
  "recordBatchOverhead = 49"

text \<open>The part of the batch that the checksum covers: the batch, the number of records and their bytes.\<close>

definition dec_batch_body :: "int \<Rightarrow> int \<Rightarrow> int \<Rightarrow> int \<Rightarrow> (bool \<times> RecordBatch \<times> int \<times> string option) dec" where
  "dec_batch_body FirstOffset PartitionLeaderEpoch Version batchLen =
     bindD getInt16 (\<lambda>attributes.
     bindD getInt32 (\<lambda>LastOffsetDelta.
     bindD dec_Timestamp (\<lambda>FirstTimestamp.
     bindD dec_Timestamp (\<lambda>MaxTimestamp.
     bindD getInt64 (\<lambda>ProducerID.
     bindD getInt16 (\<lambda>ProducerEpoch.
     bindD getInt32 (\<lambda>FirstSequence.
     bindD getArrayLength (\<lambda>numRecs.
     bindD (optD (0 \<le> numRecs) () (makeD 8 numRecs)) (\<lambda>_.
     bindD (tryRawBytes (batchLen - recordBatchOverhead)) (\<lambda>recBuffer.
     returnD (recBuffer \<noteq> None,
       \<lparr>rbt_FirstOffset = FirstOffset, rbt_PartitionLeaderEpoch = PartitionLeaderEpoch, rbt_Version = Version,
        rbt_Codec = swrap 8 attributes AND 7, rbt_CompressionLevel = 0,
        rbt_Control = (attributes AND 0x20 = 0x20), rbt_LogAppendTime = (attributes AND 0x08 = 0x08),
        rbt_LastOffsetDelta = LastOffsetDelta, rbt_FirstTimestamp = FirstTimestamp, rbt_MaxTimestamp = MaxTimestamp,
        rbt_ProducerID = ProducerID, rbt_ProducerEpoch = ProducerEpoch, rbt_FirstSequence = FirstSequence,
        rbt_Records = [], rbt_PartialTrailingRecord = (recBuffer = None),
        rbt_IsTransactional = (attributes AND 0x10 = 0x10), rbt_compressedRecords = None, rbt_recordsLen = 0\<rparr>,
       numRecs, recBuffer)))))))))))"

definition dec_batch_records :: "unpacker \<Rightarrow> RecordBatch \<Rightarrow> int \<Rightarrow> string \<Rightarrow> RecordBatch dec" where
  "dec_batch_records unpack b numRecs recBuffer =
     (case decompress unpack (rbt_Codec b) recBuffer of
        Inl e \<Rightarrow> failD e
      | Inr raw \<Rightarrow> (\<lambda>d.
          bindR (decode (loopD (nat numRecs) dec_Record) raw) (\<lambda>r.
            Inr (case r of
                Inl e \<Rightarrow> if e = ErrInsufficientData
                  then Inr (b\<lparr>rbt_recordsLen := int (length raw), rbt_PartialTrailingRecord := True\<rparr>) else Inl e
              | Inr rs \<Rightarrow> Inr (b\<lparr>rbt_recordsLen := int (length raw), rbt_Records := rs\<rparr>), d))))"

definition dec_RecordBatch :: "unpacker \<Rightarrow> RecordBatch dec" where
  "dec_RecordBatch unpack =
     bindD getInt64 (\<lambda>FirstOffset.
     bindD getInt32 (\<lambda>batchLen.
     bindD getInt32 (\<lambda>PartitionLeaderEpoch.
     bindD getInt8 (\<lambda>Version.
     bindD (frameOptD (FCrc crcCastagnoli) (\<lambda>_. dec_batch_body FirstOffset PartitionLeaderEpoch Version batchLen))
       (\<lambda>(_, b, numRecs, recBuffer).
     (case recBuffer of
        None \<Rightarrow> returnD b
      | Some buf \<Rightarrow> dec_batch_records unpack b numRecs buf))))))"

subsubsection \<open>Round trip\<close>

lemma reads_frameOptD:
  assumes "reads (m (frame_value f s)) s (True, v)" "same_kind f f'"
  shows "reads (frameOptD f m) (wire_frame f' s) (True, v)"
proof (rule readsI)
  fix pre post :: string
  let ?h = "frame_head f' s"
  assume "int (length pre + length (wire_frame f' s) + length post) \<le> maxInt32"
  then have len: "int (length pre + length ?h + length s + length post) \<le> maxInt32" by (simp add: wire_frame_head)
  from readsD [OF assms(1), of "pre @ ?h" post] len
  have "m (frame_value f s) (rd (pre @ ?h) (s @ post)) = Inr (Inr (True, v), rd (pre @ ?h @ s) post)" by simp
  with pushD_rd [OF assms(2) len]
  show "frameOptD f m (rd pre (wire_frame f' s @ post)) = Inr (Inr (True, v), rd (pre @ wire_frame f' s) post)"
    by (simp add: frameOptD_def wire_frame_head bindD_Inr returnD_def)
qed

lemma decodes_frameOpt:
  "decodes (m (frame_value f (wire b))) b (True, v) \<Longrightarrow> same_kind f f' \<Longrightarrow>
    decodes (frameOptD f m) [EFrame f' b] (True, v)"
  by (simp add: decodes_def reads_frameOptD)

lemma decodes_tryRawBytes: "n = int (length c) \<Longrightarrow> decodes (tryRawBytes n) [ERawBytes c] (Some c)"
  using reads_getRawBytes [of n c] by (auto simp: decodes_def reads_def tryRawBytes_def)

lemma decodes_count_tree:
  assumes "decodes (k n) ts v" "n \<le> int (length (wire ts))"
  shows "decodes (bindD getArrayLength k) (EArrayLength n # ts) v"
  using assms by (auto simp: decodes_def intro!: reads_array_length)

definition sent_RecordBatch :: "RecordBatch \<Rightarrow> RecordBatch" where
  "sent_RecordBatch b =
     b\<lparr>rbt_CompressionLevel := 0, rbt_Records := map sent_Record (rbt_Records b),
       rbt_recordsLen := int (length (wire (concat (map enc_Record (rbt_Records b)))))\<rparr>"

text \<open>
  \<open>canon_RecordBatch\<close>: a batch that has not been encoded before, with whole milliseconds, and with no more
  records than its payload has bytes, since the decoder checks the count against the bytes that are left.
\<close>

definition canon_RecordBatch :: "packer \<Rightarrow> RecordBatch \<Rightarrow> bool" where
  "canon_RecordBatch pack b \<longleftrightarrow>
     rbt_Version b = 2 \<and> 0 \<le> rbt_Codec b \<and> rbt_Codec b \<le> 4 \<and>
     is_timestamp (rbt_FirstTimestamp b) \<and> is_timestamp (rbt_MaxTimestamp b) \<and>
     \<not> rbt_PartialTrailingRecord b \<and> rbt_compressedRecords b = None \<and>
     list_all canon_Record (rbt_Records b) \<and> tree_ok (concat (map enc_Record (rbt_Records b))) \<and>
     int (length (wire (concat (map enc_Record (rbt_Records b))))) \<le> MaxRequestSize \<and>
     (case batch_payload pack b of Inl e \<Rightarrow> False | Inr c \<Rightarrow> length (rbt_Records b) \<le> length c)"

lemma attributes_codec:
  assumes "0 \<le> rbt_Codec b" "rbt_Codec b \<le> 4"
  shows "sint_ok 16 (computeAttributes b)" "swrap 8 (computeAttributes b) AND 7 = rbt_Codec b"
    "(computeAttributes b AND 0x20 = 0x20) = rbt_Control b"
    "(computeAttributes b AND 0x08 = 0x08) = rbt_LogAppendTime b"
    "(computeAttributes b AND 0x10 = 0x10) = rbt_IsTransactional b"
proof -
  have "rbt_Codec b = 0 \<or> rbt_Codec b = 1 \<or> rbt_Codec b = 2 \<or> rbt_Codec b = 3 \<or> rbt_Codec b = 4"
    using assms by arith
  then show "sint_ok 16 (computeAttributes b)" "swrap 8 (computeAttributes b) AND 7 = rbt_Codec b"
    "(computeAttributes b AND 0x20 = 0x20) = rbt_Control b"
    "(computeAttributes b AND 0x08 = 0x08) = rbt_LogAppendTime b"
    "(computeAttributes b AND 0x10 = 0x10) = rbt_IsTransactional b"
    by (elim disjE; cases "rbt_Control b"; cases "rbt_LogAppendTime b"; cases "rbt_IsTransactional b";
        simp add: computeAttributes_def Let_def swrap_def sint_ok_def)+
qed

lemma decodes_length_prefix:
  assumes "decodes (k (int (length (wire b)))) (b @ ts) w"
  shows "decodes (bindD getInt32 k) (EFrame FLength b # ts) w"
proof -
  have "reads (bindD getInt32 k) (be 4 (int (length s)) @ s @ t) w" if r: "reads (k (int (length s))) (s @ t) w" for s t
  proof (rule readsI)
    fix pre post :: string
    assume len: "int (length pre + length (be 4 (int (length s)) @ s @ t) + length post) \<le> maxInt32"
    then have "getInt32 (rd pre (be 4 (int (length s)) @ s @ t @ post)) =
        Inr (Inr (int (length s)), rd (pre @ be 4 (int (length s))) (s @ t @ post))"
      by (intro readsD [OF reads_getInts(3)]) (auto simp: sint_ok_def)
    with readsD [OF r, of "pre @ be 4 (int (length s))" post] len
    show "bindD getInt32 k (rd pre ((be 4 (int (length s)) @ s @ t) @ post)) =
        Inr (Inr w, rd (pre @ be 4 (int (length s)) @ s @ t) post)"
      by (simp add: bindD_Inr)
  qed
  then show ?thesis using assms by (simp add: decodes_def)
qed

lemma length_Timestamp: "is_timestamp t \<Longrightarrow> length (wire (enc_Timestamp t)) = 8"
  by (auto simp: enc_Timestamp_def is_timestamp_def split: option.splits)

lemma length_batch_fields:
  "is_timestamp (rbt_FirstTimestamp b) \<Longrightarrow> is_timestamp (rbt_MaxTimestamp b) \<Longrightarrow> length (wire (batch_fields b)) = 36"
  by (simp add: batch_fields_def length_Timestamp)

lemma decodes_append_blocks:
  "decodes m (concat (xs @ [ys])) v \<Longrightarrow> decodes m (concat xs @ ys) v"
  by simp

lemma decodes_batch_tail:
  assumes "length rs \<le> length c" "n = int (length c)" "v = f (int (length rs)) (Some c)"
  shows "decodes (bindD getArrayLength (\<lambda>numRecs. bindD (optD (0 \<le> numRecs) () (makeD 8 numRecs)) (\<lambda>_.
      bindD (tryRawBytes n) (\<lambda>buf. returnD (f numRecs buf)))))
      (concat [[EArrayLength (int (length rs)), ERawBytes c]]) v"
proof (cases "int (length rs) \<le> 131070")
  case True
  have "decodes (bindD getArrayLength (\<lambda>numRecs. bindD (optD (0 \<le> numRecs) () (makeD 8 numRecs)) (\<lambda>_.
      bindD (tryRawBytes n) (\<lambda>buf. returnD (f numRecs buf)))))
      [EArrayLength (int (length rs)), ERawBytes c] v"
    by (rule decodes_count_tree)
       (use True assms in \<open>auto simp: optD_def intro!: decodes_make decodes_bind_Nil [OF decodes_tryRawBytes] decodes_return\<close>)
  then show ?thesis by simp
qed (simp add: decodes_def)

lemma decodes_batch_body:
  assumes canon: "canon_RecordBatch pack b" and c: "batch_payload pack b = Inr c"
  shows "decodes (dec_batch_body (rbt_FirstOffset b) (rbt_PartitionLeaderEpoch b) 2 (49 + int (length c)))
    (batch_fields b @ [EArrayLength (int (length (rbt_Records b))), ERawBytes c])
    (True, b\<lparr>rbt_CompressionLevel := 0, rbt_Records := [], rbt_recordsLen := 0\<rparr>, int (length (rbt_Records b)), Some c)"
  unfolding dec_batch_body_def batch_fields_def
  apply (rule decodes_append_blocks, unfold append_Cons append_Nil)
  apply (intro decodes_fields decodes_Timestamp [THEN decodes_block] decodes_batch_tail)
  using canon c attributes_codec [of b] by (simp_all add: canon_RecordBatch_def recordBatchOverhead_def)

lemma encodeE_ok:
  "tree_ok ts \<Longrightarrow> int (length (wire ts)) \<le> MaxRequestSize \<Longrightarrow> encodeE ts = Inr (wire ts)"
  by (simp add: encodeE_def encode_ok)

lemma decodes_batch_records:
  assumes canon: "canon_RecordBatch pack b" and c: "batch_payload pack b = Inr c" and l: "lossless pack unpack"
  shows "decodes (dec_batch_records unpack
      (b\<lparr>rbt_CompressionLevel := 0, rbt_Records := [], rbt_recordsLen := 0\<rparr>) (int (length (rbt_Records b))) c)
    [] (sent_RecordBatch b)"
proof -
  let ?rs = "rbt_Records b" and ?ts = "concat (map enc_Record (rbt_Records b))"
  have ts: "tree_ok ?ts" "int (length (wire ?ts)) \<le> MaxRequestSize" "rbt_compressedRecords b = None"
    "list_all canon_Record ?rs" using canon by (simp_all add: canon_RecordBatch_def)
  with c have "compress pack (rbt_Codec b) (rbt_CompressionLevel b) (wire ?ts) = Inr c"
    by (simp add: batch_payload_def encodeRecords_def encodeE_ok)
  with l have raw: "decompress unpack (rbt_Codec b) c = Inr (wire ?ts)" by (rule decompress_compress)
  have "decodes (loopD (length ?rs) dec_Record) ?ts (map sent_Record ?rs)"
    using ts(4) by (intro decodes_loop decodes_Record) (auto simp: list_all_iff)
  with ts have "decode (loopD (length ?rs) dec_Record) (wire ?ts) = Inr (Inr (map sent_Record ?rs))"
    by (intro decode_reads) (auto simp: decodes_def MaxRequestSize_def)
  with raw show ?thesis
    by (simp add: dec_batch_records_def decodes_def reads_def sent_RecordBatch_def)
qed

lemma decodes_RecordBatch:
  assumes canon: "canon_RecordBatch pack b" and l: "lossless pack unpack"
  shows "decodes (dec_RecordBatch unpack) (enc_RecordBatch pack b) (sent_RecordBatch b)"
proof -
  obtain c where c: "batch_payload pack b = Inr c"
    using canon by (auto simp: canon_RecordBatch_def split: sum.splits)
  let ?body = "batch_fields b @ [EArrayLength (int (length (rbt_Records b))), ERawBytes c]"
  let ?inner = "[EInt32 (rbt_PartitionLeaderEpoch b), EInt8 2, EFrame (FCrc crcCastagnoli) ?body]"
  have enc: "enc_RecordBatch pack b = [EInt64 (rbt_FirstOffset b), EFrame FLength ?inner]"
    using canon c by (simp add: enc_RecordBatch_def canon_RecordBatch_def)
  have len: "int (length (wire ?inner)) = 49 + int (length c)"
    using canon by (simp add: length_batch_fields canon_RecordBatch_def)
  have body: "decodes (frameOptD (FCrc crcCastagnoli) (\<lambda>_. dec_batch_body (rbt_FirstOffset b) (rbt_PartitionLeaderEpoch b) 2 (int (length (wire ?inner)))))
      [EFrame (FCrc crcCastagnoli) ?body]
      (True, b\<lparr>rbt_CompressionLevel := 0, rbt_Records := [], rbt_recordsLen := 0\<rparr>, int (length (rbt_Records b)), Some c)"
    unfolding len by (intro decodes_frameOpt decodes_batch_body [OF canon c]) simp
  show ?thesis
    unfolding dec_RecordBatch_def enc
    by (intro decodes_leaf_binds decodes_length_prefix, unfold append_Cons append_Nil)
       (intro decodes_leaf_binds decodes_bind_Nil [OF body], simp add: decodes_batch_records [OF canon c l])
qed

text \<open>
  The count of the records is checked against the bytes that are left, which are compressed: a batch with
  more records than compressed bytes is refused as incomplete.
\<close>

lemma getArrayLength_insufficient:
  assumes "0 \<le> n" "n < 2 ^ 31" "int (length post) < n" "int (length pre + 4 + length post) \<le> maxInt32"
  shows "\<exists>d. getArrayLength (rd pre (be 4 n @ post)) = Inr (Inl ErrInsufficientData, d)"
proof -
  have "getInt32 (rd pre (be 4 n @ post)) = Inr (Inr n, rd (pre @ be 4 n) post)"
    using assms by (intro readsD [OF reads_getInts(3)]) (auto simp: sint_ok_def)
  with assms(3) show ?thesis by (simp add: getArrayLength_def bindD_Inr insufficient_def)
qed

lemma guarded_tryRawBytes: "guarded P (tryRawBytes n)"
  using guarded_getRawBytes [of P n]
  by (auto simp: guarded_def tryRawBytes_def bindR_def split: sum.splits)

lemma yields_tryRawBytes: "yields (\<lambda>b. case b of None \<Rightarrow> True | Some c \<Rightarrow> is_packet c) (tryRawBytes n)"
  by (auto simp: yields_def tryRawBytes_def getRawBytes_def takeD_def slice_def insufficient_def rd_ok_def is_packet_def
      bindR_def split: if_splits)

lemma guarded_frameOptD:
  assumes "\<And>n. guarded P (m n)"
  shows "guarded P (frameOptD f m)"
  unfolding guarded_def frameOptD_def
proof (intro allI impI guarded_frame assms)
  fix d n d1 r d2
  assume d: "rd_ok d" and 1: "pushD f d = Inr (Inr n, d1)" "forward d d1" and 2: "forward d1 d2"
  from checkD_total [OF d 1 2]
  show "\<exists>r'. (case r of (ok, x) \<Rightarrow> if ok then bindD (checkD f (rd_off d) n) (\<lambda>_. returnD (ok, x)) else returnD (ok, x)) d2 = Inr (r', d2)"
    by (auto simp: bindD_def returnD_def split: sum.splits prod.splits)
qed

lemma yields_frameOptD:
  assumes "\<And>n. guarded P (m n)" "\<And>n. yields (\<lambda>(ok, x). Q x) (m n)"
  shows "yields (\<lambda>(ok, x). Q x) (frameOptD f m)"
  unfolding yields_def
proof (intro allI impI)
  fix d r d' assume d: "rd_ok d" and f: "frameOptD f m d = Inr (Inr r, d')"
  have "yields (\<lambda>(ok, x). Q x) (bindD (pushD f) (\<lambda>n. bindD (m n) (\<lambda>(ok, x).
      if ok then bindD (checkD f (rd_off d) n) (\<lambda>_. returnD (ok, x)) else returnD (ok, x))))"
    by (rule yields_bind [OF guarded_pushD], rule yields_bind_value [OF assms])
       (auto simp: yields_def bindD_def returnD_def bindR_def split: sum.splits if_splits)
  with d f show "case r of (ok, x) \<Rightarrow> Q x" by (auto simp: yields_def frameOptD_def)
qed

text \<open>The decoder of a batch panics only where a record asks for more headers than a slice can have.\<close>

lemma guarded_batch_records:
  assumes P: "P MakePanic" and small: "\<And>cc z raw. unpack cc z = Inr raw \<Longrightarrow> is_packet raw" and buf: "is_packet buf"
  shows "guarded P (dec_batch_records unpack b n buf)"
proof (cases "decompress unpack (rbt_Codec b) buf")
  case (Inr raw)
  have raw: "rd_ok \<lparr>rd_raw = raw, rd_off = 0\<rparr>"
    using Inr buf small by (auto simp: decompress_def rd_ok_def split: if_splits)
  have "guarded P (loopD (nat n) dec_Record)" using P by (intro guarded_loopD guarded_Record)
  then have "case decode (loopD (nat n) dec_Record) raw of Inl p \<Rightarrow> P p | Inr r \<Rightarrow> True"
    by (rule guardedD [OF _ raw]) (auto simp: decode_def)
  then show ?thesis
    by (auto simp: dec_batch_records_def Inr guarded_def forward_refl bindR_def split: sum.splits)
qed (simp add: dec_batch_records_def guarded_return)

lemma RecordBatch_split:
  assumes P: "P MakePanic" and small: "\<And>cc z raw. unpack cc z = Inr raw \<Longrightarrow> is_packet raw"
  obtains K where "dec_RecordBatch unpack = bindD getInt64 K" "\<And>FirstOffset. guarded P (K FirstOffset)"
proof
  let ?Q = "\<lambda>(b :: RecordBatch, n :: int, buf). case buf of None \<Rightarrow> True | Some c \<Rightarrow> is_packet c"
  have body: "guarded P (dec_batch_body fo ep v l)" for fo ep v l
    unfolding dec_batch_body_def
    by (intro guarded_intros guarded_Timestamp guarded_tryRawBytes guarded_makeD) (simp add: P)
  have batch: "guarded P (dec_batch_records unpack b n buf)" if "is_packet buf" for b n buf
    using P small that by (rule guarded_batch_records)
  have yields: "yields (\<lambda>(ok, x). ?Q x) (dec_batch_body fo ep v l)" for fo ep v l
    unfolding dec_batch_body_def
    by (intro yields_bind [where P = P] guarded_intros guarded_Timestamp guarded_makeD
          yields_bind_value [OF guarded_tryRawBytes [of P] yields_tryRawBytes] yields_return) (auto simp: P)
  have "guarded P (bindD (frameOptD (FCrc crcCastagnoli) (\<lambda>_. dec_batch_body fo ep v l))
     (\<lambda>(_, b, numRecs, recBuffer). case recBuffer of None \<Rightarrow> returnD b | Some buf \<Rightarrow> dec_batch_records unpack b numRecs buf))"
    for fo ep v l
    by (rule guarded_bind_value [OF guarded_frameOptD [OF body] yields_frameOptD [where Q = ?Q, OF body yields]])
       (auto simp: guarded_return batch split: option.splits)
  then show "guarded P (bindD getInt32 (\<lambda>batchLen.
     bindD getInt32 (\<lambda>PartitionLeaderEpoch.
     bindD getInt8 (\<lambda>Version.
     bindD (frameOptD (FCrc crcCastagnoli) (\<lambda>_. dec_batch_body FirstOffset PartitionLeaderEpoch Version batchLen))
       (\<lambda>(_, b, numRecs, recBuffer).
     (case recBuffer of None \<Rightarrow> returnD b | Some buf \<Rightarrow> dec_batch_records unpack b numRecs buf))))))" for FirstOffset
    by (intro guarded_bind [OF guarded_getInts(3)] guarded_bind [OF guarded_getInts(1)])
qed (simp add: dec_RecordBatch_def)

lemma guarded_RecordBatch:
  "P MakePanic \<Longrightarrow> (\<And>cc z raw. unpack cc z = Inr raw \<Longrightarrow> is_packet raw) \<Longrightarrow> guarded P (dec_RecordBatch unpack)"
  by (rule RecordBatch_split [where P = P and unpack = unpack]) (auto intro: guarded_bind guarded_getInts)

end
