(* ===== verification/Kafka_Message_Set.thy ===== *)
theory Kafka_Message_Set
  imports Kafka_Records
begin

section \<open>The message sets of the old protocol\<close>

text \<open>
  message.go and message_set.go. A message with a codec wraps a compressed set of messages, so the three
  types refer to each other, and so do their decoders: \<open>dec_Message\<close> takes the number of nested calls the stack has
  room for, and ends in \<open>StackOverflow\<close> when a message nests deeper. The fields \<open>compressedCache\<close>, which hands
  the payload of the first pass of the encoder to the second, and \<open>compressedSize\<close>, which only feeds the
  metrics, have no counterpart.
\<close>

datatype Message = Message
    (msg_Codec: int) (msg_CompressionLevel: int) (msg_LogAppendTime: bool)
    (msg_Key: "string option") (msg_Value: "string option") (msg_Set: "MessageSet option")
    (msg_Version: int) (msg_Timestamp: gotime)
and MessageBlock = MessageBlock (msb_Offset: int) (msb_Msg: Message)
and MessageSet = MessageSet
    (ms_PartialTrailingMessage: bool) (ms_OverflowMessage: bool) (ms_Messages: "MessageBlock list")

definition block_Messages :: "MessageBlock \<Rightarrow> MessageBlock list" where
  "block_Messages msb = (case msg_Set (msb_Msg msb) of Some s \<Rightarrow> ms_Messages s | None \<Rightarrow> [msb])"

definition addMessage :: "Message \<Rightarrow> MessageSet \<Rightarrow> MessageSet" where
  "addMessage m s =
     MessageSet (ms_PartialTrailingMessage s) (ms_OverflowMessage s) (ms_Messages s @ [MessageBlock 0 m])"

subsection \<open>Encoding\<close>

definition message_attributes :: "Message \<Rightarrow> int" where
  "message_attributes m =
     (let attributes = msg_Codec m AND 7 in if msg_LogAppendTime m then attributes OR 8 else attributes)"

definition message_payload :: "packer \<Rightarrow> Message \<Rightarrow> kerror + string option" where
  "message_payload pack m =
     (case msg_Value m of
        None \<Rightarrow> Inr None
      | Some v \<Rightarrow> bindR (compress pack (msg_Codec m) (msg_CompressionLevel m) v) (\<lambda>p. Inr (Some p)))"

definition message_body :: "packer \<Rightarrow> Message \<Rightarrow> etree list" where
  "message_body pack m =
     concat [[EInt8 (msg_Version m), EInt8 (message_attributes m)],
       eopt (1 \<le> msg_Version m) (enc_Timestamp (msg_Timestamp m)),
       [EBytes (msg_Key m), (case message_payload pack m of Inl e \<Rightarrow> EFail e | Inr p \<Rightarrow> EBytes p)]]"

definition enc_Message :: "packer \<Rightarrow> Message \<Rightarrow> etree list" where
  "enc_Message pack m = [EFrame (FCrc crcIEEE) (message_body pack m)]"

definition enc_MessageBlock :: "packer \<Rightarrow> MessageBlock \<Rightarrow> etree list" where
  "enc_MessageBlock pack msb = [EInt64 (msb_Offset msb), EFrame FLength (enc_Message pack (msb_Msg msb))]"

definition enc_MessageSet :: "packer \<Rightarrow> MessageSet \<Rightarrow> etree list" where
  "enc_MessageSet pack s = concat (map (enc_MessageBlock pack) (ms_Messages s))"

subsection \<open>Decoding\<close>

text \<open>A call whose error the caller looks at.\<close>

definition catchD :: "'a dec \<Rightarrow> (kerror + 'a) dec" where
  "catchD m d = bindR (m d) (\<lambda>(r, d'). Inr (Inr r, d'))"

definition magicValue :: "int dec" where
  "magicValue = peekInt8 16"

text \<open>
  The block keeps its offset when the rest of it fails; when the offset itself is missing, \<open>getInt64\<close> leaves -1
  there.
\<close>

definition dec_MessageBlock :: "Message dec \<Rightarrow> (int \<times> (kerror + MessageBlock)) dec" where
  "dec_MessageBlock msg =
     bindD (catchD getInt64) (\<lambda>r. case r of
        Inl e \<Rightarrow> returnD (-1, Inl e)
      | Inr Offset \<Rightarrow> bindD (catchD (frameD FLength (\<lambda>_. msg))) (\<lambda>r.
          returnD (Offset, case r of Inl e \<Rightarrow> Inl e | Inr m \<Rightarrow> Inr (MessageBlock Offset m))))"

fun set_loop :: "nat \<Rightarrow> Message dec \<Rightarrow> MessageBlock list \<Rightarrow> MessageSet dec" where
  "set_loop fuel msg bs d =
     (if remaining d \<le> 0 then Inr (Inr (MessageSet False False bs), d)
      else case fuel of
        0 \<Rightarrow> Inl Blocked
      | Suc n \<Rightarrow>
          bindD (catchD magicValue) (\<lambda>r. case r of
             Inl e \<Rightarrow> if e = ErrInsufficientData then returnD (MessageSet True False bs) else failD e
           | Inr magic \<Rightarrow>
               if 1 < magic then returnD (MessageSet False False bs)
               else bindD (dec_MessageBlock msg) (\<lambda>(Offset, r). case r of
                   Inr msb \<Rightarrow> set_loop n msg (bs @ [msb])
                 | Inl e \<Rightarrow>
                     if e = ErrInsufficientData
                     then returnD (if Offset = -1 then MessageSet False True bs else MessageSet True False bs)
                     else failD e)) d)"

declare set_loop.simps [simp del]

text \<open>Every turn of the loop passes a byte, so as many turns as there are bytes are enough.\<close>

definition dec_set :: "Message dec \<Rightarrow> MessageSet dec" where
  "dec_set msg d = set_loop (nat (remaining d)) msg [] d"

definition message_value :: "unpacker \<Rightarrow> MessageSet dec \<Rightarrow> int \<Rightarrow> string option \<Rightarrow> (string option \<times> MessageSet option) dec" where
  "message_value unpack decodeSet Codec Value =
     (case Value of
        None \<Rightarrow> returnD (None, None)
      | Some v \<Rightarrow>
          if Codec = 0 then returnD (Some v, None)
          else case decompress unpack Codec v of
            Inl e \<Rightarrow> failD e
          | Inr raw \<Rightarrow> bindD (subsetD decodeSet raw) (\<lambda>s. returnD (Some raw, Some s)))"

fun dec_Message :: "unpacker \<Rightarrow> nat \<Rightarrow> Message dec" where
  "dec_Message unpack 0 = (\<lambda>d. Inl StackOverflow)"
| "dec_Message unpack (Suc depth) =
     frameD (FCrc crcIEEE) (\<lambda>_.
       bindD getInt8 (\<lambda>Version.
       if 1 < Version then failD (PacketDecodingError (''unknown magic byte ('' @ Itoa Version @ '')''))
       else
         bindD getInt8 (\<lambda>attribute.
         bindD (optD (Version = 1) None dec_Timestamp) (\<lambda>Timestamp.
         bindD getBytes (\<lambda>Key.
         bindD getBytes (\<lambda>Value.
         bindD (message_value unpack (dec_set (dec_Message unpack depth)) (attribute AND 7) Value) (\<lambda>(Value, Set).
         returnD (Message (attribute AND 7) 0 (attribute AND 8 = 8) Key Value Set Version Timestamp))))))))"

definition dec_MessageSet :: "unpacker \<Rightarrow> nat \<Rightarrow> MessageSet dec" where
  "dec_MessageSet unpack depth = dec_set (dec_Message unpack depth)"

subsection \<open>Arbitrary bytes\<close>

lemma guarded_catchD: "guarded P m \<Longrightarrow> guarded P (catchD m)"
  by (fastforce simp: guarded_def catchD_def bindR_def split: sum.splits prod.splits)

lemma catchD_ok: "catchD m d \<noteq> Inr (Inl e, d')"
  by (auto simp: catchD_def bindR_def split: sum.splits)

lemma guarded_MessageBlock: "guarded P msg \<Longrightarrow> guarded P (dec_MessageBlock msg)"
  unfolding dec_MessageBlock_def
  by (intro guarded_bind guarded_catchD guarded_intros)
     (auto split: sum.splits intro!: guarded_intros guarded_catchD)

lemma getInt64_moves: "getInt64 d = Inr (Inr x, d') \<Longrightarrow> rd_off d' = rd_off d + 8"
  by (auto simp: getInt64_def getInt_def getUint_def insufficient_def bindD_def takeD_def returnD_def bindR_def
      split: sum.splits prod.splits if_splits)

lemma MessageBlock_moves:
  assumes "guarded P msg" "rd_ok d" "dec_MessageBlock msg d = Inr (Inr (Offset, Inr msb), d')"
  shows "rd_off d < rd_off d'"
proof -
  from assms(3) obtain d1 where 1: "getInt64 d = Inr (Inr (msb_Offset msb), d1)"
    and 2: "\<exists>m. frameD FLength (\<lambda>_. msg) d1 = Inr (Inr m, d')"
    by (auto simp: dec_MessageBlock_def bindD_def catchD_def returnD_def bindR_def split: sum.splits prod.splits)
  have f1: "forward d d1" by (rule guardedD [OF guarded_getInts(4) assms(2), of "\<lambda>_. False"]) (use 1 in auto)
  have "forward d1 d'"
    by (rule guardedD [OF guarded_frameD [OF assms(1)] forward_ok [OF assms(2) f1], of FLength])
       (use 2 in auto)
  with getInt64_moves [OF 1] show ?thesis by (simp add: forward_def)
qed

lemma magic_peek: "guarded P magicValue"
  unfolding magicValue_def by (rule guarded_peekInt8) simp

lemma catch_magic: "rd_ok d \<Longrightarrow> \<exists>r. catchD magicValue d = Inr (Inr r, d)"
  by (cases "remaining d < 17")
     (auto simp: catchD_def magicValue_def peekInt8_def get_at_def rd_ok_def remaining_def)

lemma set_loop_guarded:
  assumes "guarded P msg"
  shows "rd_ok d \<Longrightarrow> remaining d \<le> int fuel \<Longrightarrow>
    (case set_loop fuel msg bs d of Inl p \<Rightarrow> P p | Inr (r, d') \<Rightarrow> forward d d')"
proof (induction fuel arbitrary: bs d)
  case 0
  then show ?case by (simp add: set_loop.simps forward_refl)
next
  case (Suc n)
  show ?case
  proof (cases "remaining d \<le> 0")
    case True
    with Suc.prems show ?thesis by (simp add: set_loop.simps forward_refl)
  next
    case False
    obtain r where r: "catchD magicValue d = Inr (Inr r, d)"
      using catch_magic [OF Suc.prems(1)] by blast
    show ?thesis
    proof (rule guardedD [OF guarded_MessageBlock [OF assms] Suc.prems(1)])
      fix q d1 assume b: "dec_MessageBlock msg d = Inr (q, d1)" and f: "forward d d1"
      have ok: "rd_ok d1" using Suc.prems(1) f by (rule forward_ok)
      have more: "case set_loop n msg (bs @ [msb]) d1 of Inl p \<Rightarrow> P p | Inr (r, d') \<Rightarrow> forward d d'"
        if "q = Inr (Offset, Inr msb)" for Offset msb
      proof -
        have "rd_off d < rd_off d1" using MessageBlock_moves [OF assms Suc.prems(1)] b that by blast
        then have "remaining d1 \<le> int n" using Suc.prems(2) f by (simp add: remaining_def forward_def)
        from Suc.IH [OF ok this, of "bs @ [msb]"] f show ?thesis
          by (auto split: sum.splits intro: forward_trans)
      qed
      show ?thesis using False r b f more Suc.prems(1)
        by (auto simp: set_loop.simps bindD_def returnD_def failD_def forward_refl split: sum.splits prod.splits)
    qed (use False r Suc.prems(1) in \<open>auto simp: set_loop.simps bindD_def returnD_def failD_def forward_refl split: sum.splits\<close>)
  qed
qed

lemma guarded_set: "guarded P msg \<Longrightarrow> guarded P (dec_set msg)"
  unfolding guarded_def [where m = "dec_set msg"] dec_set_def
  by (auto intro!: set_loop_guarded simp: rd_ok_def remaining_def)

lemma guarded_message_value:
  assumes "guarded P decodeSet" "\<And>cc z raw. unpack cc z = Inr raw \<Longrightarrow> is_packet raw" "Value \<noteq> None \<longrightarrow> is_packet (the Value)"
  shows "guarded P (message_value unpack decodeSet Codec Value)"
  using assms(2,3)
  by (auto simp: message_value_def decompress_def split: option.splits sum.splits if_splits
      intro!: guarded_intros guarded_subsetD assms(1))

lemma yields_getBytes: "yields (\<lambda>b. b \<noteq> None \<longrightarrow> is_packet (the b)) getBytes"
  unfolding getBytes_def
  by (rule yields_bind [OF guarded_getInts(3) [where P = "\<lambda>_. False"]])
     (auto simp: yields_def bindD_def returnD_def getRawBytes_def takeD_def slice_def insufficient_def rd_ok_def is_packet_def
       bindR_def split: if_splits)

lemma guarded_Message:
  assumes P: "P MakePanic" "P StackOverflow" and small: "\<And>cc z raw. unpack cc z = Inr raw \<Longrightarrow> is_packet raw"
  shows "guarded P (dec_Message unpack depth)"
proof (induction depth)
  case 0
  then show ?case using P by (simp add: guarded_def)
next
  case (Suc depth)
  have val: "guarded P (message_value unpack (dec_set (dec_Message unpack depth)) cc v)"
    if "v \<noteq> None \<longrightarrow> is_packet (the v)" for cc v
    using guarded_set [OF Suc] small that by (rule guarded_message_value)
  have tail: "guarded P (bindD getBytes (\<lambda>v. bindD (message_value unpack (dec_set (dec_Message unpack depth)) cc v) k))"
    if "\<And>x. guarded P (k x)" for cc and k :: "_ \<Rightarrow> Message dec"
    by (rule guarded_bind_value [OF guarded_getBytes(1) yields_getBytes]) (intro guarded_bind val that)
  show ?case
    unfolding dec_Message.simps
    by (rule guarded_frameD, rule guarded_bind [OF guarded_getInts(1)], rule guarded_if [OF guarded_return(2)],
        rule guarded_bind [OF guarded_getInts(1)], rule guarded_bind [OF guarded_optD [OF guarded_Timestamp]],
        rule guarded_bind [OF guarded_getBytes(1)], rule tail) (auto intro!: guarded_return split: prod.splits)
qed

lemma guarded_MessageSet:
  "P MakePanic \<Longrightarrow> P StackOverflow \<Longrightarrow> (\<And>cc z raw. unpack cc z = Inr raw \<Longrightarrow> is_packet raw) \<Longrightarrow>
    guarded P (dec_MessageSet unpack depth)"
  unfolding dec_MessageSet_def by (intro guarded_set guarded_Message)

subsection \<open>Round trip\<close>

text \<open>
  \<open>sent_Message\<close>: the decoder does not know the compression level, and a message of version 0 has no timestamp.
  \<open>canon_Message\<close>: a message as the producer builds it, nested at most \<open>depth\<close> deep: the value of a message
  with a codec is the encoding of the set it wraps.
\<close>

primrec sent_Message :: "Message \<Rightarrow> Message"
  and sent_MessageBlock :: "MessageBlock \<Rightarrow> MessageBlock"
  and sent_MessageSet :: "MessageSet \<Rightarrow> MessageSet" where
  "sent_Message (Message cc level lat key val s version ts) =
     Message cc 0 lat key val (map_option sent_MessageSet s) version (if 1 \<le> version then ts else None)"
| "sent_MessageBlock (MessageBlock offset m) = MessageBlock offset (sent_Message m)"
| "sent_MessageSet (MessageSet partial overflow bs) = MessageSet partial overflow (map sent_MessageBlock bs)"

fun canon_Message :: "packer \<Rightarrow> nat \<Rightarrow> Message \<Rightarrow> bool" where
  "canon_Message pack 0 m = False"
| "canon_Message pack (Suc depth) m =
     (msg_Version m \<le> 1 \<and> 0 \<le> msg_Codec m \<and> msg_Codec m \<le> 4 \<and> is_timestamp (msg_Timestamp m) \<and>
      (case msg_Set m of
         None \<Rightarrow> msg_Codec m = 0 \<or> msg_Value m = None
       | Some s \<Rightarrow> msg_Codec m \<noteq> 0 \<and> \<not> ms_PartialTrailingMessage s \<and> \<not> ms_OverflowMessage s \<and>
           list_all (\<lambda>b. canon_Message pack depth (msb_Msg b)) (ms_Messages s) \<and>
           tree_ok (enc_MessageSet pack s) \<and> int (length (wire (enc_MessageSet pack s))) \<le> MaxRequestSize \<and>
           msg_Value m = Some (wire (enc_MessageSet pack s))))"

definition canon_MessageSet :: "packer \<Rightarrow> nat \<Rightarrow> MessageSet \<Rightarrow> bool" where
  "canon_MessageSet pack depth s \<longleftrightarrow>
     \<not> ms_PartialTrailingMessage s \<and> \<not> ms_OverflowMessage s \<and>
     list_all (\<lambda>b. canon_Message pack depth (msb_Msg b)) (ms_Messages s)"

lemma message_attributes_ok:
  assumes "0 \<le> msg_Codec m" "msg_Codec m \<le> 4"
  shows "message_attributes m AND 7 = msg_Codec m" "(message_attributes m AND 8 = 8) = msg_LogAppendTime m"
proof -
  have "msg_Codec m = 0 \<or> msg_Codec m = 1 \<or> msg_Codec m = 2 \<or> msg_Codec m = 3 \<or> msg_Codec m = 4" using assms by arith
  then show "message_attributes m AND 7 = msg_Codec m" "(message_attributes m AND 8 = 8) = msg_LogAppendTime m"
    by (elim disjE; cases "msg_LogAppendTime m"; simp add: message_attributes_def Let_def)+
qed

text \<open>A set ends at the end of the buffer or before a record batch, whose magic is above 1.\<close>

definition set_ends :: "string \<Rightarrow> bool" where
  "set_ends post \<longleftrightarrow> post = [] \<or> 16 < length post \<and> 1 < swrap 8 (rn (post ! 16))"

lemma magicValue_rd:
  "16 < length post \<Longrightarrow> magicValue (rd pre post) = Inr (Inr (swrap 8 (rn (post ! 16))), rd pre post)"
  by (simp add: magicValue_def peekInt8_def get_at_def nth_append nat_add_distrib)

lemma catchD_Inr: "m d = Inr (r, d') \<Longrightarrow> bindD (catchD m) k d = k r d'"
  by (simp add: bindD_def catchD_def)

lemma MessageBlock_wire:
  "wire (enc_MessageBlock pack b) = be 8 (msb_Offset b) @ be 4 (int (length (wire (enc_Message pack (msb_Msg b))))) @
     be 4 (crc32 crcIEEE (wire (message_body pack (msb_Msg b)))) @ wire (message_body pack (msb_Msg b))"
  by (simp add: enc_MessageBlock_def enc_Message_def)

lemma MessageBlock_magic:
  assumes "sint_ok 8 (msg_Version (msb_Msg b))"
  shows "16 < length (wire (enc_MessageBlock pack b)) \<and>
    swrap 8 (rn (wire (enc_MessageBlock pack b) ! 16)) = msg_Version (msb_Msg b)"
proof -
  let ?v = "msg_Version (msb_Msg b)"
  obtain t where t: "wire (message_body pack (msb_Msg b)) = be 1 ?v @ t" by (simp add: message_body_def del: be.simps)
  have "be 1 ?v = [byte (?v mod 256)]" by simp
  with t signed_be [of 1 ?v] assms show ?thesis by (simp add: MessageBlock_wire nth_append unbe_def)
qed

lemma decodes_unless: "\<not> c \<Longrightarrow> decodes m ts v \<Longrightarrow> decodes (if c then m' else m) ts v"
  by simp

lemma catch_magic_rd:
  "16 < length post \<Longrightarrow> bindD (catchD magicValue) k (rd pre post) = k (Inr (swrap 8 (rn (post ! 16)))) (rd pre post)"
  by (simp add: bindD_def catchD_def magicValue_rd)

lemma decodes_catch: "decodes m ts v \<Longrightarrow> decodes (catchD m) ts (Inr v)"
  by (auto simp: decodes_def reads_def catchD_def)

lemma decodes_MessageBlock:
  assumes "decodes msg (enc_Message pack (msb_Msg b)) (sent_Message (msb_Msg b))"
  shows "decodes (dec_MessageBlock msg) (enc_MessageBlock pack b) (msb_Offset b, Inr (sent_MessageBlock b))"
proof -
  have "decodes (catchD (frameD FLength (\<lambda>_. msg))) [EFrame FLength (enc_Message pack (msb_Msg b))] (Inr (sent_Message (msb_Msg b)))"
    using assms by (intro decodes_catch decodes_frame) simp_all
  then show ?thesis
    unfolding dec_MessageBlock_def enc_MessageBlock_def
    by (rule_tac decodes_leaf_bind [OF decodes_catch [OF decodes_leaves(4)]])
       (auto intro!: decodes_bind_Nil decodes_return, cases b, auto)
qed

lemma set_loop_rd:
  assumes el: "\<And>b. b \<in> set bs \<Longrightarrow> reads (dec_MessageBlock msg) (w b) (msb_Offset b, Inr (g b))"
    and magic: "\<And>b. b \<in> set bs \<Longrightarrow> 16 < length (w b) \<and> swrap 8 (rn (w b ! 16)) \<le> 1"
    and stop: "set_ends post"
  shows "length (concat (map w bs)) + length post \<le> fuel \<Longrightarrow>
    int (length pre + length (concat (map w bs)) + length post) \<le> maxInt32 \<Longrightarrow>
    set_loop fuel msg acc (rd pre (concat (map w bs) @ post)) =
      Inr (Inr (MessageSet False False (acc @ map g bs)), rd (pre @ concat (map w bs)) post)"
  using el magic
proof (induction bs arbitrary: fuel pre acc)
  case Nil
  show ?case
  proof (cases "post = []")
    case False
    then obtain n where "fuel = Suc n" using Nil by (cases fuel) auto
    with False stop show ?thesis
      by (simp add: set_loop.simps set_ends_def catch_magic_rd returnD_def)
  qed (simp add: set_loop.simps)
next
  case (Cons b bs)
  let ?t = "concat (map w bs) @ post"
  from Cons.prems(4) [of b] have m: "16 < length (w b)" "swrap 8 (rn (w b ! 16)) \<le> 1" by auto
  obtain n where n: "fuel = Suc n" using Cons.prems(1) m by (cases fuel) auto
  have fits: "length (concat (map w bs)) + length post \<le> n" using Cons.prems(1) n m by simp
  have r: "dec_MessageBlock msg (rd pre (w b @ ?t)) = Inr (Inr (msb_Offset b, Inr (g b)), rd (pre @ w b) ?t)"
    using Cons.prems(2,3) by (intro readsD) auto
  have "set_loop n msg (acc @ [g b]) (rd (pre @ w b) ?t) =
      Inr (Inr (MessageSet False False ((acc @ [g b]) @ map g bs)), rd ((pre @ w b) @ concat (map w bs)) post)"
    using Cons.prems fits by (intro Cons.IH) auto
  moreover have "(w b @ ?t) ! 16 = w b ! 16" using m by (simp add: nth_append)
  ultimately show ?case using m r n
    by (simp add: set_loop.simps catch_magic_rd bindD_Inr)
qed

lemma set_rd:
  assumes msg: "\<And>b. b \<in> set (ms_Messages s) \<Longrightarrow> decodes msg (enc_Message pack (msb_Msg b)) (sent_Message (msb_Msg b))"
    and v: "\<And>b. b \<in> set (ms_Messages s) \<Longrightarrow> msg_Version (msb_Msg b) \<le> 1"
    and flags: "\<not> ms_PartialTrailingMessage s" "\<not> ms_OverflowMessage s"
    and ok: "tree_ok (enc_MessageSet pack s)" and stop: "set_ends post"
    and len: "int (length pre + length (wire (enc_MessageSet pack s)) + length post) \<le> maxInt32"
  shows "dec_set msg (rd pre (wire (enc_MessageSet pack s) @ post)) =
    Inr (Inr (sent_MessageSet s), rd (pre @ wire (enc_MessageSet pack s)) post)"
proof -
  let ?w = "\<lambda>b. wire (enc_MessageBlock pack b)"
  have w: "wire (enc_MessageSet pack s) = concat (map ?w (ms_Messages s))" by (simp add: enc_MessageSet_def wire_concat)
  have ok': "tree_ok (enc_MessageBlock pack b)" if "b \<in> set (ms_Messages s)" for b
    using ok that by (auto simp: enc_MessageSet_def tree_ok_concat)
  have el: "reads (dec_MessageBlock msg) (?w b) (msb_Offset b, Inr (sent_MessageBlock b))" if "b \<in> set (ms_Messages s)" for b
    using decodes_MessageBlock [OF msg [OF that]] ok' [OF that] by (simp add: decodes_def)
  have "sint_ok 8 (msg_Version (msb_Msg b))" if "b \<in> set (ms_Messages s)" for b
    using ok' [OF that] by (simp add: enc_MessageBlock_def enc_Message_def message_body_def)
  then have mg: "16 < length (?w b) \<and> swrap 8 (rn (?w b ! 16)) \<le> 1" if "b \<in> set (ms_Messages s)" for b
    using MessageBlock_magic v that by simp
  have "sent_MessageSet s = MessageSet False False (map sent_MessageBlock (ms_Messages s))"
    using flags by (cases s) simp
  with set_loop_rd [OF el mg stop, of "ms_Messages s" "length (wire (enc_MessageSet pack s) @ post)" pre "[]"] len
  show ?thesis by (simp add: dec_set_def w nat_add_distrib)
qed

lemma decodes_message_value:
  assumes l: "lossless pack unpack" and p: "message_payload pack m = Inr p" and cc: "msg_Codec m \<noteq> 0"
    and s: "msg_Set m = Some s" "msg_Value m = Some (wire (enc_MessageSet pack s))"
    and set: "decodeSet (rd [] (wire (enc_MessageSet pack s))) = Inr (Inr (sent_MessageSet s), d)"
  shows "decodes (message_value unpack decodeSet (msg_Codec m) p) [] (msg_Value m, map_option sent_MessageSet (msg_Set m))"
proof -
  from p s obtain c where c: "p = Some c" "compress pack (msg_Codec m) (msg_CompressionLevel m) (wire (enc_MessageSet pack s)) = Inr c"
    by (auto simp: message_payload_def bindR_def split: sum.splits)
  from decompress_compress [OF l c(2)] set s cc show ?thesis
    by (simp add: message_value_def c(1) decodes_def reads_def bindD_def subsetD_def rd_def returnD_def)
qed

lemma canon_version: "canon_Message pack depth m \<Longrightarrow> msg_Version m \<le> 1"
  by (cases depth) simp_all

lemma decodes_Message:
  assumes l: "lossless pack unpack"
  shows "canon_Message pack depth m \<Longrightarrow> decodes (dec_Message unpack depth) (enc_Message pack m) (sent_Message m)"
proof (induction depth arbitrary: m)
  case (Suc depth)
  show ?case
  proof (cases "message_payload pack m")
    case (Inl e)
    then show ?thesis by (simp add: decodes_def enc_Message_def message_body_def)
  next
    case (Inr p)
    have canon: "msg_Version m \<le> 1" "0 \<le> msg_Codec m" "msg_Codec m \<le> 4" "is_timestamp (msg_Timestamp m)"
      using Suc.prems by simp_all
    have val: "decodes (message_value unpack (dec_set (dec_Message unpack depth)) (msg_Codec m) p) []
        (msg_Value m, map_option sent_MessageSet (msg_Set m))"
    proof (cases "msg_Set m")
      case None
      with Suc.prems Inr show ?thesis
        by (auto simp: message_value_def message_payload_def compress_def bindR_def decodes_return split: option.splits)
    next
      case (Some s)
      with Suc.prems have s: "msg_Codec m \<noteq> 0" "canon_MessageSet pack depth s" "tree_ok (enc_MessageSet pack s)"
        "int (length (wire (enc_MessageSet pack s))) \<le> MaxRequestSize" "msg_Value m = Some (wire (enc_MessageSet pack s))"
        by (auto simp: canon_MessageSet_def)
      have "dec_set (dec_Message unpack depth) (rd [] (wire (enc_MessageSet pack s) @ [])) =
          Inr (Inr (sent_MessageSet s), rd ([] @ wire (enc_MessageSet pack s)) [])"
        using s by (intro set_rd Suc.IH) (auto simp: canon_MessageSet_def list_all_iff canon_version MaxRequestSize_def set_ends_def)
      with Some s show ?thesis by (intro decodes_message_value [OF l Inr]) auto
    qed
    have ts: "decodes (optD (msg_Version m = 1) None dec_Timestamp) (eopt (1 \<le> msg_Version m) (enc_Timestamp (msg_Timestamp m)))
        (if 1 \<le> msg_Version m then msg_Timestamp m else None)"
      using canon by (auto simp: optD_def eopt_def decodes_return intro: decodes_Timestamp)
    have attr: "message_attributes m AND 7 = msg_Codec m" "(message_attributes m AND 8 = 8) = msg_LogAppendTime m"
      using canon by (simp_all add: message_attributes_ok)
    note val' = val [folded attr(1)]
    have "decodes (dec_Message unpack (Suc depth)) [EFrame (FCrc crcIEEE) (message_body pack m)] (sent_Message m)"
      unfolding dec_Message.simps message_body_def Inr sum.case
      apply (rule decodes_frame)
       apply (intro decodes_leaves(1,7) [THEN decodes_field] decodes_unless decodes_Nil_block decodes_block [OF ts])
        apply (use canon in simp)
      apply (unfold concat.simps)
       apply (rule decodes_bind_Nil [OF val'])
      apply (simp only: prod.case)
       apply (rule decodes_return)
       apply (cases m)
      apply (use attr in simp)
      apply simp
      done
    then show ?thesis by (simp add: enc_Message_def)
  qed
qed simp

end
