(* ===== verification/Kafka_Produce_Fetch.thy ===== *)
theory Kafka_Produce_Fetch
  imports Kafka_Message_Set
begin

section \<open>Producing and fetching records\<close>

text \<open>
  records.go is the union of the two record formats, control_record.go the end marker of a transaction,
  produce_request.go, produce_response.go and fetch_response.go the messages that carry records.
\<close>

subsection \<open>The union of the two formats (records.go)\<close>

record Records =
  rcs_recordsType :: int
  rcs_MsgSet :: "MessageSet option"
  rcs_RecordBatch :: "RecordBatch option"

abbreviation (input) "unknownRecords \<equiv> (0 :: int)"
abbreviation (input) "legacyRecords \<equiv> (1 :: int)"
abbreviation (input) "defaultRecords \<equiv> (2 :: int)"

definition no_records :: Records where
  "no_records = \<lparr>rcs_recordsType = unknownRecords, rcs_MsgSet = None, rcs_RecordBatch = None\<rparr>"

definition newLegacyRecords :: "MessageSet option \<Rightarrow> Records" where
  "newLegacyRecords s = \<lparr>rcs_recordsType = legacyRecords, rcs_MsgSet = s, rcs_RecordBatch = None\<rparr>"

definition newDefaultRecords :: "RecordBatch option \<Rightarrow> Records" where
  "newDefaultRecords b = \<lparr>rcs_recordsType = defaultRecords, rcs_MsgSet = None, rcs_RecordBatch = b\<rparr>"

definition setTypeFromFields :: "Records \<Rightarrow> kerror + bool \<times> Records" where
  "setTypeFromFields r =
     (if rcs_MsgSet r = None \<and> rcs_RecordBatch r = None then Inr (True, r)
      else if rcs_MsgSet r \<noteq> None \<and> rcs_RecordBatch r \<noteq> None
      then Inl (ErrorString ''both MsgSet and RecordBatch are set, but record type is unknown'')
      else Inr (False, r\<lparr>rcs_recordsType := if rcs_MsgSet r \<noteq> None then legacyRecords else defaultRecords\<rparr>))"

text \<open>The first lines of the operations: the type is found from the fields when it is not known.\<close>

definition find_type :: "Records \<Rightarrow> kerror + bool \<times> Records" where
  "find_type r = (if rcs_recordsType r = unknownRecords then setTypeFromFields r else Inr (False, r))"

definition unknown_type :: "Records \<Rightarrow> kerror" where
  "unknown_type r = ErrorString (''unknown records type: '' @ Itoa (rcs_recordsType r))"

definition enc_Records :: "packer \<Rightarrow> Records \<Rightarrow> etree list" where
  "enc_Records pack r =
     (case find_type r of
        Inl e \<Rightarrow> [EFail e]
      | Inr (none, r) \<Rightarrow>
          if none then []
          else if rcs_recordsType r = legacyRecords
          then (case rcs_MsgSet r of None \<Rightarrow> [] | Some s \<Rightarrow> enc_MessageSet pack s)
          else if rcs_recordsType r = defaultRecords
          then (case rcs_RecordBatch r of None \<Rightarrow> [] | Some b \<Rightarrow> enc_RecordBatch pack b)
          else [EFail (unknown_type r)])"

definition setTypeFromMagic :: "Records \<Rightarrow> Records dec" where
  "setTypeFromMagic r =
     bindD magicValue (\<lambda>magic.
       returnD (r\<lparr>rcs_recordsType := if magic < 2 then legacyRecords else defaultRecords\<rparr>))"

definition dec_Records :: "unpacker \<Rightarrow> nat \<Rightarrow> Records \<Rightarrow> Records dec" where
  "dec_Records unpack depth r =
     bindD (if rcs_recordsType r = unknownRecords then setTypeFromMagic r else returnD r) (\<lambda>r.
       if rcs_recordsType r = legacyRecords
       then bindD (dec_MessageSet unpack depth) (\<lambda>s. returnD (r\<lparr>rcs_MsgSet := Some s\<rparr>))
       else if rcs_recordsType r = defaultRecords
       then bindD (dec_RecordBatch unpack) (\<lambda>b. returnD (r\<lparr>rcs_RecordBatch := Some b\<rparr>))
       else failD (unknown_type r))"

definition numRecords :: "Records \<Rightarrow> kerror + int" where
  "numRecords r =
     bindR (find_type r) (\<lambda>(none, r).
       if none then Inr 0
       else if rcs_recordsType r = legacyRecords
       then Inr (case rcs_MsgSet r of None \<Rightarrow> 0 | Some s \<Rightarrow> int (length (ms_Messages s)))
       else if rcs_recordsType r = defaultRecords
       then Inr (case rcs_RecordBatch r of None \<Rightarrow> 0 | Some b \<Rightarrow> int (length (rbt_Records b)))
       else Inl (unknown_type r))"

definition isPartial :: "Records \<Rightarrow> kerror + bool" where
  "isPartial r =
     bindR (find_type r) (\<lambda>(none, r).
       if none then Inr False
       else if rcs_recordsType r = unknownRecords then Inr False
       else if rcs_recordsType r = legacyRecords
       then Inr (case rcs_MsgSet r of None \<Rightarrow> False | Some s \<Rightarrow> ms_PartialTrailingMessage s)
       else if rcs_recordsType r = defaultRecords
       then Inr (case rcs_RecordBatch r of None \<Rightarrow> False | Some b \<Rightarrow> rbt_PartialTrailingRecord b)
       else Inl (unknown_type r))"

definition isControl :: "Records \<Rightarrow> kerror + bool" where
  "isControl r =
     bindR (find_type r) (\<lambda>(none, r).
       if none then Inr False
       else if rcs_recordsType r = legacyRecords then Inr False
       else if rcs_recordsType r = defaultRecords
       then Inr (case rcs_RecordBatch r of None \<Rightarrow> False | Some b \<Rightarrow> rbt_Control b)
       else Inl (unknown_type r))"

definition isOverflow :: "Records \<Rightarrow> kerror + bool" where
  "isOverflow r =
     bindR (find_type r) (\<lambda>(none, r).
       if none then Inr False
       else if rcs_recordsType r = unknownRecords then Inr False
       else if rcs_recordsType r = legacyRecords
       then Inr (case rcs_MsgSet r of None \<Rightarrow> False | Some s \<Rightarrow> ms_OverflowMessage s)
       else if rcs_recordsType r = defaultRecords then Inr False
       else Inl (unknown_type r))"

subsection \<open>Control records (control_record.go)\<close>

datatype ControlRecordType = ControlRecordAbort | ControlRecordCommit | ControlRecordUnknown

record ControlRecord =
  ctr_Version :: int
  ctr_CoordinatorEpoch :: int
  ctr_Type :: ControlRecordType

text \<open>The key and the value of the record have a decoder and an encoder each.\<close>

definition dec_ControlRecord :: "string \<Rightarrow> string \<Rightarrow> (kerror + ControlRecord) result" where
  "dec_ControlRecord key val =
     bindR (bindD getInt16 (\<lambda>_. getInt32) \<lparr>rd_raw = val, rd_off = 0\<rparr>) (\<lambda>(r, _).
       case r of
         Inl e \<Rightarrow> Inr (Inl e)
       | Inr CoordinatorEpoch \<Rightarrow>
           bindR (bindD getInt16 (\<lambda>Version. bindD getInt16 (\<lambda>recordType. returnD (Version, recordType)))
             \<lparr>rd_raw = key, rd_off = 0\<rparr>) (\<lambda>(r, _).
             Inr (case r of
                 Inl e \<Rightarrow> Inl e
               | Inr (Version, recordType) \<Rightarrow>
                   Inr \<lparr>ctr_Version = Version, ctr_CoordinatorEpoch = CoordinatorEpoch,
                     ctr_Type = (if recordType = 0 then ControlRecordAbort
                       else if recordType = 1 then ControlRecordCommit else ControlRecordUnknown)\<rparr>)))"

definition enc_ControlRecord_key :: "ControlRecord \<Rightarrow> etree list" where
  "enc_ControlRecord_key cr =
     EInt16 (ctr_Version cr) #
     (case ctr_Type cr of
        ControlRecordAbort \<Rightarrow> [EInt16 0]
      | ControlRecordCommit \<Rightarrow> [EInt16 1]
      | ControlRecordUnknown \<Rightarrow> [])"

definition enc_ControlRecord_value :: "ControlRecord \<Rightarrow> etree list" where
  "enc_ControlRecord_value cr = [EInt16 (ctr_Version cr), EInt32 (ctr_CoordinatorEpoch cr)]"

definition bytes_of :: "string option \<Rightarrow> string" where
  "bytes_of b = (case b of None \<Rightarrow> [] | Some s \<Rightarrow> s)"

definition getControlRecord :: "Records \<Rightarrow> (kerror + ControlRecord) result" where
  "getControlRecord r =
     (case rcs_RecordBatch r of
        None \<Rightarrow> Inr (Inl (ErrorString ''cannot get control record, record batch is empty''))
      | Some b \<Rightarrow>
          (case rbt_Records b of
             [] \<Rightarrow> Inr (Inl (ErrorString ''cannot get control record, record batch is empty''))
           | firstRecord # _ \<Rightarrow> dec_ControlRecord (bytes_of (rec_Key firstRecord)) (bytes_of (rec_Value firstRecord))))"

lemma ControlRecord_round_trip:
  assumes "sint_ok 16 (ctr_Version cr)" "sint_ok 32 (ctr_CoordinatorEpoch cr)" "ctr_Type cr \<noteq> ControlRecordUnknown"
  shows "dec_ControlRecord (wire (enc_ControlRecord_key cr)) (wire (enc_ControlRecord_value cr)) = Inr (Inr cr)"
proof -
  let ?t = "if ctr_Type cr = ControlRecordAbort then 0 else 1 :: int"
  have key: "wire (enc_ControlRecord_key cr) = be 2 (ctr_Version cr) @ be 2 ?t"
    using assms(3) by (cases "ctr_Type cr") (simp_all add: enc_ControlRecord_key_def del: be.simps)
  have "reads (bindD getInt16 (\<lambda>_. getInt32)) (be 2 (ctr_Version cr) @ be 4 (ctr_CoordinatorEpoch cr)) (ctr_CoordinatorEpoch cr)"
    by (rule reads_bind [OF reads_getInts(2) reads_getInts(3)]) (use assms in simp_all)
  from readsD [OF this, of "[]" "[]"]
  have v: "bindD getInt16 (\<lambda>_. getInt32) \<lparr>rd_raw = wire (enc_ControlRecord_value cr), rd_off = 0\<rparr> =
      Inr (Inr (ctr_CoordinatorEpoch cr), rd (wire (enc_ControlRecord_value cr)) [])"
    by (simp add: rd_def enc_ControlRecord_value_def)
  have "reads (bindD getInt16 (\<lambda>Version. bindD getInt16 (\<lambda>recordType. returnD (Version, recordType))))
      (be 2 (ctr_Version cr) @ be 2 ?t) (ctr_Version cr, ?t)"
    by (rule reads_bind [OF reads_getInts(2)], use assms in simp, rule reads_bind_return [OF reads_getInts(2)])
       (simp_all add: sint_ok_def)
  from readsD [OF this, of "[]" "[]"]
  have k: "bindD getInt16 (\<lambda>Version. bindD getInt16 (\<lambda>recordType. returnD (Version, recordType)))
      \<lparr>rd_raw = wire (enc_ControlRecord_key cr), rd_off = 0\<rparr> = Inr (Inr (ctr_Version cr, ?t), rd (wire (enc_ControlRecord_key cr)) [])"
    by (simp add: rd_def key)
  show ?thesis using assms(3) by (cases "ctr_Type cr") (simp_all add: dec_ControlRecord_def v k)
qed

subsection \<open>Decoding records\<close>

lemma guarded_Records:
  assumes P: "P MakePanic" "P StackOverflow" and small: "\<And>cc z raw. unpack cc z = Inr raw \<Longrightarrow> is_packet raw"
  shows "guarded P (dec_Records unpack depth r)"
proof -
  have set: "guarded P (dec_MessageSet unpack depth)" using P small by (rule guarded_MessageSet)
  have batch: "guarded P (dec_RecordBatch unpack)" using P(1) small by (rule guarded_RecordBatch)
  show ?thesis
    unfolding dec_Records_def setTypeFromMagic_def
    by (intro guarded_bind [OF set] guarded_bind [OF batch] guarded_bind [OF guarded_if] guarded_bind [OF magic_peek]
        guarded_if guarded_return)
qed

text \<open>A batch starts with its first offset, a set with its first block: both pass some bytes unless they are cut off.\<close>

lemma bindD_elim:
  assumes "bindD m k d = Inr (Inr y, d')"
  obtains x d1 where "m d = Inr (Inr x, d1)" "k x d1 = Inr (Inr y, d')"
  using assms by (auto simp: bindD_def bindR_def split: sum.splits prod.splits)

lemma RecordBatch_moves:
  assumes small: "\<And>cc z raw. unpack cc z = Inr raw \<Longrightarrow> is_packet raw" and d: "rd_ok d"
    and r: "dec_RecordBatch unpack d = Inr (Inr b, d')"
  shows "rd_off d < rd_off d'"
proof -
  obtain K where K: "dec_RecordBatch unpack = bindD getInt64 K" "\<And>FirstOffset. guarded (\<lambda>_. True) (K FirstOffset)"
    using RecordBatch_split [where P = "\<lambda>_. True" and unpack = unpack] small by blast
  from r [unfolded K(1)] obtain x d1 where 1: "getInt64 d = Inr (Inr x, d1)" "K x d1 = Inr (Inr b, d')"
    by (rule bindD_elim)
  have f: "forward d d1" by (rule guardedD [OF guarded_getInts(4) d, of "\<lambda>_. False"]) (use 1 in auto)
  have "forward d1 d'" by (rule guardedD [OF K(2) [of x] forward_ok [OF d f]]) (use 1 in auto)
  with getInt64_moves [OF 1(1)] show ?thesis by (simp add: forward_def)
qed

lemma set_moves:
  assumes g: "guarded P msg" and d: "rd_ok d" and m: "magicValue d = Inr (Inr magic, d)" "magic \<le> 1"
    and s: "dec_set msg d = Inr (Inr s, d')"
  shows "rd_off d < rd_off d' \<or> ms_PartialTrailingMessage s \<or> ms_OverflowMessage s"
proof -
  have pos: "0 < remaining d" using m(1) by (auto simp: magicValue_def peekInt8_def split: if_splits)
  then obtain n where n: "nat (remaining d) = Suc n" by (metis Suc_pred' zero_less_nat_eq)
  show ?thesis
  proof (rule guardedD [OF guarded_MessageBlock [OF g] d])
    fix q d1 assume b: "dec_MessageBlock msg d = Inr (q, d1)" and f: "forward d d1"
    consider (ok) Offset msb where "q = Inr (Offset, Inr msb)" | (cut) Offset e where "q = Inr (Offset, Inl e)" | (err) e where "q = Inl e"
      by (cases q) (auto, metis sum.exhaust)
    then show ?thesis
    proof cases
      case ok
      then have 1: "rd_off d < rd_off d1" using MessageBlock_moves [OF g d] b by blast
      have le: "remaining d1 \<le> int n" using 1 n pos f by (simp add: remaining_def forward_def)
      have "set_loop n msg [msb] d1 = Inr (Inr s, d')"
        using s n pos b m ok by (simp add: dec_set_def set_loop.simps catchD_def bindD_def)
      with set_loop_guarded [OF g forward_ok [OF d f] le, of "[msb]"] 1 show ?thesis by (auto simp: forward_def)
    qed (use s n pos b m in \<open>auto simp: dec_set_def set_loop.simps catchD_def bindD_def returnD_def failD_def split: if_splits\<close>)
  qed (use s n pos m in \<open>auto simp: dec_set_def set_loop.simps catchD_def bindD_def\<close>)
qed

lemma Records_moves:
  assumes small: "\<And>cc z raw. unpack cc z = Inr raw \<Longrightarrow> is_packet raw" and d: "rd_ok d"
    and r: "dec_Records unpack depth no_records d = Inr (Inr r, d')"
    and whole: "isPartial r = Inr False" "isOverflow r = Inr False"
  shows "rd_off d < rd_off d'"
proof -
  from r obtain magic where m: "magicValue d = Inr (Inr magic, d)"
    by (auto simp: dec_Records_def no_records_def setTypeFromMagic_def magicValue_def peekInt8_def bindD_def bindR_def
        split: sum.splits if_splits)
  show ?thesis
  proof (cases "magic < 2")
    case True
    with r m obtain s where s: "dec_MessageSet unpack depth d = Inr (Inr s, d')"
      "r = no_records\<lparr>rcs_recordsType := legacyRecords, rcs_MsgSet := Some s\<rparr>"
      by (auto simp: dec_Records_def no_records_def setTypeFromMagic_def bindD_def returnD_def bindR_def
          split: sum.splits prod.splits)
    have g: "guarded (\<lambda>_. True) (dec_Message unpack depth)" using small by (intro guarded_Message) auto
    from set_moves [OF g d m _ s(1) [unfolded dec_MessageSet_def]] True whole s(2) show ?thesis
      by (simp add: isPartial_def isOverflow_def find_type_def)
  next
    case False
    with r m obtain b where "dec_RecordBatch unpack d = Inr (Inr b, d')"
      by (auto simp: dec_Records_def no_records_def setTypeFromMagic_def bindD_def returnD_def bindR_def
          split: sum.splits prod.splits)
    with small d show ?thesis by (rule RecordBatch_moves)
  qed
qed

subsection \<open>Decoding the records that were encoded\<close>

text \<open>
  \<open>canon_Records\<close>: a batch, or a set that is not empty, since the decoder looks for the magic of the first
  message. The decoder fills in the type.
\<close>

definition canon_Records :: "packer \<Rightarrow> nat \<Rightarrow> Records \<Rightarrow> bool" where
  "canon_Records pack depth r \<longleftrightarrow>
     (case (rcs_MsgSet r, rcs_RecordBatch r) of
        (Some s, None) \<Rightarrow> rcs_recordsType r \<in> {unknownRecords, legacyRecords} \<and> ms_Messages s \<noteq> [] \<and>
          canon_MessageSet pack depth s
      | (None, Some b) \<Rightarrow> rcs_recordsType r \<in> {unknownRecords, defaultRecords} \<and> canon_RecordBatch pack b
      | _ \<Rightarrow> False)"

definition sent_Records :: "Records \<Rightarrow> Records" where
  "sent_Records r =
     \<lparr>rcs_recordsType = (if rcs_MsgSet r \<noteq> None then legacyRecords else defaultRecords),
      rcs_MsgSet = map_option sent_MessageSet (rcs_MsgSet r),
      rcs_RecordBatch = map_option sent_RecordBatch (rcs_RecordBatch r)\<rparr>"

lemma canon_Records_cases:
  assumes "canon_Records pack depth r"
  obtains (legacy) s where "rcs_MsgSet r = Some s" "rcs_RecordBatch r = None" "ms_Messages s \<noteq> []"
      "canon_MessageSet pack depth s" "enc_Records pack r = enc_MessageSet pack s"
  | (default) b where "rcs_MsgSet r = None" "rcs_RecordBatch r = Some b" "canon_RecordBatch pack b"
      "enc_Records pack r = enc_RecordBatch pack b"
  using assms
  by (cases "rcs_MsgSet r"; cases "rcs_RecordBatch r")
     (auto simp: canon_Records_def enc_Records_def find_type_def setTypeFromFields_def)

lemma RecordBatch_magic:
  assumes "canon_RecordBatch pack b"
  shows "16 < length (wire (enc_RecordBatch pack b)) \<and> swrap 8 (rn (wire (enc_RecordBatch pack b) ! 16)) = 2"
proof -
  have "\<exists>l t. wire (enc_RecordBatch pack b) = be 8 (rbt_FirstOffset b) @ be 4 l @ be 4 (rbt_PartitionLeaderEpoch b) @ be 1 2 @ t"
    using assms by (auto simp: enc_RecordBatch_def canon_RecordBatch_def simp del: be.simps)
  then obtain l t where
    "wire (enc_RecordBatch pack b) = be 8 (rbt_FirstOffset b) @ be 4 l @ be 4 (rbt_PartitionLeaderEpoch b) @ be 1 2 @ t"
    by blast
  moreover have "be 1 2 = [byte 2]" by simp
  ultimately show ?thesis by (simp add: nth_append swrap_def rn_byte)
qed

lemma MessageSet_magic:
  assumes "ms_Messages s \<noteq> []" "canon_MessageSet pack depth s" "tree_ok (enc_MessageSet pack s)"
  shows "16 < length (wire (enc_MessageSet pack s)) \<and> swrap 8 (rn (wire (enc_MessageSet pack s) ! 16)) < 2"
proof -
  from assms(1) obtain b bs where b: "ms_Messages s = b # bs" by (cases "ms_Messages s") auto
  have v: "sint_ok 8 (msg_Version (msb_Msg b))" "msg_Version (msb_Msg b) \<le> 1"
    using assms(2,3) b canon_version
    by (auto simp: canon_MessageSet_def enc_MessageSet_def enc_MessageBlock_def enc_Message_def message_body_def)
  have "wire (enc_MessageSet pack s) = wire (enc_MessageBlock pack b) @ wire (concat (map (enc_MessageBlock pack) bs))"
    by (simp add: enc_MessageSet_def b)
  with MessageBlock_magic [OF v(1), of pack] v(2) show ?thesis by (simp add: nth_append)
qed

lemma setTypeFromMagic_rd:
  "16 < length post \<Longrightarrow> setTypeFromMagic r (rd pre post) =
    Inr (Inr (r\<lparr>rcs_recordsType := if swrap 8 (rn (post ! 16)) < 2 then legacyRecords else defaultRecords\<rparr>), rd pre post)"
  by (simp add: setTypeFromMagic_def bindD_def magicValue_rd returnD_def)

lemma Records_rd:
  assumes l: "lossless pack unpack" and c: "canon_Records pack depth r" and ok: "tree_ok (enc_Records pack r)"
    and stop: "rcs_MsgSet r \<noteq> None \<Longrightarrow> set_ends post"
    and len: "int (length pre + length (wire (enc_Records pack r)) + length post) \<le> maxInt32"
  shows "dec_Records unpack depth no_records (rd pre (wire (enc_Records pack r) @ post)) =
    Inr (Inr (sent_Records r), rd (pre @ wire (enc_Records pack r)) post)"
  using c
proof (cases rule: canon_Records_cases)
  case (legacy s)
  let ?w = "wire (enc_MessageSet pack s)"
  have m: "16 < length ?w" "swrap 8 (rn (?w ! 16)) < 2" using MessageSet_magic [OF legacy(3,4)] ok legacy by auto
  have "dec_MessageSet unpack depth (rd pre (?w @ post)) = Inr (Inr (sent_MessageSet s), rd (pre @ ?w) post)"
    unfolding dec_MessageSet_def
    using legacy ok stop len
    by (intro set_rd decodes_Message [OF l]) (auto simp: canon_MessageSet_def list_all_iff canon_version)
  with m legacy show ?thesis
    by (simp add: dec_Records_def no_records_def bindD_def setTypeFromMagic_rd returnD_def
        nth_append sent_Records_def)
next
  case (default b)
  let ?w = "wire (enc_RecordBatch pack b)"
  have m: "16 < length ?w" "swrap 8 (rn (?w ! 16)) = 2" using RecordBatch_magic [OF default(3)] by auto
  have "dec_RecordBatch unpack (rd pre (?w @ post)) = Inr (Inr (sent_RecordBatch b), rd (pre @ ?w) post)"
    using decodes_RecordBatch [OF default(3) l] ok default(4) len by (intro readsD) (auto simp: decodes_def)
  with m default show ?thesis
    by (simp add: dec_Records_def no_records_def bindD_def setTypeFromMagic_rd returnD_def
        nth_append sent_Records_def)
qed

subsection \<open>Records inside a message\<close>

text \<open>The records of a partition come behind their length, and are decoded from the bytes it counts.\<close>

definition lengthD :: "'a dec \<Rightarrow> 'a dec" where
  "lengthD m = bindD getInt32 (\<lambda>size. bindD (getRawBytes size) (subsetD m))"

lemma decodes_lengthD:
  assumes "tree_ok b \<Longrightarrow> int (length (wire b)) \<le> maxInt32 \<Longrightarrow> \<exists>d. m \<lparr>rd_raw = wire b, rd_off = 0\<rparr> = Inr (Inr v, d)"
  shows "decodes (lengthD m) [EFrame FLength b] v"
  unfolding decodes_def
proof (intro impI readsI)
  fix pre post :: string
  let ?s = "wire b"
  assume ok: "tree_ok [EFrame FLength b]" and len: "int (length pre + length (wire [EFrame FLength b]) + length post) \<le> maxInt32"
  have 1: "getInt32 (rd pre (be 4 (int (length ?s)) @ ?s @ post)) =
      Inr (Inr (int (length ?s)), rd (pre @ be 4 (int (length ?s))) (?s @ post))"
    using len by (intro readsD [OF reads_getInts(3)]) (auto simp: sint_ok_def)
  have 2: "getRawBytes (int (length ?s)) (rd (pre @ be 4 (int (length ?s))) (?s @ post)) =
      Inr (Inr ?s, rd ((pre @ be 4 (int (length ?s))) @ ?s) post)"
    using len by (intro readsD [OF reads_getRawBytes]) auto
  from assms ok len obtain d where "m \<lparr>rd_raw = ?s, rd_off = 0\<rparr> = Inr (Inr v, d)" by auto
  with 1 2 show "lengthD m (rd pre (wire [EFrame FLength b] @ post)) = Inr (Inr v, rd (pre @ wire [EFrame FLength b]) post)"
    by (simp add: lengthD_def bindD_Inr subsetD_def)
qed

lemma yields_getRawBytes: "yields is_packet (getRawBytes n)"
  by (auto simp: yields_def getRawBytes_def takeD_def slice_def insufficient_def rd_ok_def is_packet_def bindR_def
      split: if_splits)

lemma guarded_lengthD: "guarded P m \<Longrightarrow> guarded P (lengthD m)"
  unfolding lengthD_def
  by (intro guarded_bind guarded_getInts guarded_bind_value [OF guarded_getRawBytes yields_getRawBytes] guarded_subsetD)

subsection \<open>Produce requests (produce_request.go)\<close>

text \<open>The metrics that the encoder feeds are not modelled.\<close>

record ProduceRequest =
  prq_TransactionalID :: "string option"
  prq_RequiredAcks :: int
  prq_Timeout :: int
  prq_Version :: int
  prq_records :: "(string \<times> (int \<times> Records) list) list"

definition enc_ProduceRequest :: "packer \<Rightarrow> ProduceRequest \<Rightarrow> etree list" where
  "enc_ProduceRequest pack r =
     concat [eopt (3 \<le> prq_Version r) [ENullableString (prq_TransactionalID r)],
       [EInt16 (prq_RequiredAcks r), EInt32 (prq_Timeout r)],
       earray (epair (\<lambda>topic. [EString topic])
         (earray (epair (\<lambda>part. [EInt32 part]) (\<lambda>records. [EFrame FLength (enc_Records pack records)]))))
         (prq_records r)]"

definition dec_ProduceRequest :: "unpacker \<Rightarrow> nat \<Rightarrow> int \<Rightarrow> ProduceRequest dec" where
  "dec_ProduceRequest unpack depth version =
     bindD (optD (3 \<le> version) None getNullableString) (\<lambda>TransactionalID.
     bindD getInt16 (\<lambda>RequiredAcks.
     bindD getInt32 (\<lambda>Timeout.
     bindD (mapD (pairD getString (mapD (pairD getInt32 (lengthD (dec_Records unpack depth no_records)))))) (\<lambda>records.
     returnD \<lparr>prq_TransactionalID = TransactionalID, prq_RequiredAcks = RequiredAcks, prq_Timeout = Timeout,
       prq_Version = version, prq_records = records\<rparr>))))"

definition canon_ProduceRequest :: "packer \<Rightarrow> nat \<Rightarrow> ProduceRequest \<Rightarrow> bool" where
  "canon_ProduceRequest pack depth r \<longleftrightarrow>
     (3 \<le> prq_Version r \<or> prq_TransactionalID r = None) \<and> distinct (map fst (prq_records r)) \<and>
     (\<forall>(topic, parts) \<in> set (prq_records r). distinct (map fst parts) \<and>
       (\<forall>(part, records) \<in> set parts. canon_Records pack depth records))"

definition map_blocks :: "('a \<Rightarrow> 'b) \<Rightarrow> (string \<times> (int \<times> 'a) list) list \<Rightarrow> (string \<times> (int \<times> 'b) list) list" where
  "map_blocks f = map (\<lambda>(topic, parts). (topic, map (\<lambda>(part, x). (part, f x)) parts))"

definition sent_ProduceRequest :: "ProduceRequest \<Rightarrow> ProduceRequest" where
  "sent_ProduceRequest r = r\<lparr>prq_records := map_blocks sent_Records (prq_records r)\<rparr>"

lemmas decodes_plain = decodes_Nil_block decodes_done decodes_leaves [THEN decodes_field]
  decodes_leaves [THEN decodes_opt_block]

text \<open>Maps of topics to maps of partitions, with an encoder and a decoder for the value of a partition.\<close>

lemma decodes_pair_map:
  "decodes m (f (fst p)) (fst p) \<Longrightarrow> decodes m' (g (snd p)) v \<Longrightarrow> decodes (pairD m m') (epair f g p) (fst p, v)"
  unfolding pairD_def epair_def by (erule decodes_bind, erule decodes_bind_Nil) (simp add: decodes_return)

lemma decodes_blocks:
  assumes el: "\<And>topic parts part x. (topic, parts) \<in> set ps \<Longrightarrow> (part, x) \<in> set parts \<Longrightarrow> decodes m (enc x) (f x)"
    and d: "distinct (map fst ps)" "\<And>topic parts. (topic, parts) \<in> set ps \<Longrightarrow> distinct (map fst parts)"
  shows "decodes (mapD (pairD getString (mapD (pairD getInt32 m))))
    (earray (epair (\<lambda>topic. [EString topic]) (earray (epair (\<lambda>part. [EInt32 part]) enc))) ps) (map_blocks f ps)"
proof -
  have inner: "decodes (mapD (pairD getInt32 m)) (earray (epair (\<lambda>part. [EInt32 part]) enc) parts)
      (map (\<lambda>(part, x). (part, f x)) parts)" if "(topic, parts) \<in> set ps" for topic parts
  proof (rule decodes_map)
    fix p assume p: "p \<in> set parts"
    have "decodes (pairD getInt32 m) (epair (\<lambda>part. [EInt32 part]) enc p) (fst p, f (snd p))"
      using el [OF that, of "fst p" "snd p"] p by (intro decodes_pair_map decodes_leaves(3)) simp
    then show "decodes (pairD getInt32 m) (epair (\<lambda>part. [EInt32 part]) enc p) (case p of (part, x) \<Rightarrow> (part, f x))"
      by (simp add: case_prod_beta)
  qed (use d(2) [OF that] in \<open>auto simp: case_prod_beta comp_def\<close>)
  show ?thesis
    unfolding map_blocks_def
  proof (rule decodes_map)
    fix p assume p: "p \<in> set ps"
    have "decodes (pairD getString (mapD (pairD getInt32 m)))
        (epair (\<lambda>topic. [EString topic]) (earray (epair (\<lambda>part. [EInt32 part]) enc)) p)
        (fst p, map (\<lambda>(part, x). (part, f x)) (snd p))"
      using inner [of "fst p" "snd p"] p by (intro decodes_pair_map decodes_leaves(9)) simp
    then show "decodes (pairD getString (mapD (pairD getInt32 m)))
        (epair (\<lambda>topic. [EString topic]) (earray (epair (\<lambda>part. [EInt32 part]) enc)) p)
        (case p of (topic, parts) \<Rightarrow> (topic, map (\<lambda>(part, x). (part, f x)) parts))"
      by (simp add: case_prod_beta)
  qed (use d(1) in \<open>auto simp: case_prod_beta comp_def\<close>)
qed

lemma decodes_Records:
  assumes "lossless pack unpack" "canon_Records pack depth r"
  shows "decodes (lengthD (dec_Records unpack depth no_records)) [EFrame FLength (enc_Records pack r)] (sent_Records r)"
proof (rule decodes_lengthD)
  assume "tree_ok (enc_Records pack r)" "int (length (wire (enc_Records pack r))) \<le> maxInt32"
  with Records_rd [OF assms, of "[]" "[]"]
  show "\<exists>d. dec_Records unpack depth no_records \<lparr>rd_raw = wire (enc_Records pack r), rd_off = 0\<rparr> = Inr (Inr (sent_Records r), d)"
    by (auto simp: rd_def set_ends_def)
qed

lemma decodes_ProduceRequest:
  assumes l: "lossless pack unpack" and c: "canon_ProduceRequest pack depth r"
  shows "decodes (dec_ProduceRequest unpack depth (prq_Version r)) (enc_ProduceRequest pack r) (sent_ProduceRequest r)"
  unfolding dec_ProduceRequest_def enc_ProduceRequest_def
  by (intro decodes_plain decodes_blocks [where f = sent_Records, THEN decodes_block] decodes_Records [OF l])
     (use c in \<open>auto simp: canon_ProduceRequest_def sent_ProduceRequest_def\<close>)

lemma guarded_ProduceRequest:
  "P MakePanic \<Longrightarrow> P StackOverflow \<Longrightarrow> (\<And>cc z raw. unpack cc z = Inr raw \<Longrightarrow> is_packet raw) \<Longrightarrow>
    guarded P (dec_ProduceRequest unpack depth version)"
  unfolding dec_ProduceRequest_def by (intro guarded_intros guarded_lengthD guarded_Records)

text \<open>The nested maps of topics and partitions, read and written.\<close>

definition get_block :: "(string \<times> (int \<times> 'b) list) list \<Rightarrow> string \<Rightarrow> int \<Rightarrow> 'b option" where
  "get_block Blocks topic part = Option.bind (map_of Blocks topic) (\<lambda>parts. map_of parts part)"

definition put_block :: "string \<Rightarrow> int \<Rightarrow> 'b \<Rightarrow> (string \<times> (int \<times> 'b) list) list \<Rightarrow> (string \<times> (int \<times> 'b) list) list" where
  "put_block topic part b Blocks =
     AList.update topic (AList.update part b (case map_of Blocks topic of None \<Rightarrow> [] | Some parts \<Rightarrow> parts)) Blocks"

lemma map_of_update: "map_of (AList.update k v ps) = (map_of ps)(k \<mapsto> v)"
  by (rule update_conv')

lemma get_put_block: "get_block (put_block topic part b Blocks) t p =
    (if t = topic \<and> p = part then Some b else get_block Blocks t p)"
  by (auto simp: get_block_def put_block_def map_of_update split: option.splits)

definition ensureRecords :: "string \<Rightarrow> ProduceRequest \<Rightarrow> ProduceRequest" where
  "ensureRecords topic r =
     (if map_of (prq_records r) topic = None then r\<lparr>prq_records := AList.update topic [] (prq_records r)\<rparr> else r)"

definition put_records :: "string \<Rightarrow> int \<Rightarrow> Records \<Rightarrow> ProduceRequest \<Rightarrow> ProduceRequest" where
  "put_records topic part records r = r\<lparr>prq_records := put_block topic part records (prq_records r)\<rparr>"

definition get_records :: "string \<Rightarrow> int \<Rightarrow> ProduceRequest \<Rightarrow> Records option" where
  "get_records topic part r = get_block (prq_records r) topic part"

definition AddMessage :: "string \<Rightarrow> int \<Rightarrow> Message \<Rightarrow> ProduceRequest \<Rightarrow> ProduceRequest" where
  "AddMessage topic part msg r =
     (let r = ensureRecords topic r in
      case Option.bind (get_records topic part r) rcs_MsgSet of
        None \<Rightarrow> put_records topic part (newLegacyRecords (Some (addMessage msg (MessageSet False False [])))) r
      | Some s \<Rightarrow> put_records topic part (the (get_records topic part r)\<lparr>rcs_MsgSet := Some (addMessage msg s)\<rparr>) r)"

definition AddSet :: "string \<Rightarrow> int \<Rightarrow> MessageSet \<Rightarrow> ProduceRequest \<Rightarrow> ProduceRequest" where
  "AddSet topic part s r = put_records topic part (newLegacyRecords (Some s)) (ensureRecords topic r)"

definition AddBatch :: "string \<Rightarrow> int \<Rightarrow> RecordBatch \<Rightarrow> ProduceRequest \<Rightarrow> ProduceRequest" where
  "AddBatch topic part b r = put_records topic part (newDefaultRecords (Some b)) (ensureRecords topic r)"

lemma get_ensured: "get_records t p (ensureRecords topic r) = get_records t p r"
  by (auto simp: ensureRecords_def get_records_def get_block_def map_of_update)

lemma get_added:
  "get_records t p (AddSet topic part s r) = (if t = topic \<and> p = part then Some (newLegacyRecords (Some s)) else get_records t p r)"
  "get_records t p (AddBatch topic part b r) = (if t = topic \<and> p = part then Some (newDefaultRecords (Some b)) else get_records t p r)"
  by (simp_all add: AddSet_def AddBatch_def put_records_def get_records_def get_put_block get_ensured [unfolded get_records_def])

subsection \<open>Produce responses (produce_response.go)\<close>

text \<open>The decoder accepts every time but -1; the encoder refuses a time before 1970.\<close>

record ProduceResponseBlock =
  prb_Err :: int
  prb_Offset :: int
  prb_Timestamp :: gotime

definition dec_ProduceResponseBlock :: "int \<Rightarrow> ProduceResponseBlock dec" where
  "dec_ProduceResponseBlock version =
     bindD getInt16 (\<lambda>Err.
     bindD getInt64 (\<lambda>Offset.
     bindD (optD (2 \<le> version) None
       (bindD getInt64 (\<lambda>millis. returnD (if millis \<noteq> -1 then Some (millis * 1000000) else None)))) (\<lambda>Timestamp.
     returnD \<lparr>prb_Err = Err, prb_Offset = Offset, prb_Timestamp = Timestamp\<rparr>)))"

definition enc_ProduceResponseBlock :: "int \<Rightarrow> ProduceResponseBlock \<Rightarrow> etree list" where
  "enc_ProduceResponseBlock version b =
     concat [[EInt16 (prb_Err b), EInt64 (prb_Offset b)], eopt (2 \<le> version) (enc_Timestamp (prb_Timestamp b))]"

record ProduceResponse =
  prp_Blocks :: "(string \<times> (int \<times> ProduceResponseBlock) list) list"
  prp_Version :: int
  prp_ThrottleTime :: int

definition dec_ProduceResponse :: "int \<Rightarrow> ProduceResponse dec" where
  "dec_ProduceResponse version =
     bindD (mapD (pairD getString (mapD (pairD getInt32 (dec_ProduceResponseBlock version))))) (\<lambda>Blocks.
     bindD (optD (1 \<le> version) 0 getMillis32) (\<lambda>ThrottleTime.
     returnD \<lparr>prp_Blocks = Blocks, prp_Version = version, prp_ThrottleTime = ThrottleTime\<rparr>))"

definition enc_ProduceResponse :: "ProduceResponse \<Rightarrow> etree list" where
  "enc_ProduceResponse r =
     concat [earray (epair (\<lambda>topic. [EString topic])
         (earray (epair (\<lambda>part. [EInt32 part]) (enc_ProduceResponseBlock (prp_Version r))))) (prp_Blocks r),
       eopt (1 \<le> prp_Version r) [EInt32 (millis32 (prp_ThrottleTime r))]]"

definition ProduceResponse_GetBlock :: "string \<Rightarrow> int \<Rightarrow> ProduceResponse \<Rightarrow> ProduceResponseBlock option" where
  "ProduceResponse_GetBlock topic part r = get_block (prp_Blocks r) topic part"

definition ProduceResponse_AddTopicPartition :: "gotime \<Rightarrow> string \<Rightarrow> int \<Rightarrow> int \<Rightarrow> ProduceResponse \<Rightarrow> ProduceResponse" where
  "ProduceResponse_AddTopicPartition now topic part err r =
     r\<lparr>prp_Blocks := put_block topic part
       \<lparr>prb_Err = err, prb_Offset = 0, prb_Timestamp = (if 2 \<le> prp_Version r then now else None)\<rparr> (prp_Blocks r)\<rparr>"

definition canon_ProduceResponse :: "ProduceResponse \<Rightarrow> bool" where
  "canon_ProduceResponse r \<longleftrightarrow>
     distinct (map fst (prp_Blocks r)) \<and>
     (\<forall>(topic, parts) \<in> set (prp_Blocks r). distinct (map fst parts) \<and>
       (\<forall>(part, b) \<in> set parts. is_timestamp (prb_Timestamp b) \<and> (2 \<le> prp_Version r \<or> prb_Timestamp b = None))) \<and>
     is_millis (prp_ThrottleTime r) \<and> (1 \<le> prp_Version r \<or> prp_ThrottleTime r = 0)"

lemma decodes_ProduceResponseBlock:
  assumes "is_timestamp (prb_Timestamp b)" "2 \<le> version \<or> prb_Timestamp b = None"
  shows "decodes (dec_ProduceResponseBlock version) (enc_ProduceResponseBlock version b) b"
proof -
  have "decodes (bindD getInt64 (\<lambda>millis. returnD (if millis \<noteq> -1 then Some (millis * 1000000) else None)))
      (enc_Timestamp (prb_Timestamp b)) (prb_Timestamp b)"
  proof (cases "prb_Timestamp b")
    case (Some ns)
    with assms(1) have ns: "0 \<le> ns" "ns mod 1000000 = 0" "wrap64 ns = ns"
      using wrap64_id [of ns] by (auto simp: is_timestamp_def int64_ok_def)
    have "0 \<le> ns sdiv 1000000" using ns(1) by (simp add: signed_divide_int_def sgn_if pos_imp_zdiv_nonneg_iff)
    with Some ns sdiv_exact [OF ns(2)] show ?thesis
      by (auto simp: enc_Timestamp_def intro!: decodes_bind_Nil [OF decodes_leaves(4)] decodes_return)
  qed (auto simp: enc_Timestamp_def intro!: decodes_bind_Nil [OF decodes_leaves(4)] decodes_return)
  note ts = decodes_opt_block [OF this]
  show ?thesis
    unfolding dec_ProduceResponseBlock_def enc_ProduceResponseBlock_def
    by (intro decodes_plain ts) (use assms(2) in auto)
qed

lemma map_blocks_id [simp]: "map_blocks (\<lambda>x. x) ps = ps"
  by (induction ps) (auto simp: map_blocks_def)

lemma decodes_ProduceResponse:
  "canon_ProduceResponse r \<Longrightarrow> decodes (dec_ProduceResponse (prp_Version r)) (enc_ProduceResponse r) r"
  unfolding dec_ProduceResponse_def enc_ProduceResponse_def
  by (intro decodes_blocks [where f = "\<lambda>x. x", THEN decodes_block] decodes_millis_fields decodes_plain
      decodes_ProduceResponseBlock)
     (auto simp: canon_ProduceResponse_def split: if_splits, fastforce+)

lemma guarded_ProduceResponse: "guarded P (dec_ProduceResponse version)"
  unfolding dec_ProduceResponse_def dec_ProduceResponseBlock_def
  by (intro guarded_intros guarded_millis)

subsection \<open>Fetch responses (fetch_response.go)\<close>

record AbortedTransaction =
  abt_ProducerID :: int
  abt_FirstOffset :: int

definition dec_AbortedTransaction :: "AbortedTransaction dec" where
  "dec_AbortedTransaction =
     bindD getInt64 (\<lambda>ProducerID.
     bindD getInt64 (\<lambda>FirstOffset.
     returnD \<lparr>abt_ProducerID = ProducerID, abt_FirstOffset = FirstOffset\<rparr>))"

definition enc_AbortedTransaction :: "AbortedTransaction \<Rightarrow> etree list" where
  "enc_AbortedTransaction t = concat [[EInt64 (abt_ProducerID t), EInt64 (abt_FirstOffset t)]]"

text \<open>\<open>Records\<close> is the pointer to the first element of \<open>RecordsSet\<close> that the decoder leaves for old clients.\<close>

record FetchResponseBlock =
  frb_Err :: int
  frb_HighWaterMarkOffset :: int
  frb_LastStableOffset :: int
  frb_AbortedTransactions :: "AbortedTransaction list"
  frb_Records :: "Records option"
  frb_RecordsSet :: "Records list"
  frb_Partial :: bool

definition keep_records :: "Records \<Rightarrow> int \<Rightarrow> bool \<Rightarrow> FetchResponseBlock \<Rightarrow> FetchResponseBlock" where
  "keep_records records n partial b =
     (if 0 < n \<or> partial \<and> frb_RecordsSet b = []
      then b\<lparr>frb_RecordsSet := frb_RecordsSet b @ [records],
             frb_Records := (case frb_Records b of None \<Rightarrow> Some records | Some r \<Rightarrow> Some r)\<rparr>
      else b)"

text \<open>The loop over the records; it passes a byte in every turn but the last.\<close>

fun records_loop :: "nat \<Rightarrow> Records dec \<Rightarrow> FetchResponseBlock \<Rightarrow> FetchResponseBlock dec" where
  "records_loop fuel recs b d =
     (if remaining d \<le> 0 then Inr (Inr b, d)
      else case fuel of
        0 \<Rightarrow> Inl Blocked
      | Suc fuel \<Rightarrow>
          bindD (catchD recs) (\<lambda>r. case r of
             Inl e \<Rightarrow>
               if e = ErrInsufficientData
               then returnD (if frb_RecordsSet b = [] then b\<lparr>frb_Partial := True\<rparr> else b) else failD e
           | Inr records \<Rightarrow>
               (case bindR (isPartial records) (\<lambda>partial. bindR (numRecords records) (\<lambda>n.
                  bindR (isOverflow records) (\<lambda>overflow. Inr (partial, n, overflow)))) of
                  Inl e \<Rightarrow> failD e
                | Inr (partial, n, overflow) \<Rightarrow>
                    let b = keep_records records n partial b in
                    if partial \<or> overflow then returnD b else records_loop fuel recs b)) d)"

declare records_loop.simps [simp del]

definition dec_records_set :: "Records dec \<Rightarrow> FetchResponseBlock \<Rightarrow> FetchResponseBlock dec" where
  "dec_records_set recs b d = records_loop (nat (remaining d)) recs b d"

definition dec_FetchResponseBlock :: "unpacker \<Rightarrow> nat \<Rightarrow> int \<Rightarrow> FetchResponseBlock dec" where
  "dec_FetchResponseBlock unpack depth version =
     bindD getInt16 (\<lambda>Err.
     bindD getInt64 (\<lambda>HighWaterMarkOffset.
     bindD (optD (4 \<le> version) 0 getInt64) (\<lambda>LastStableOffset.
     bindD (optD (4 \<le> version) [] (listD dec_AbortedTransaction)) (\<lambda>AbortedTransactions.
     lengthD (dec_records_set (dec_Records unpack depth no_records)
       \<lparr>frb_Err = Err, frb_HighWaterMarkOffset = HighWaterMarkOffset, frb_LastStableOffset = LastStableOffset,
        frb_AbortedTransactions = AbortedTransactions, frb_Records = None, frb_RecordsSet = [], frb_Partial = False\<rparr>)))))"

definition enc_FetchResponseBlock :: "packer \<Rightarrow> int \<Rightarrow> FetchResponseBlock \<Rightarrow> etree list" where
  "enc_FetchResponseBlock pack version b =
     concat [[EInt16 (frb_Err b), EInt64 (frb_HighWaterMarkOffset b)],
       eopt (4 \<le> version) [EInt64 (frb_LastStableOffset b)],
       eopt (4 \<le> version) (earray enc_AbortedTransaction (frb_AbortedTransactions b)),
       [EFrame FLength (concat (map (enc_Records pack) (frb_RecordsSet b)))]]"

fun sum_records :: "int \<Rightarrow> Records list \<Rightarrow> kerror + int" where
  "sum_records s [] = Inr s"
| "sum_records s (r # rs) = bindR (numRecords r) (\<lambda>count. sum_records (s + count) rs)"

definition block_numRecords :: "FetchResponseBlock \<Rightarrow> kerror + int" where
  "block_numRecords b = sum_records 0 (frb_RecordsSet b)"

definition block_isPartial :: "FetchResponseBlock \<Rightarrow> kerror + bool" where
  "block_isPartial b =
     (if frb_Partial b then Inr True
      else case frb_RecordsSet b of [r] \<Rightarrow> isPartial r | _ \<Rightarrow> Inr False)"

record FetchResponse =
  frp_Blocks :: "(string \<times> (int \<times> FetchResponseBlock) list) list"
  frp_ThrottleTime :: int
  frp_Version :: int
  frp_LogAppendTime :: bool
  frp_Timestamp :: gotime

definition dec_FetchResponse :: "unpacker \<Rightarrow> nat \<Rightarrow> int \<Rightarrow> FetchResponse dec" where
  "dec_FetchResponse unpack depth version =
     bindD (optD (1 \<le> version) 0 getMillis32) (\<lambda>ThrottleTime.
     bindD (mapD (pairD getString (mapD (pairD getInt32 (dec_FetchResponseBlock unpack depth version))))) (\<lambda>Blocks.
     returnD \<lparr>frp_Blocks = Blocks, frp_ThrottleTime = ThrottleTime, frp_Version = version,
       frp_LogAppendTime = False, frp_Timestamp = None\<rparr>))"

definition enc_FetchResponse :: "packer \<Rightarrow> FetchResponse \<Rightarrow> etree list" where
  "enc_FetchResponse pack r =
     concat [eopt (1 \<le> frp_Version r) [EInt32 (millis32 (frp_ThrottleTime r))],
       earray (epair (\<lambda>topic. [EString topic])
         (earray (epair (\<lambda>part. [EInt32 part]) (enc_FetchResponseBlock pack (frp_Version r))))) (frp_Blocks r)]"

subsubsection \<open>Arbitrary bytes\<close>

lemma Records_types:
  assumes "dec_Records unpack depth no_records d = Inr (Inr r, d')"
  shows "rcs_recordsType r \<in> {legacyRecords, defaultRecords}"
  using assms
  by (auto simp: dec_Records_def no_records_def setTypeFromMagic_def bindD_def returnD_def bindR_def
      split: sum.splits prod.splits if_splits)

lemma Records_flags:
  assumes "rcs_recordsType r \<in> {legacyRecords, defaultRecords}"
  obtains partial n overflow where "isPartial r = Inr partial" "numRecords r = Inr n" "isOverflow r = Inr overflow"
proof -
  have "\<exists>x. isPartial r = Inr x" "\<exists>x. numRecords r = Inr x" "\<exists>x. isOverflow r = Inr x"
    using assms by (auto simp: isPartial_def numRecords_def isOverflow_def find_type_def)
  then show ?thesis using that by blast
qed

lemma records_loop_guarded:
  assumes g: "guarded P (dec_Records unpack depth no_records)" and small: "\<And>cc z raw. unpack cc z = Inr raw \<Longrightarrow> is_packet raw"
  shows "rd_ok d \<Longrightarrow> remaining d \<le> int fuel \<Longrightarrow>
    (case records_loop fuel (dec_Records unpack depth no_records) b d of Inl p \<Rightarrow> P p | Inr (r, d') \<Rightarrow> forward d d')"
proof (induction fuel arbitrary: b d)
  case 0
  then show ?case by (simp add: records_loop.simps forward_refl)
next
  case (Suc n)
  let ?recs = "dec_Records unpack depth no_records"
  show ?case
  proof (cases "remaining d \<le> 0")
    case True
    with Suc.prems show ?thesis by (simp add: records_loop.simps forward_refl)
  next
    case False
    show ?thesis
    proof (rule guardedD [OF g Suc.prems(1)])
      fix q d1 assume q: "?recs d = Inr (q, d1)" and f: "forward d d1"
      show ?thesis
      proof (cases q)
        case (Inl e)
        with False q f show ?thesis
          by (auto simp: records_loop.simps bindD_def catchD_def returnD_def failD_def)
      next
        case (Inr r)
        obtain partial k overflow where fl: "isPartial r = Inr partial" "numRecords r = Inr k" "isOverflow r = Inr overflow"
          using Records_types Records_flags q Inr by metis
        show ?thesis
        proof (cases "partial \<or> overflow")
          case True
          with False q f Inr fl show ?thesis by (auto simp: records_loop.simps bindD_def catchD_def returnD_def)
        next
          case whole: False
          with Records_moves [OF small Suc.prems(1)] q Inr fl have "rd_off d < rd_off d1" by auto
          then have "remaining d1 \<le> int n" using Suc.prems(2) f by (simp add: remaining_def forward_def)
          note IH = Suc.IH [OF forward_ok [OF Suc.prems(1) f] this, of "keep_records r k partial b"]
          have "records_loop (Suc n) ?recs b d = records_loop n ?recs (keep_records r k partial b) d1"
            using whole False q Inr fl by (simp add: records_loop.simps [of "Suc n"] bindD_def catchD_def Let_def)
          with IH f show ?thesis by (auto split: sum.splits intro: forward_trans)
        qed
      qed
    qed (use False in \<open>simp add: records_loop.simps bindD_def catchD_def\<close>)
  qed
qed

lemma guarded_FetchResponse:
  assumes P: "P MakePanic" "P StackOverflow" and small: "\<And>cc z raw. unpack cc z = Inr raw \<Longrightarrow> is_packet raw"
  shows "guarded P (dec_FetchResponse unpack depth version)"
proof -
  have g: "guarded P (dec_Records unpack depth no_records)" using P small by (rule guarded_Records)
  have "guarded P (dec_records_set (dec_Records unpack depth no_records) b)" for b
    unfolding guarded_def dec_records_set_def
    by (intro allI impI records_loop_guarded [OF g small]) (auto simp: rd_ok_def remaining_def)
  then show ?thesis
    unfolding dec_FetchResponse_def dec_FetchResponseBlock_def dec_AbortedTransaction_def
    by (intro guarded_intros guarded_millis guarded_lengthD)
qed

subsubsection \<open>Round trip\<close>

text \<open>
  \<open>separated\<close>: a set does not end where another set follows, so two sets in a row would come back as one. The
  decoder also drops records without a message.
\<close>

fun separated :: "Records list \<Rightarrow> bool" where
  "separated (r # r' # rs) = ((rcs_MsgSet r = None \<or> rcs_MsgSet r' = None) \<and> separated (r' # rs))"
| "separated rs = True"

definition canon_FetchResponseBlock :: "packer \<Rightarrow> nat \<Rightarrow> int \<Rightarrow> FetchResponseBlock \<Rightarrow> bool" where
  "canon_FetchResponseBlock pack depth version b \<longleftrightarrow>
     (4 \<le> version \<or> frb_LastStableOffset b = 0 \<and> frb_AbortedTransactions b = []) \<and> \<not> frb_Partial b \<and>
     separated (frb_RecordsSet b) \<and>
     (\<forall>r \<in> set (frb_RecordsSet b). canon_Records pack depth r \<and> numRecords r \<noteq> Inr 0)"

definition sent_FetchResponseBlock :: "FetchResponseBlock \<Rightarrow> FetchResponseBlock" where
  "sent_FetchResponseBlock b =
     b\<lparr>frb_RecordsSet := map sent_Records (frb_RecordsSet b),
       frb_Records := (case frb_RecordsSet b of [] \<Rightarrow> None | r # _ \<Rightarrow> Some (sent_Records r))\<rparr>"

definition canon_FetchResponse :: "packer \<Rightarrow> nat \<Rightarrow> FetchResponse \<Rightarrow> bool" where
  "canon_FetchResponse pack depth r \<longleftrightarrow>
     distinct (map fst (frp_Blocks r)) \<and>
     (\<forall>(topic, parts) \<in> set (frp_Blocks r). distinct (map fst parts) \<and>
       (\<forall>(part, b) \<in> set parts. canon_FetchResponseBlock pack depth (frp_Version r) b)) \<and>
     is_millis (frp_ThrottleTime r) \<and> (1 \<le> frp_Version r \<or> frp_ThrottleTime r = 0) \<and>
     \<not> frp_LogAppendTime r \<and> frp_Timestamp r = None"

definition sent_FetchResponse :: "FetchResponse \<Rightarrow> FetchResponse" where
  "sent_FetchResponse r = r\<lparr>frp_Blocks := map_blocks sent_FetchResponseBlock (frp_Blocks r)\<rparr>"

lemma sent_set_sel [simp]:
  "ms_PartialTrailingMessage (sent_MessageSet s) = ms_PartialTrailingMessage s"
  "ms_OverflowMessage (sent_MessageSet s) = ms_OverflowMessage s"
  "ms_Messages (sent_MessageSet s) = map sent_MessageBlock (ms_Messages s)"
  by (cases s; simp)+

lemma sent_flags:
  assumes "canon_Records pack depth r" "numRecords r \<noteq> Inr 0"
  shows "isPartial (sent_Records r) = Inr False" "isOverflow (sent_Records r) = Inr False"
    "\<exists>n. numRecords (sent_Records r) = Inr n \<and> 0 < n"
proof -
  show "isPartial (sent_Records r) = Inr False" "isOverflow (sent_Records r) = Inr False"
    using assms(1)
    by (cases rule: canon_Records_cases; simp add: isPartial_def isOverflow_def sent_Records_def find_type_def
        canon_MessageSet_def canon_RecordBatch_def sent_RecordBatch_def)+
  show "\<exists>n. numRecords (sent_Records r) = Inr n \<and> 0 < n"
    using assms(1)
  proof (cases rule: canon_Records_cases)
    case (legacy s)
    then show ?thesis by (simp add: numRecords_def sent_Records_def find_type_def)
  next
    case (default b)
    with assms show ?thesis
      by (auto simp: numRecords_def sent_Records_def sent_RecordBatch_def find_type_def setTypeFromFields_def canon_Records_def)
  qed
qed

lemma Records_wire_magic:
  assumes "canon_Records pack depth r" "tree_ok (enc_Records pack r)"
  shows "16 < length (wire (enc_Records pack r)) \<and>
    (rcs_MsgSet r = None \<longrightarrow> swrap 8 (rn (wire (enc_Records pack r) ! 16)) = 2)"
  using assms(1)
proof (cases rule: canon_Records_cases)
  case (legacy s)
  with assms(2) MessageSet_magic [OF legacy(3,4)] show ?thesis by simp
next
  case (default b)
  with RecordBatch_magic [OF default(3)] show ?thesis by simp
qed

lemma records_loop_rd:
  assumes l: "lossless pack unpack"
  shows "separated rs \<Longrightarrow> (\<And>r. r \<in> set rs \<Longrightarrow> canon_Records pack depth r \<and> numRecords r \<noteq> Inr 0) \<Longrightarrow>
    tree_ok (concat (map (enc_Records pack) rs)) \<Longrightarrow> length (wire (concat (map (enc_Records pack) rs))) \<le> fuel \<Longrightarrow>
    int (length pre + length (wire (concat (map (enc_Records pack) rs)))) \<le> maxInt32 \<Longrightarrow>
    records_loop fuel (dec_Records unpack depth no_records) b (rd pre (wire (concat (map (enc_Records pack) rs)))) =
      Inr (Inr (foldl (\<lambda>b r. keep_records (sent_Records r) 1 False b) b rs),
        rd (pre @ wire (concat (map (enc_Records pack) rs))) [])"
proof (induction rs arbitrary: fuel pre b)
  case Nil
  then show ?case by (simp add: records_loop.simps)
next
  case (Cons r rs)
  let ?w = "wire (enc_Records pack r)" and ?t = "wire (concat (map (enc_Records pack) rs))"
  let ?recs = "dec_Records unpack depth no_records"
  have r: "canon_Records pack depth r" "numRecords r \<noteq> Inr 0" "tree_ok (enc_Records pack r)" using Cons.prems(2,3) by auto
  have long: "16 < length ?w" using Records_wire_magic [OF r(1,3)] by simp
  then obtain n where n: "fuel = Suc n" using Cons.prems(4) by (cases fuel) auto
  have fits: "length ?t \<le> n" using Cons.prems(4) n long by simp
  have stop: "set_ends ?t" if "rcs_MsgSet r \<noteq> None"
  proof (cases rs)
    case (Cons r' rs')
    then have "rcs_MsgSet r' = None" using that Cons.prems(1) by auto
    moreover have "canon_Records pack depth r'" "tree_ok (enc_Records pack r')" using Cons.prems(2,3) Cons by auto
    ultimately show ?thesis using Records_wire_magic [of pack depth r'] Cons by (auto simp: set_ends_def nth_append)
  qed (simp add: set_ends_def)
  have "?recs (rd pre (?w @ ?t)) = Inr (Inr (sent_Records r), rd (pre @ ?w) ?t)"
    using Cons.prems(5) stop by (intro Records_rd [OF l r(1,3)]) auto
  moreover obtain k where k: "numRecords (sent_Records r) = Inr k" "0 < k" using sent_flags(3) [OF r(1,2)] by blast
  ultimately have step: "records_loop fuel ?recs b (rd pre (?w @ ?t)) =
      records_loop n ?recs (keep_records (sent_Records r) 1 False b) (rd (pre @ ?w) ?t)"
    using n long sent_flags(1,2) [OF r(1,2)]
    by (simp add: records_loop.simps [of "Suc n"] bindD_def catchD_def Let_def keep_records_def)
  have rest: "records_loop n ?recs (keep_records (sent_Records r) 1 False b) (rd (pre @ ?w) ?t) =
      Inr (Inr (foldl (\<lambda>b r. keep_records (sent_Records r) 1 False b) (keep_records (sent_Records r) 1 False b) rs),
        rd ((pre @ ?w) @ ?t) [])"
  proof (rule Cons.IH)
    show "separated rs" using Cons.prems(1) by (cases rs) auto
  next
    show "\<And>r. r \<in> set rs \<Longrightarrow> canon_Records pack depth r \<and> numRecords r \<noteq> Inr 0" using Cons.prems(2) by simp
  qed (use Cons.prems(3,5) fits in simp_all)
  have "wire (concat (map (enc_Records pack) (r # rs))) = ?w @ ?t" by simp
  with step rest show ?case by (simp only: foldl.simps append_assoc)
qed

lemma foldl_keep:
  "foldl (\<lambda>b r. keep_records (sent_Records r) 1 False b) b rs =
    b\<lparr>frb_RecordsSet := frb_RecordsSet b @ map sent_Records rs,
      frb_Records := (case frb_Records b of Some r \<Rightarrow> Some r | None \<Rightarrow> (case rs of [] \<Rightarrow> None | r # _ \<Rightarrow> Some (sent_Records r)))\<rparr>"
  by (induction rs arbitrary: b) (auto simp: keep_records_def split: option.splits list.splits)

lemma decodes_FetchResponseBlock:
  assumes l: "lossless pack unpack" and c: "canon_FetchResponseBlock pack depth version b"
  shows "decodes (dec_FetchResponseBlock unpack depth version) (enc_FetchResponseBlock pack version b) (sent_FetchResponseBlock b)"
proof -
  let ?ts = "concat (map (enc_Records pack) (frb_RecordsSet b))"
  have el: "decodes dec_AbortedTransaction (enc_AbortedTransaction t) t" for t
    unfolding dec_AbortedTransaction_def enc_AbortedTransaction_def by (intro decodes_plain) simp
  have recs: "decodes (lengthD (dec_records_set (dec_Records unpack depth no_records)
      (b\<lparr>frb_Records := None, frb_RecordsSet := []\<rparr>))) [EFrame FLength ?ts] (sent_FetchResponseBlock b)"
  proof (rule decodes_lengthD)
    assume ok: "tree_ok ?ts" "int (length (wire ?ts)) \<le> maxInt32"
    have "records_loop (length (wire ?ts)) (dec_Records unpack depth no_records) (b\<lparr>frb_Records := None, frb_RecordsSet := []\<rparr>)
        (rd [] (wire ?ts)) = Inr (Inr (sent_FetchResponseBlock b), rd ([] @ wire ?ts) [])"
      using c ok records_loop_rd [OF l, of "frb_RecordsSet b" depth "length (wire ?ts)" "[]" "b\<lparr>frb_Records := None, frb_RecordsSet := []\<rparr>"]
      by (auto simp: canon_FetchResponseBlock_def foldl_keep sent_FetchResponseBlock_def)
    then show "\<exists>d. dec_records_set (dec_Records unpack depth no_records) (b\<lparr>frb_Records := None, frb_RecordsSet := []\<rparr>)
        \<lparr>rd_raw = wire ?ts, rd_off = 0\<rparr> = Inr (Inr (sent_FetchResponseBlock b), d)"
      by (auto simp: dec_records_set_def rd_def remaining_def)
  qed
  have empty: "\<lparr>frb_Err = frb_Err b, frb_HighWaterMarkOffset = frb_HighWaterMarkOffset b,
      frb_LastStableOffset = (if 4 \<le> version then frb_LastStableOffset b else 0),
      frb_AbortedTransactions = (if 4 \<le> version then frb_AbortedTransactions b else []), frb_Records = None,
      frb_RecordsSet = [], frb_Partial = False\<rparr> = b\<lparr>frb_Records := None, frb_RecordsSet := []\<rparr>"
    using c by (auto simp: canon_FetchResponseBlock_def)
  show ?thesis
    unfolding dec_FetchResponseBlock_def enc_FetchResponseBlock_def
    apply (intro decodes_leaves [THEN decodes_field] decodes_leaves [THEN decodes_opt_block] decodes_Nil_block
        decodes_list_id(1) [THEN decodes_opt_block] el)
     apply (simp add: enc_AbortedTransaction_def)
    using recs apply (simp only: empty concat.simps append_Nil2)
    done
qed

lemma decodes_FetchResponse:
  assumes l: "lossless pack unpack" and c: "canon_FetchResponse pack depth r"
  shows "decodes (dec_FetchResponse unpack depth (frp_Version r)) (enc_FetchResponse pack r) (sent_FetchResponse r)"
  unfolding dec_FetchResponse_def enc_FetchResponse_def
  by (intro decodes_millis_fields decodes_plain decodes_blocks [where f = sent_FetchResponseBlock, THEN decodes_block]
      decodes_FetchResponseBlock [OF l])
     (use c in \<open>auto simp: canon_FetchResponse_def sent_FetchResponse_def split: if_splits\<close>)

subsubsection \<open>Building a response\<close>

text \<open>
  The operations that fill a response. The arguments \<open>kb\<close> and \<open>vb\<close> are what \<open>encodeKV\<close> returns for the key and
  the value. \<open>time.Sub\<close> saturates at the ends of the 64 bits; the zero time is the first of January of the year 1.
\<close>

definition new_block :: FetchResponseBlock where
  "new_block = \<lparr>frb_Err = 0, frb_HighWaterMarkOffset = 0, frb_LastStableOffset = 0, frb_AbortedTransactions = [],
     frb_Records = None, frb_RecordsSet = [], frb_Partial = False\<rparr>"

definition getOrCreateBlock :: "string \<Rightarrow> int \<Rightarrow> FetchResponse \<Rightarrow> FetchResponseBlock" where
  "getOrCreateBlock topic part r =
     (case get_block (frp_Blocks r) topic part of None \<Rightarrow> new_block | Some b \<Rightarrow> b)"

definition FetchResponse_GetBlock :: "string \<Rightarrow> int \<Rightarrow> FetchResponse \<Rightarrow> FetchResponseBlock option" where
  "FetchResponse_GetBlock topic part r = get_block (frp_Blocks r) topic part"

definition set_block :: "string \<Rightarrow> int \<Rightarrow> FetchResponseBlock \<Rightarrow> FetchResponse \<Rightarrow> FetchResponse" where
  "set_block topic part b r = r\<lparr>frp_Blocks := put_block topic part b (frp_Blocks r)\<rparr>"

definition AddError :: "string \<Rightarrow> int \<Rightarrow> int \<Rightarrow> FetchResponse \<Rightarrow> FetchResponse" where
  "AddError topic part err r = set_block topic part ((getOrCreateBlock topic part r)\<lparr>frb_Err := err\<rparr>) r"

text \<open>The first records of the block, made by the caller when there are none; \<open>Records\<close> points to the same.\<close>

definition first_records :: "Records \<Rightarrow> FetchResponseBlock \<Rightarrow> Records" where
  "first_records new b = (case frb_RecordsSet b of [] \<Rightarrow> new | r # _ \<Rightarrow> r)"

definition put_first :: "Records \<Rightarrow> FetchResponseBlock \<Rightarrow> FetchResponseBlock" where
  "put_first r b =
     b\<lparr>frb_RecordsSet := r # tl (frb_RecordsSet b),
       frb_Records := (if frb_RecordsSet b = [] then frb_Records b else map_option (\<lambda>_. r) (frb_Records b))\<rparr>"

definition AddMessageWithTimestamp ::
  "string \<Rightarrow> int \<Rightarrow> string option \<Rightarrow> string option \<Rightarrow> int \<Rightarrow> gotime \<Rightarrow> int \<Rightarrow> FetchResponse \<Rightarrow> FetchResponse result" where
  "AddMessageWithTimestamp topic part kb vb offset timestamp version r =
     (let frb = getOrCreateBlock topic part r;
          timestamp = (if frp_LogAppendTime r then frp_Timestamp r else timestamp);
          msgBlock = MessageBlock offset (Message 0 0 (frp_LogAppendTime r) kb vb None version timestamp);
          records = first_records (newLegacyRecords (Some (MessageSet False False []))) frb
      in case rcs_MsgSet records of
           None \<Rightarrow> Inl NilPanic
         | Some s \<Rightarrow>
             Inr (set_block topic part
               (put_first (records\<lparr>rcs_MsgSet := Some (MessageSet (ms_PartialTrailingMessage s) (ms_OverflowMessage s)
                 (ms_Messages s @ [msgBlock]))\<rparr>) frb) r))"

definition unix_ns :: "gotime \<Rightarrow> int" where
  "unix_ns t = (case t of None \<Rightarrow> -62135596800 * 10 ^ 9 | Some ns \<Rightarrow> ns)"

definition time_sub :: "gotime \<Rightarrow> gotime \<Rightarrow> int" where
  "time_sub t u = max (- (2 ^ 63)) (min (2 ^ 63 - 1) (unix_ns t - unix_ns u))"

definition new_batch :: RecordBatch where
  "new_batch = \<lparr>rbt_FirstOffset = 0, rbt_PartitionLeaderEpoch = 0, rbt_Version = 2, rbt_Codec = 0,
     rbt_CompressionLevel = 0, rbt_Control = False, rbt_LogAppendTime = False, rbt_LastOffsetDelta = 0,
     rbt_FirstTimestamp = None, rbt_MaxTimestamp = None, rbt_ProducerID = 0, rbt_ProducerEpoch = 0,
     rbt_FirstSequence = 0, rbt_Records = [], rbt_PartialTrailingRecord = False, rbt_IsTransactional = False,
     rbt_compressedRecords = None, rbt_recordsLen = 0\<rparr>"

definition new_record :: "string option \<Rightarrow> string option \<Rightarrow> int \<Rightarrow> int \<Rightarrow> Record" where
  "new_record kb vb OffsetDelta TimestampDelta =
     \<lparr>rec_Headers = [], rec_Attributes = 0, rec_TimestampDelta = TimestampDelta, rec_OffsetDelta = OffsetDelta,
      rec_Key = kb, rec_Value = vb, rec_length = 0\<rparr>"

definition AddRecordWithTimestamp ::
  "string \<Rightarrow> int \<Rightarrow> string option \<Rightarrow> string option \<Rightarrow> int \<Rightarrow> gotime \<Rightarrow> FetchResponse \<Rightarrow> FetchResponse result" where
  "AddRecordWithTimestamp topic part kb vb offset timestamp r =
     (let frb = getOrCreateBlock topic part r;
          records = first_records (newDefaultRecords (Some (new_batch\<lparr>rbt_LogAppendTime := frp_LogAppendTime r,
            rbt_FirstTimestamp := timestamp, rbt_MaxTimestamp := frp_Timestamp r\<rparr>))) frb
      in case rcs_RecordBatch records of
           None \<Rightarrow> Inl NilPanic
         | Some batch \<Rightarrow>
             Inr (set_block topic part (put_first (records\<lparr>rcs_RecordBatch :=
               Some (addRecord (new_record kb vb offset (time_sub timestamp (rbt_FirstTimestamp batch))) batch)\<rparr>) frb) r))"

definition AddRecordBatchWithTimestamp ::
  "string \<Rightarrow> int \<Rightarrow> string option \<Rightarrow> string option \<Rightarrow> int \<Rightarrow> int \<Rightarrow> bool \<Rightarrow> gotime \<Rightarrow> FetchResponse \<Rightarrow> FetchResponse" where
  "AddRecordBatchWithTimestamp topic part kb vb offset producerID isTransactional timestamp r =
     (let frb = getOrCreateBlock topic part r;
          batch = new_batch\<lparr>rbt_LogAppendTime := frp_LogAppendTime r, rbt_FirstTimestamp := timestamp,
            rbt_MaxTimestamp := frp_Timestamp r, rbt_FirstOffset := offset, rbt_ProducerID := producerID,
            rbt_IsTransactional := isTransactional\<rparr>;
          rec = new_record kb vb 0 (time_sub timestamp (rbt_FirstTimestamp batch))
      in set_block topic part
           (frb\<lparr>frb_RecordsSet := frb_RecordsSet frb @ [newDefaultRecords (Some (addRecord rec batch))]\<rparr>) r)"

text \<open>The key and the value of a control record are written into buffers of four and six zero bytes.\<close>

definition write_into :: "nat \<Rightarrow> etree list \<Rightarrow> string result" where
  "write_into n ts =
     bindR (real ts \<lparr>re_raw = replicate n (byte 0), re_off = 0\<rparr>) (\<lambda>s.
       case s of Inl e \<Rightarrow> Inr (replicate n (byte 0)) | Inr e \<Rightarrow> Inr (re_raw e))"

definition AddControlRecordWithTimestamp ::
  "string \<Rightarrow> int \<Rightarrow> int \<Rightarrow> int \<Rightarrow> ControlRecordType \<Rightarrow> gotime \<Rightarrow> FetchResponse \<Rightarrow> FetchResponse result" where
  "AddControlRecordWithTimestamp topic part offset producerID recordType timestamp r =
     (let frb = getOrCreateBlock topic part r;
          batch = new_batch\<lparr>rbt_LogAppendTime := frp_LogAppendTime r, rbt_FirstTimestamp := timestamp,
            rbt_MaxTimestamp := frp_Timestamp r, rbt_FirstOffset := offset, rbt_ProducerID := producerID,
            rbt_IsTransactional := True, rbt_Control := True\<rparr>;
          crAbort = \<lparr>ctr_Version = 0, ctr_CoordinatorEpoch = 0, ctr_Type = recordType\<rparr>
      in bindR (write_into 4 (enc_ControlRecord_key crAbort)) (\<lambda>crKey.
         bindR (write_into 6 (enc_ControlRecord_value crAbort)) (\<lambda>crValue.
         let rec = new_record (Some crKey) (Some crValue) 0 (time_sub timestamp (rbt_FirstTimestamp batch))
         in Inr (set_block topic part
           (frb\<lparr>frb_RecordsSet := frb_RecordsSet frb @ [newDefaultRecords (Some (addRecord rec batch))]\<rparr>) r))))"

definition SetLastOffsetDelta :: "string \<Rightarrow> int \<Rightarrow> int \<Rightarrow> FetchResponse \<Rightarrow> FetchResponse result" where
  "SetLastOffsetDelta topic part offset r =
     (let frb = getOrCreateBlock topic part r;
          records = first_records (newDefaultRecords (Some new_batch)) frb
      in case rcs_RecordBatch records of
           None \<Rightarrow> Inl NilPanic
         | Some batch \<Rightarrow>
             Inr (set_block topic part
               (put_first (records\<lparr>rcs_RecordBatch := Some (batch\<lparr>rbt_LastOffsetDelta := offset\<rparr>)\<rparr>) frb) r))"

definition SetLastStableOffset :: "string \<Rightarrow> int \<Rightarrow> int \<Rightarrow> FetchResponse \<Rightarrow> FetchResponse" where
  "SetLastStableOffset topic part offset r =
     set_block topic part ((getOrCreateBlock topic part r)\<lparr>frb_LastStableOffset := offset\<rparr>) r"

text \<open>
  A control record that was added is found again. One of unknown type is not: its key keeps the zero bytes of
  its type, which mean an abort.
\<close>

lemma isControl_batch: "isControl (newDefaultRecords (Some b)) = Inr (rbt_Control b)"
  by (simp add: isControl_def find_type_def newDefaultRecords_def)

lemma control_record_added:
  assumes "AddControlRecordWithTimestamp topic part offset producerID recordType timestamp r = Inr r'"
    and "get_block (frp_Blocks r) topic part = None"
  obtains b records where "FetchResponse_GetBlock topic part r' = Some b" "frb_RecordsSet b = [records]"
    "isControl records = Inr True"
    "getControlRecord records = Inr (Inr \<lparr>ctr_Version = 0, ctr_CoordinatorEpoch = 0,
      ctr_Type = (if recordType = ControlRecordCommit then ControlRecordCommit else ControlRecordAbort)\<rparr>)"
proof -
  let ?z = "byte 0" and ?t = "byte (if recordType = ControlRecordCommit then 1 else 0)"
  have key: "write_into 4 (enc_ControlRecord_key \<lparr>ctr_Version = 0, ctr_CoordinatorEpoch = 0, ctr_Type = recordType\<rparr>) = Inr [?z, ?z, ?z, ?t]"
    by (cases recordType; hypsubst; code_simp)
  have val: "write_into 6 (enc_ControlRecord_value \<lparr>ctr_Version = 0, ctr_CoordinatorEpoch = 0, ctr_Type = recordType\<rparr>) = Inr [?z, ?z, ?z, ?z, ?z, ?z]"
    by code_simp
  have dec: "dec_ControlRecord [?z, ?z, ?z, ?t] [?z, ?z, ?z, ?z, ?z, ?z] = Inr (Inr \<lparr>ctr_Version = 0, ctr_CoordinatorEpoch = 0,
      ctr_Type = (if recordType = ControlRecordCommit then ControlRecordCommit else ControlRecordAbort)\<rparr>)"
    by (cases recordType; hypsubst; code_simp)
  let ?batch = "new_batch\<lparr>rbt_LogAppendTime := frp_LogAppendTime r, rbt_FirstTimestamp := timestamp,
      rbt_MaxTimestamp := frp_Timestamp r, rbt_FirstOffset := offset, rbt_ProducerID := producerID,
      rbt_IsTransactional := True, rbt_Control := True\<rparr>"
  let ?records = "newDefaultRecords (Some (addRecord (new_record (Some [?z, ?z, ?z, ?t]) (Some [?z, ?z, ?z, ?z, ?z, ?z]) 0
      (time_sub timestamp timestamp)) ?batch))"
  have r': "r' = set_block topic part (new_block\<lparr>frb_RecordsSet := [?records]\<rparr>) r"
    using assms key val by (simp add: AddControlRecordWithTimestamp_def Let_def getOrCreateBlock_def new_block_def)
  show ?thesis
  proof (rule that)
    show "FetchResponse_GetBlock topic part r' = Some (new_block\<lparr>frb_RecordsSet := [?records]\<rparr>)"
      by (simp add: r' FetchResponse_GetBlock_def set_block_def get_put_block)
    show "isControl ?records = Inr True" by (simp add: isControl_batch addRecord_def)
    show "getControlRecord ?records = Inr (Inr \<lparr>ctr_Version = 0, ctr_CoordinatorEpoch = 0,
        ctr_Type = (if recordType = ControlRecordCommit then ControlRecordCommit else ControlRecordAbort)\<rparr>)"
      using dec by (simp add: newDefaultRecords_def addRecord_def new_record_def new_batch_def getControlRecord_def bytes_of_def)
  qed simp
qed

subsection \<open>The header of a response (response_header.go)\<close>

record responseHeader =
  rsh_length :: int
  rsh_correlationID :: int

definition MaxResponseSize :: int where
  "MaxResponseSize = 100 * 1024 * 1024"

definition dec_responseHeader :: "responseHeader dec" where
  "dec_responseHeader =
     bindD getInt32 (\<lambda>len.
       if len \<le> 4 \<or> MaxResponseSize < len
       then failD (PacketDecodingError (''message of length '' @ Itoa len @ '' too large or too small''))
       else bindD getInt32 (\<lambda>correlationID. returnD \<lparr>rsh_length = len, rsh_correlationID = correlationID\<rparr>))"

lemma guarded_responseHeader: "guarded P dec_responseHeader"
  unfolding dec_responseHeader_def by (intro guarded_intros)

end
