(* ===== verification/Kafka_Version.thy ===== *)
theory Kafka_Version
  imports Kafka_Encoder
begin

section \<open>Versions of the broker\<close>

text \<open>
  \<open>KafkaVersion\<close> of utils.go: the order that \<open>IsAtLeast\<close> decides, and the notation that \<open>ParseKafkaVersion\<close> reads
  and \<open>String\<close> prints. The four numbers are of type \<open>uint\<close>; a version is made linearly ordered so that the
  library's order lemmas apply to it.
\<close>

datatype KafkaVersion = KafkaVersion (major: nat) (minor: nat) (veryMinor: nat) (patch: nat)

definition version_numbers :: "KafkaVersion \<Rightarrow> nat list" where
  "version_numbers v = [major v, minor v, veryMinor v, patch v]"

definition newKafkaVersion :: "nat \<Rightarrow> nat \<Rightarrow> nat \<Rightarrow> nat \<Rightarrow> KafkaVersion" where
  "newKafkaVersion a b c d = KafkaVersion a b c d"

fun at_least :: "nat list \<Rightarrow> nat list \<Rightarrow> bool" where
  "at_least (v # vs) (w # ws) = (if w < v then True else if v < w then False else at_least vs ws)"
| "at_least _ _ = True"

definition IsAtLeast :: "KafkaVersion \<Rightarrow> KafkaVersion \<Rightarrow> bool" where
  "IsAtLeast v other = at_least (version_numbers v) (version_numbers other)"

definition V0_8_2_0 :: KafkaVersion where "V0_8_2_0 = newKafkaVersion 0 8 2 0"
definition V0_8_2_1 :: KafkaVersion where "V0_8_2_1 = newKafkaVersion 0 8 2 1"
definition V0_8_2_2 :: KafkaVersion where "V0_8_2_2 = newKafkaVersion 0 8 2 2"
definition V0_9_0_0 :: KafkaVersion where "V0_9_0_0 = newKafkaVersion 0 9 0 0"
definition V0_9_0_1 :: KafkaVersion where "V0_9_0_1 = newKafkaVersion 0 9 0 1"
definition V0_10_0_0 :: KafkaVersion where "V0_10_0_0 = newKafkaVersion 0 10 0 0"
definition V0_10_0_1 :: KafkaVersion where "V0_10_0_1 = newKafkaVersion 0 10 0 1"
definition V0_10_1_0 :: KafkaVersion where "V0_10_1_0 = newKafkaVersion 0 10 1 0"
definition V0_10_1_1 :: KafkaVersion where "V0_10_1_1 = newKafkaVersion 0 10 1 1"
definition V0_10_2_0 :: KafkaVersion where "V0_10_2_0 = newKafkaVersion 0 10 2 0"
definition V0_10_2_1 :: KafkaVersion where "V0_10_2_1 = newKafkaVersion 0 10 2 1"
definition V0_11_0_0 :: KafkaVersion where "V0_11_0_0 = newKafkaVersion 0 11 0 0"
definition V0_11_0_1 :: KafkaVersion where "V0_11_0_1 = newKafkaVersion 0 11 0 1"
definition V0_11_0_2 :: KafkaVersion where "V0_11_0_2 = newKafkaVersion 0 11 0 2"
definition V1_0_0_0 :: KafkaVersion where "V1_0_0_0 = newKafkaVersion 1 0 0 0"
definition V1_1_0_0 :: KafkaVersion where "V1_1_0_0 = newKafkaVersion 1 1 0 0"
definition V1_1_1_0 :: KafkaVersion where "V1_1_1_0 = newKafkaVersion 1 1 1 0"
definition V2_0_0_0 :: KafkaVersion where "V2_0_0_0 = newKafkaVersion 2 0 0 0"
definition V2_0_1_0 :: KafkaVersion where "V2_0_1_0 = newKafkaVersion 2 0 1 0"
definition V2_1_0_0 :: KafkaVersion where "V2_1_0_0 = newKafkaVersion 2 1 0 0"
definition V2_2_0_0 :: KafkaVersion where "V2_2_0_0 = newKafkaVersion 2 2 0 0"

definition SupportedVersions :: "KafkaVersion list" where
  "SupportedVersions =
     [V0_8_2_0, V0_8_2_1, V0_8_2_2, V0_9_0_0, V0_9_0_1, V0_10_0_0, V0_10_0_1, V0_10_1_0, V0_10_1_1, V0_10_2_0,
      V0_10_2_1, V0_11_0_0, V0_11_0_1, V0_11_0_2, V1_0_0_0, V1_1_0_0, V1_1_1_0, V2_0_0_0, V2_0_1_0, V2_1_0_0,
      V2_2_0_0]"

definition MinVersion :: KafkaVersion where "MinVersion = V0_8_2_0"
definition MaxVersion :: KafkaVersion where "MaxVersion = V2_2_0_0"

subsection \<open>Reading and printing\<close>

text \<open>
  The regular expressions ask for numbers between the dots, \<open>fmt.Sscanf\<close> then reads each of them with
  \<open>strconv.ParseUint\<close>.
\<close>

definition is_number :: "string \<Rightarrow> bool" where
  "is_number s \<longleftrightarrow> s \<noteq> [] \<and> list_all is_digit s"

fun scan_numbers :: "string list \<Rightarrow> kerror + nat list" where
  "scan_numbers [] = Inr []"
| "scan_numbers (s # ss) =
     (case ParseUint s of
        (_, Some e) \<Rightarrow> Inl (ErrNum e)
      | (n, None) \<Rightarrow> bindR (scan_numbers ss) (\<lambda>ns. Inr (nat n # ns)))"

definition invalid_version :: "string \<Rightarrow> kerror" where
  "invalid_version s = ErrorString (''invalid version `'' @ s @ ''`'')"

definition scanKafkaVersion :: "string \<Rightarrow> string list \<Rightarrow> kerror + nat list" where
  "scanKafkaVersion s parts =
     (if length parts = 3 \<and> list_all is_number parts then scan_numbers parts else Inl (invalid_version s))"

definition ParseKafkaVersion :: "string \<Rightarrow> KafkaVersion \<times> kerror option" where
  "ParseKafkaVersion s =
     (if length s < 5 then (MinVersion, Some (invalid_version s))
      else
        case
          (if hd s = CHR ''0''
           then (case split_byte (CHR ''.'') s of
               z # parts \<Rightarrow>
                 bindR (if z = ''0'' then scanKafkaVersion s parts else Inl (invalid_version s)) (\<lambda>ns. Inr (0 # ns))
             | [] \<Rightarrow> Inl (invalid_version s))
           else bindR (scanKafkaVersion s (split_byte (CHR ''.'') s)) (\<lambda>ns. Inr (ns @ [0])))
        of Inl e \<Rightarrow> (MinVersion, Some e)
         | Inr ns \<Rightarrow> (newKafkaVersion (ns ! 0) (ns ! 1) (ns ! 2) (ns ! 3), None))"

definition Version_String :: "KafkaVersion \<Rightarrow> string" where
  "Version_String v =
     (if major v = 0
      then ''0.'' @ digits_of (minor v) @ ''.'' @ digits_of (veryMinor v) @ ''.'' @ digits_of (patch v)
      else digits_of (major v) @ ''.'' @ digits_of (minor v) @ ''.'' @ digits_of (veryMinor v))"

subsection \<open>The order of the versions\<close>

lemma at_least_refl: "at_least v v"
  by (induction v) auto

lemma at_least_total: "at_least v w \<or> at_least w v"
  by (induction v w rule: at_least.induct) auto

lemma at_least_antisym: "at_least v w \<Longrightarrow> at_least w v \<Longrightarrow> length v = length w \<Longrightarrow> v = w"
  by (induction v w rule: at_least.induct) (auto split: if_splits)

lemma at_least_trans: "at_least u v \<Longrightarrow> at_least v w \<Longrightarrow> length u = length v \<Longrightarrow> length v = length w \<Longrightarrow> at_least u w"
proof (induction u v arbitrary: w rule: at_least.induct)
  case (1 a u b v)
  then show ?case by (cases w) (auto split: if_splits)
qed auto

instantiation KafkaVersion :: linorder
begin

definition less_eq_KafkaVersion :: "KafkaVersion \<Rightarrow> KafkaVersion \<Rightarrow> bool" where
  "v \<le> w \<longleftrightarrow> IsAtLeast w v"

definition less_KafkaVersion :: "KafkaVersion \<Rightarrow> KafkaVersion \<Rightarrow> bool" where
  "v < w \<longleftrightarrow> \<not> IsAtLeast v (w :: KafkaVersion)"

instance
proof
  fix u v w :: KafkaVersion
  have len: "length (version_numbers x) = 4" for x by (simp add: version_numbers_def)
  have eq: "version_numbers v = version_numbers w \<Longrightarrow> v = w" for v w by (cases v; cases w) (simp add: version_numbers_def)
  show "v < w \<longleftrightarrow> v \<le> w \<and> \<not> w \<le> v"
    using at_least_total by (auto simp: less_KafkaVersion_def less_eq_KafkaVersion_def IsAtLeast_def)
  show "v \<le> v" by (simp add: less_eq_KafkaVersion_def IsAtLeast_def at_least_refl)
  show "u \<le> v \<Longrightarrow> v \<le> w \<Longrightarrow> u \<le> w"
    using at_least_trans [of "version_numbers w" "version_numbers v" "version_numbers u"] by (auto simp: less_eq_KafkaVersion_def IsAtLeast_def len)
  show "v \<le> w \<Longrightarrow> w \<le> v \<Longrightarrow> v = w"
    using at_least_antisym eq by (auto simp: less_eq_KafkaVersion_def IsAtLeast_def len)
  show "v \<le> w \<or> w \<le> v" using at_least_total by (auto simp: less_eq_KafkaVersion_def IsAtLeast_def)
qed

end

lemma IsAtLeast_iff: "IsAtLeast v w \<longleftrightarrow> w \<le> v"
  by (simp add: less_eq_KafkaVersion_def)

lemma less_eq_components:
  "KafkaVersion a b c d \<le> KafkaVersion a' b' c' d' \<longleftrightarrow>
    a < a' \<or> a = a' \<and> (b < b' \<or> b = b' \<and> (c < c' \<or> c = c' \<and> d \<le> d'))"
  by (auto simp: less_eq_KafkaVersion_def IsAtLeast_def version_numbers_def)

lemmas version_consts = V0_8_2_0_def V0_8_2_1_def V0_8_2_2_def V0_9_0_0_def V0_9_0_1_def V0_10_0_0_def V0_10_0_1_def
  V0_10_1_0_def V0_10_1_1_def V0_10_2_0_def V0_10_2_1_def V0_11_0_0_def V0_11_0_1_def V0_11_0_2_def V1_0_0_0_def
  V1_1_0_0_def V1_1_1_0_def V2_0_0_0_def V2_0_1_0_def V2_1_0_0_def V2_2_0_0_def MinVersion_def MaxVersion_def
  newKafkaVersion_def

text \<open>The supported versions are listed in their order, from the least to the greatest.\<close>

lemma SupportedVersions_sorted: "sorted_wrt (<) SupportedVersions"
  by (simp add: SupportedVersions_def version_consts less_le less_eq_components)

lemma SupportedVersions_bounds: "v \<in> set SupportedVersions \<Longrightarrow> MinVersion \<le> v \<and> v \<le> MaxVersion"
  by (auto simp: SupportedVersions_def version_consts less_eq_components)

subsection \<open>A version that is printed is read back\<close>

lemma split_byte_append: "c \<notin> set a \<Longrightarrow> split_byte c (a @ c # b) = a # split_byte c b"
  by (induction a) auto

lemma split_byte_id: "c \<notin> set a \<Longrightarrow> split_byte c a = [a]"
  by (induction a) auto

lemma dot_digits: "CHR ''.'' \<notin> set (digits_of n)"
  using is_digit_digits_of [of n] by (auto simp: list_all_iff is_digit_def)

lemma split_dots: "split_byte (CHR ''.'') (digits_of a @ ''.'' @ digits_of b @ ''.'' @ digits_of c) = [digits_of a, digits_of b, digits_of c]"
  by (simp add: split_byte_append split_byte_id dot_digits)

lemma scan_printed:
  "int a < 2 ^ 64 \<Longrightarrow> int b < 2 ^ 64 \<Longrightarrow> int c < 2 ^ 64 \<Longrightarrow> scanKafkaVersion s [digits_of a, digits_of b, digits_of c] = Inr [a, b, c]"
  by (simp add: scanKafkaVersion_def is_number_def is_digit_digits_of ParseUint_digits_of)

lemma hd_digits_nonzero: "0 < n \<Longrightarrow> hd (digits_of n) \<noteq> CHR ''0''"
proof (induction n rule: digits_of.induct)
  case (1 n)
  have "byte (48 + int n) \<noteq> CHR ''0''" if "n < 10"
    using rn_digit [OF that] "1.prems" by auto
  with 1 show ?case by (subst digits_of.simps) (auto simp: hd_append)
qed

lemma digits_of_ge1: "1 \<le> length (digits_of n)"
  by (cases "digits_of n") auto



end
