(* ===== verification/Kafka_Bodies.thy ===== *)
theory Kafka_Bodies
  imports Kafka_Group_Messages Kafka_Admin_Messages Kafka_Txn_Messages Kafka_Data_Messages Kafka_Produce_Fetch Kafka_Version
begin

section \<open>The keys and versions of the messages\<close>

text \<open>
  The methods \<open>key\<close>, \<open>version\<close> and \<open>requiredVersion\<close> that each request and response has for the interface
  \<open>protocolBody\<close> of request.go.
\<close>

record api =
  api_key :: int
  api_version :: int
  api_requiredVersion :: KafkaVersion

definition api_CreateAclsRequest :: "CreateAclsRequest \<Rightarrow> api" where
  "api_CreateAclsRequest r =
     \<lparr>api_key = 30, api_version = caq_Version r,
      api_requiredVersion = (if caq_Version r = 1 then V2_0_0_0
      else V0_11_0_0)\<rparr>"

definition api_DeleteAclsRequest :: "DeleteAclsRequest \<Rightarrow> api" where
  "api_DeleteAclsRequest r =
     \<lparr>api_key = 31, api_version = dlq_Version r,
      api_requiredVersion = (if dlq_Version r = 1 then V2_0_0_0
      else V0_11_0_0)\<rparr>"

definition api_DescribeAclsRequest :: "DescribeAclsRequest \<Rightarrow> api" where
  "api_DescribeAclsRequest r =
     \<lparr>api_key = 29, api_version = daq_Version r,
      api_requiredVersion = (if daq_Version r = 1 then V2_0_0_0
      else V0_11_0_0)\<rparr>"

definition api_AddOffsetsToTxnRequest :: "AddOffsetsToTxnRequest \<Rightarrow> api" where
  "api_AddOffsetsToTxnRequest r =
     \<lparr>api_key = 25, api_version = 0,
      api_requiredVersion = V0_11_0_0\<rparr>"

definition api_AddPartitionsToTxnRequest :: "AddPartitionsToTxnRequest \<Rightarrow> api" where
  "api_AddPartitionsToTxnRequest r =
     \<lparr>api_key = 24, api_version = 0,
      api_requiredVersion = V0_11_0_0\<rparr>"

definition api_AlterConfigsRequest :: "AlterConfigsRequest \<Rightarrow> api" where
  "api_AlterConfigsRequest r =
     \<lparr>api_key = 33, api_version = 0,
      api_requiredVersion = V0_11_0_0\<rparr>"

definition api_ApiVersionsRequest :: "ApiVersionsRequest \<Rightarrow> api" where
  "api_ApiVersionsRequest r =
     \<lparr>api_key = 18, api_version = 0,
      api_requiredVersion = V0_10_0_0\<rparr>"

definition api_ConsumerMetadataRequest :: "ConsumerMetadataRequest \<Rightarrow> api" where
  "api_ConsumerMetadataRequest r =
     \<lparr>api_key = 10, api_version = 0,
      api_requiredVersion = V0_8_2_0\<rparr>"

definition api_CreatePartitionsRequest :: "CreatePartitionsRequest \<Rightarrow> api" where
  "api_CreatePartitionsRequest r =
     \<lparr>api_key = 37, api_version = 0,
      api_requiredVersion = V1_0_0_0\<rparr>"

definition api_CreateTopicsRequest :: "CreateTopicsRequest \<Rightarrow> api" where
  "api_CreateTopicsRequest r =
     \<lparr>api_key = 19, api_version = ctq_Version r,
      api_requiredVersion = (if ctq_Version r = 2 then V1_0_0_0
      else if ctq_Version r = 1 then V0_11_0_0
      else V0_10_1_0)\<rparr>"

definition api_DeleteGroupsRequest :: "DeleteGroupsRequest \<Rightarrow> api" where
  "api_DeleteGroupsRequest r =
     \<lparr>api_key = 42, api_version = 0,
      api_requiredVersion = V1_1_0_0\<rparr>"

definition api_DeleteRecordsRequest :: "DeleteRecordsRequest \<Rightarrow> api" where
  "api_DeleteRecordsRequest r =
     \<lparr>api_key = 21, api_version = 0,
      api_requiredVersion = V0_11_0_0\<rparr>"

definition api_DeleteTopicsRequest :: "DeleteTopicsRequest \<Rightarrow> api" where
  "api_DeleteTopicsRequest r =
     \<lparr>api_key = 20, api_version = dtq_Version r,
      api_requiredVersion = (if dtq_Version r = 1 then V0_11_0_0
      else V0_10_1_0)\<rparr>"

definition api_DescribeConfigsRequest :: "DescribeConfigsRequest \<Rightarrow> api" where
  "api_DescribeConfigsRequest r =
     \<lparr>api_key = 32, api_version = dcq_Version r,
      api_requiredVersion = (if dcq_Version r = 1 then V1_1_0_0
      else if dcq_Version r = 2 then V2_0_0_0
      else V0_11_0_0)\<rparr>"

definition api_DescribeGroupsRequest :: "DescribeGroupsRequest \<Rightarrow> api" where
  "api_DescribeGroupsRequest r =
     \<lparr>api_key = 15, api_version = 0,
      api_requiredVersion = V0_9_0_0\<rparr>"

definition api_EndTxnRequest :: "EndTxnRequest \<Rightarrow> api" where
  "api_EndTxnRequest r =
     \<lparr>api_key = 26, api_version = 0,
      api_requiredVersion = V0_11_0_0\<rparr>"

definition api_FetchRequest :: "FetchRequest \<Rightarrow> api" where
  "api_FetchRequest r =
     \<lparr>api_key = 1, api_version = frq_Version r,
      api_requiredVersion = (if frq_Version r = 1 then V0_9_0_0
      else if frq_Version r = 2 then V0_10_0_0
      else if frq_Version r = 3 then V0_10_1_0
      else if frq_Version r = 4 then V0_11_0_0
      else MinVersion)\<rparr>"

definition api_FindCoordinatorRequest :: "FindCoordinatorRequest \<Rightarrow> api" where
  "api_FindCoordinatorRequest r =
     \<lparr>api_key = 10, api_version = fcq_Version r,
      api_requiredVersion = (if fcq_Version r = 1 then V0_11_0_0
      else V0_8_2_0)\<rparr>"

definition api_HeartbeatRequest :: "HeartbeatRequest \<Rightarrow> api" where
  "api_HeartbeatRequest r =
     \<lparr>api_key = 12, api_version = 0,
      api_requiredVersion = V0_9_0_0\<rparr>"

definition api_InitProducerIDRequest :: "InitProducerIDRequest \<Rightarrow> api" where
  "api_InitProducerIDRequest r =
     \<lparr>api_key = 22, api_version = 0,
      api_requiredVersion = V0_11_0_0\<rparr>"

definition api_JoinGroupRequest :: "JoinGroupRequest \<Rightarrow> api" where
  "api_JoinGroupRequest r =
     \<lparr>api_key = 11, api_version = jgq_Version r,
      api_requiredVersion = (if jgq_Version r = 2 then V0_11_0_0
      else if jgq_Version r = 1 then V0_10_1_0
      else V0_9_0_0)\<rparr>"

definition api_LeaveGroupRequest :: "LeaveGroupRequest \<Rightarrow> api" where
  "api_LeaveGroupRequest r =
     \<lparr>api_key = 13, api_version = 0,
      api_requiredVersion = V0_9_0_0\<rparr>"

definition api_ListGroupsRequest :: "ListGroupsRequest \<Rightarrow> api" where
  "api_ListGroupsRequest r =
     \<lparr>api_key = 16, api_version = 0,
      api_requiredVersion = V0_9_0_0\<rparr>"

definition api_MetadataRequest :: "MetadataRequest \<Rightarrow> api" where
  "api_MetadataRequest r =
     \<lparr>api_key = 3, api_version = mdq_Version r,
      api_requiredVersion = (if mdq_Version r = 1 then V0_10_0_0
      else if mdq_Version r = 2 then V0_10_1_0
      else if mdq_Version r = 3 \<or> mdq_Version r = 4 then V0_11_0_0
      else if mdq_Version r = 5 then V1_0_0_0
      else MinVersion)\<rparr>"

definition api_OffsetCommitRequest :: "OffsetCommitRequest \<Rightarrow> api" where
  "api_OffsetCommitRequest r =
     \<lparr>api_key = 8, api_version = ocq_Version r,
      api_requiredVersion = (if ocq_Version r = 1 then V0_8_2_0
      else if ocq_Version r = 2 then V0_9_0_0
      else if ocq_Version r = 3 then V0_11_0_0
      else if ocq_Version r = 4 then V2_0_0_0
      else MinVersion)\<rparr>"

definition api_OffsetFetchRequest :: "OffsetFetchRequest \<Rightarrow> api" where
  "api_OffsetFetchRequest r =
     \<lparr>api_key = 9, api_version = ofq_Version r,
      api_requiredVersion = (if ofq_Version r = 1 then V0_8_2_0
      else if ofq_Version r = 2 then V0_10_2_0
      else if ofq_Version r = 3 then V0_11_0_0
      else if ofq_Version r = 4 then V2_0_0_0
      else if ofq_Version r = 5 then V2_1_0_0
      else MinVersion)\<rparr>"

definition api_OffsetRequest :: "OffsetRequest \<Rightarrow> api" where
  "api_OffsetRequest r =
     \<lparr>api_key = 2, api_version = orq_Version r,
      api_requiredVersion = (if orq_Version r = 1 then V0_10_1_0
      else MinVersion)\<rparr>"

definition api_ProduceRequest :: "ProduceRequest \<Rightarrow> api" where
  "api_ProduceRequest r =
     \<lparr>api_key = 0, api_version = prq_Version r,
      api_requiredVersion = (if prq_Version r = 1 then V0_9_0_0
      else if prq_Version r = 2 then V0_10_0_0
      else if prq_Version r = 3 then V0_11_0_0
      else MinVersion)\<rparr>"

definition api_SaslAuthenticateRequest :: "SaslAuthenticateRequest \<Rightarrow> api" where
  "api_SaslAuthenticateRequest r =
     \<lparr>api_key = 36, api_version = 0,
      api_requiredVersion = V1_0_0_0\<rparr>"

definition api_SaslHandshakeRequest :: "SaslHandshakeRequest \<Rightarrow> api" where
  "api_SaslHandshakeRequest r =
     \<lparr>api_key = 17, api_version = shq_Version r,
      api_requiredVersion = V0_10_0_0\<rparr>"

definition api_SyncGroupRequest :: "SyncGroupRequest \<Rightarrow> api" where
  "api_SyncGroupRequest r =
     \<lparr>api_key = 14, api_version = 0,
      api_requiredVersion = V0_9_0_0\<rparr>"

definition api_TxnOffsetCommitRequest :: "TxnOffsetCommitRequest \<Rightarrow> api" where
  "api_TxnOffsetCommitRequest r =
     \<lparr>api_key = 28, api_version = 0,
      api_requiredVersion = V0_11_0_0\<rparr>"

definition api_CreateAclsResponse :: "CreateAclsResponse \<Rightarrow> api" where
  "api_CreateAclsResponse r =
     \<lparr>api_key = 30, api_version = 0,
      api_requiredVersion = V0_11_0_0\<rparr>"

definition api_DeleteAclsResponse :: "DeleteAclsResponse \<Rightarrow> api" where
  "api_DeleteAclsResponse r =
     \<lparr>api_key = 31, api_version = dlp_Version r,
      api_requiredVersion = V0_11_0_0\<rparr>"

definition api_DescribeAclsResponse :: "DescribeAclsResponse \<Rightarrow> api" where
  "api_DescribeAclsResponse r =
     \<lparr>api_key = 29, api_version = dap_Version r,
      api_requiredVersion = (if dap_Version r = 1 then V2_0_0_0
      else V0_11_0_0)\<rparr>"

definition api_AddOffsetsToTxnResponse :: "AddOffsetsToTxnResponse \<Rightarrow> api" where
  "api_AddOffsetsToTxnResponse r =
     \<lparr>api_key = 25, api_version = 0,
      api_requiredVersion = V0_11_0_0\<rparr>"

definition api_AddPartitionsToTxnResponse :: "AddPartitionsToTxnResponse \<Rightarrow> api" where
  "api_AddPartitionsToTxnResponse r =
     \<lparr>api_key = 24, api_version = 0,
      api_requiredVersion = V0_11_0_0\<rparr>"

definition api_AlterConfigsResponse :: "AlterConfigsResponse \<Rightarrow> api" where
  "api_AlterConfigsResponse r =
     \<lparr>api_key = 32, api_version = 0,
      api_requiredVersion = V0_11_0_0\<rparr>"

definition api_ApiVersionsResponse :: "ApiVersionsResponse \<Rightarrow> api" where
  "api_ApiVersionsResponse r =
     \<lparr>api_key = 18, api_version = 0,
      api_requiredVersion = V0_10_0_0\<rparr>"

definition api_ConsumerMetadataResponse :: "ConsumerMetadataResponse \<Rightarrow> api" where
  "api_ConsumerMetadataResponse r =
     \<lparr>api_key = 10, api_version = 0,
      api_requiredVersion = V0_8_2_0\<rparr>"

definition api_CreatePartitionsResponse :: "CreatePartitionsResponse \<Rightarrow> api" where
  "api_CreatePartitionsResponse r =
     \<lparr>api_key = 37, api_version = 0,
      api_requiredVersion = V1_0_0_0\<rparr>"

definition api_CreateTopicsResponse :: "CreateTopicsResponse \<Rightarrow> api" where
  "api_CreateTopicsResponse r =
     \<lparr>api_key = 19, api_version = ctp_Version r,
      api_requiredVersion = (if ctp_Version r = 2 then V1_0_0_0
      else if ctp_Version r = 1 then V0_11_0_0
      else V0_10_1_0)\<rparr>"

definition api_DeleteGroupsResponse :: "DeleteGroupsResponse \<Rightarrow> api" where
  "api_DeleteGroupsResponse r =
     \<lparr>api_key = 42, api_version = 0,
      api_requiredVersion = V1_1_0_0\<rparr>"

definition api_DeleteRecordsResponse :: "DeleteRecordsResponse \<Rightarrow> api" where
  "api_DeleteRecordsResponse r =
     \<lparr>api_key = 21, api_version = 0,
      api_requiredVersion = V0_11_0_0\<rparr>"

definition api_DeleteTopicsResponse :: "DeleteTopicsResponse \<Rightarrow> api" where
  "api_DeleteTopicsResponse r =
     \<lparr>api_key = 20, api_version = dtp_Version r,
      api_requiredVersion = (if dtp_Version r = 1 then V0_11_0_0
      else V0_10_1_0)\<rparr>"

definition api_DescribeConfigsResponse :: "DescribeConfigsResponse \<Rightarrow> api" where
  "api_DescribeConfigsResponse r =
     \<lparr>api_key = 32, api_version = dcp_Version r,
      api_requiredVersion = (if dcp_Version r = 1 then V1_0_0_0
      else if dcp_Version r = 2 then V2_0_0_0
      else V0_11_0_0)\<rparr>"

definition api_DescribeGroupsResponse :: "DescribeGroupsResponse \<Rightarrow> api" where
  "api_DescribeGroupsResponse r =
     \<lparr>api_key = 15, api_version = 0,
      api_requiredVersion = V0_9_0_0\<rparr>"

definition api_EndTxnResponse :: "EndTxnResponse \<Rightarrow> api" where
  "api_EndTxnResponse r =
     \<lparr>api_key = 25, api_version = 0,
      api_requiredVersion = V0_11_0_0\<rparr>"

definition api_FetchResponse :: "FetchResponse \<Rightarrow> api" where
  "api_FetchResponse r =
     \<lparr>api_key = 1, api_version = frp_Version r,
      api_requiredVersion = (if frp_Version r = 1 then V0_9_0_0
      else if frp_Version r = 2 then V0_10_0_0
      else if frp_Version r = 3 then V0_10_1_0
      else if frp_Version r = 4 then V0_11_0_0
      else MinVersion)\<rparr>"

definition api_FindCoordinatorResponse :: "FindCoordinatorResponse \<Rightarrow> api" where
  "api_FindCoordinatorResponse r =
     \<lparr>api_key = 10, api_version = fcp_Version r,
      api_requiredVersion = (if fcp_Version r = 1 then V0_11_0_0
      else V0_8_2_0)\<rparr>"

definition api_HeartbeatResponse :: "HeartbeatResponse \<Rightarrow> api" where
  "api_HeartbeatResponse r =
     \<lparr>api_key = 12, api_version = 0,
      api_requiredVersion = V0_9_0_0\<rparr>"

definition api_InitProducerIDResponse :: "InitProducerIDResponse \<Rightarrow> api" where
  "api_InitProducerIDResponse r =
     \<lparr>api_key = 22, api_version = 0,
      api_requiredVersion = V0_11_0_0\<rparr>"

definition api_JoinGroupResponse :: "JoinGroupResponse \<Rightarrow> api" where
  "api_JoinGroupResponse r =
     \<lparr>api_key = 11, api_version = jgp_Version r,
      api_requiredVersion = (if jgp_Version r = 2 then V0_11_0_0
      else if jgp_Version r = 1 then V0_10_1_0
      else V0_9_0_0)\<rparr>"

definition api_LeaveGroupResponse :: "LeaveGroupResponse \<Rightarrow> api" where
  "api_LeaveGroupResponse r =
     \<lparr>api_key = 13, api_version = 0,
      api_requiredVersion = V0_9_0_0\<rparr>"

definition api_ListGroupsResponse :: "ListGroupsResponse \<Rightarrow> api" where
  "api_ListGroupsResponse r =
     \<lparr>api_key = 16, api_version = 0,
      api_requiredVersion = V0_9_0_0\<rparr>"

definition api_MetadataResponse :: "MetadataResponse \<Rightarrow> api" where
  "api_MetadataResponse r =
     \<lparr>api_key = 3, api_version = mdp_Version r,
      api_requiredVersion = (if mdp_Version r = 1 then V0_10_0_0
      else if mdp_Version r = 2 then V0_10_1_0
      else if mdp_Version r = 3 \<or> mdp_Version r = 4 then V0_11_0_0
      else if mdp_Version r = 5 then V1_0_0_0
      else MinVersion)\<rparr>"

definition api_OffsetCommitResponse :: "OffsetCommitResponse \<Rightarrow> api" where
  "api_OffsetCommitResponse r =
     \<lparr>api_key = 8, api_version = ocp_Version r,
      api_requiredVersion = (if ocp_Version r = 1 then V0_8_2_0
      else if ocp_Version r = 2 then V0_9_0_0
      else if ocp_Version r = 3 then V0_11_0_0
      else if ocp_Version r = 4 then V2_0_0_0
      else MinVersion)\<rparr>"

definition api_OffsetFetchResponse :: "OffsetFetchResponse \<Rightarrow> api" where
  "api_OffsetFetchResponse r =
     \<lparr>api_key = 9, api_version = ofp_Version r,
      api_requiredVersion = (if ofp_Version r = 1 then V0_8_2_0
      else if ofp_Version r = 2 then V0_10_2_0
      else if ofp_Version r = 3 then V0_11_0_0
      else if ofp_Version r = 4 then V2_0_0_0
      else if ofp_Version r = 5 then V2_1_0_0
      else MinVersion)\<rparr>"

definition api_OffsetResponse :: "OffsetResponse \<Rightarrow> api" where
  "api_OffsetResponse r =
     \<lparr>api_key = 2, api_version = orp_Version r,
      api_requiredVersion = (if orp_Version r = 1 then V0_10_1_0
      else MinVersion)\<rparr>"

definition api_ProduceResponse :: "ProduceResponse \<Rightarrow> api" where
  "api_ProduceResponse r =
     \<lparr>api_key = 0, api_version = prp_Version r,
      api_requiredVersion = (if prp_Version r = 1 then V0_9_0_0
      else if prp_Version r = 2 then V0_10_0_0
      else if prp_Version r = 3 then V0_11_0_0
      else MinVersion)\<rparr>"

definition api_SaslAuthenticateResponse :: "SaslAuthenticateResponse \<Rightarrow> api" where
  "api_SaslAuthenticateResponse r =
     \<lparr>api_key = 36, api_version = 0,
      api_requiredVersion = V1_0_0_0\<rparr>"

definition api_SaslHandshakeResponse :: "SaslHandshakeResponse \<Rightarrow> api" where
  "api_SaslHandshakeResponse r =
     \<lparr>api_key = 17, api_version = 0,
      api_requiredVersion = V0_10_0_0\<rparr>"

definition api_SyncGroupResponse :: "SyncGroupResponse \<Rightarrow> api" where
  "api_SyncGroupResponse r =
     \<lparr>api_key = 14, api_version = 0,
      api_requiredVersion = V0_9_0_0\<rparr>"

definition api_TxnOffsetCommitResponse :: "TxnOffsetCommitResponse \<Rightarrow> api" where
  "api_TxnOffsetCommitResponse r =
     \<lparr>api_key = 28, api_version = 0,
      api_requiredVersion = V0_11_0_0\<rparr>"

lemmas body_apis = api_CreateAclsRequest_def
  api_DeleteAclsRequest_def
  api_DescribeAclsRequest_def
  api_AddOffsetsToTxnRequest_def
  api_AddPartitionsToTxnRequest_def
  api_AlterConfigsRequest_def
  api_ApiVersionsRequest_def
  api_ConsumerMetadataRequest_def
  api_CreatePartitionsRequest_def
  api_CreateTopicsRequest_def
  api_DeleteGroupsRequest_def
  api_DeleteRecordsRequest_def
  api_DeleteTopicsRequest_def
  api_DescribeConfigsRequest_def
  api_DescribeGroupsRequest_def
  api_EndTxnRequest_def
  api_FetchRequest_def
  api_FindCoordinatorRequest_def
  api_HeartbeatRequest_def
  api_InitProducerIDRequest_def
  api_JoinGroupRequest_def
  api_LeaveGroupRequest_def
  api_ListGroupsRequest_def
  api_MetadataRequest_def
  api_OffsetCommitRequest_def
  api_OffsetFetchRequest_def
  api_OffsetRequest_def
  api_ProduceRequest_def
  api_SaslAuthenticateRequest_def
  api_SaslHandshakeRequest_def
  api_SyncGroupRequest_def
  api_TxnOffsetCommitRequest_def
  api_CreateAclsResponse_def
  api_DeleteAclsResponse_def
  api_DescribeAclsResponse_def
  api_AddOffsetsToTxnResponse_def
  api_AddPartitionsToTxnResponse_def
  api_AlterConfigsResponse_def
  api_ApiVersionsResponse_def
  api_ConsumerMetadataResponse_def
  api_CreatePartitionsResponse_def
  api_CreateTopicsResponse_def
  api_DeleteGroupsResponse_def
  api_DeleteRecordsResponse_def
  api_DeleteTopicsResponse_def
  api_DescribeConfigsResponse_def
  api_DescribeGroupsResponse_def
  api_EndTxnResponse_def
  api_FetchResponse_def
  api_FindCoordinatorResponse_def
  api_HeartbeatResponse_def
  api_InitProducerIDResponse_def
  api_JoinGroupResponse_def
  api_LeaveGroupResponse_def
  api_ListGroupsResponse_def
  api_MetadataResponse_def
  api_OffsetCommitResponse_def
  api_OffsetFetchResponse_def
  api_OffsetResponse_def
  api_ProduceResponse_def
  api_SaslAuthenticateResponse_def
  api_SaslHandshakeResponse_def
  api_SyncGroupResponse_def
  api_TxnOffsetCommitResponse_def

end
