(* ===== verification/Kafka_Request.thy ===== *)
theory Kafka_Request
  imports Kafka_Bodies
begin

section \<open>Requests\<close>

text \<open>
  request.go: the header of a request, its body by its key, and the reader of a whole request. The interface
  \<open>protocolBody\<close> is the sum of the requests; a method call on it is a case distinction.
\<close>

datatype protocolBody =
    CreateAclsQ CreateAclsRequest
  | DeleteAclsQ DeleteAclsRequest
  | DescribeAclsQ DescribeAclsRequest
  | AddOffsetsToTxnQ AddOffsetsToTxnRequest
  | AddPartitionsToTxnQ AddPartitionsToTxnRequest
  | AlterConfigsQ AlterConfigsRequest
  | ApiVersionsQ ApiVersionsRequest
  | ConsumerMetadataQ ConsumerMetadataRequest
  | CreatePartitionsQ CreatePartitionsRequest
  | CreateTopicsQ CreateTopicsRequest
  | DeleteGroupsQ DeleteGroupsRequest
  | DeleteRecordsQ DeleteRecordsRequest
  | DeleteTopicsQ DeleteTopicsRequest
  | DescribeConfigsQ DescribeConfigsRequest
  | DescribeGroupsQ DescribeGroupsRequest
  | EndTxnQ EndTxnRequest
  | FetchQ FetchRequest
  | FindCoordinatorQ FindCoordinatorRequest
  | HeartbeatQ HeartbeatRequest
  | InitProducerIDQ InitProducerIDRequest
  | JoinGroupQ JoinGroupRequest
  | LeaveGroupQ LeaveGroupRequest
  | ListGroupsQ ListGroupsRequest
  | MetadataQ MetadataRequest
  | OffsetCommitQ OffsetCommitRequest
  | OffsetFetchQ OffsetFetchRequest
  | OffsetQ OffsetRequest
  | ProduceQ ProduceRequest
  | SaslAuthenticateQ SaslAuthenticateRequest
  | SaslHandshakeQ SaslHandshakeRequest
  | SyncGroupQ SyncGroupRequest
  | TxnOffsetCommitQ TxnOffsetCommitRequest

fun body_api :: "protocolBody \<Rightarrow> api" where
  "body_api (CreateAclsQ r) = api_CreateAclsRequest r"
| "body_api (DeleteAclsQ r) = api_DeleteAclsRequest r"
| "body_api (DescribeAclsQ r) = api_DescribeAclsRequest r"
| "body_api (AddOffsetsToTxnQ r) = api_AddOffsetsToTxnRequest r"
| "body_api (AddPartitionsToTxnQ r) = api_AddPartitionsToTxnRequest r"
| "body_api (AlterConfigsQ r) = api_AlterConfigsRequest r"
| "body_api (ApiVersionsQ r) = api_ApiVersionsRequest r"
| "body_api (ConsumerMetadataQ r) = api_ConsumerMetadataRequest r"
| "body_api (CreatePartitionsQ r) = api_CreatePartitionsRequest r"
| "body_api (CreateTopicsQ r) = api_CreateTopicsRequest r"
| "body_api (DeleteGroupsQ r) = api_DeleteGroupsRequest r"
| "body_api (DeleteRecordsQ r) = api_DeleteRecordsRequest r"
| "body_api (DeleteTopicsQ r) = api_DeleteTopicsRequest r"
| "body_api (DescribeConfigsQ r) = api_DescribeConfigsRequest r"
| "body_api (DescribeGroupsQ r) = api_DescribeGroupsRequest r"
| "body_api (EndTxnQ r) = api_EndTxnRequest r"
| "body_api (FetchQ r) = api_FetchRequest r"
| "body_api (FindCoordinatorQ r) = api_FindCoordinatorRequest r"
| "body_api (HeartbeatQ r) = api_HeartbeatRequest r"
| "body_api (InitProducerIDQ r) = api_InitProducerIDRequest r"
| "body_api (JoinGroupQ r) = api_JoinGroupRequest r"
| "body_api (LeaveGroupQ r) = api_LeaveGroupRequest r"
| "body_api (ListGroupsQ r) = api_ListGroupsRequest r"
| "body_api (MetadataQ r) = api_MetadataRequest r"
| "body_api (OffsetCommitQ r) = api_OffsetCommitRequest r"
| "body_api (OffsetFetchQ r) = api_OffsetFetchRequest r"
| "body_api (OffsetQ r) = api_OffsetRequest r"
| "body_api (ProduceQ r) = api_ProduceRequest r"
| "body_api (SaslAuthenticateQ r) = api_SaslAuthenticateRequest r"
| "body_api (SaslHandshakeQ r) = api_SaslHandshakeRequest r"
| "body_api (SyncGroupQ r) = api_SyncGroupRequest r"
| "body_api (TxnOffsetCommitQ r) = api_TxnOffsetCommitRequest r"

definition body_key :: "protocolBody \<Rightarrow> int" where
  "body_key b = api_key (body_api b)"

definition body_version :: "protocolBody \<Rightarrow> int" where
  "body_version b = api_version (body_api b)"

definition body_requiredVersion :: "protocolBody \<Rightarrow> KafkaVersion" where
  "body_requiredVersion b = api_requiredVersion (body_api b)"

fun enc_body :: "packer \<Rightarrow> protocolBody \<Rightarrow> etree list" where
  "enc_body pack (CreateAclsQ r) = enc_CreateAclsRequest r"
| "enc_body pack (DeleteAclsQ r) = enc_DeleteAclsRequest r"
| "enc_body pack (DescribeAclsQ r) = enc_DescribeAclsRequest r"
| "enc_body pack (AddOffsetsToTxnQ r) = enc_AddOffsetsToTxnRequest r"
| "enc_body pack (AddPartitionsToTxnQ r) = enc_AddPartitionsToTxnRequest r"
| "enc_body pack (AlterConfigsQ r) = enc_AlterConfigsRequest r"
| "enc_body pack (ApiVersionsQ r) = enc_ApiVersionsRequest r"
| "enc_body pack (ConsumerMetadataQ r) = enc_ConsumerMetadataRequest r"
| "enc_body pack (CreatePartitionsQ r) = enc_CreatePartitionsRequest r"
| "enc_body pack (CreateTopicsQ r) = enc_CreateTopicsRequest r"
| "enc_body pack (DeleteGroupsQ r) = enc_DeleteGroupsRequest r"
| "enc_body pack (DeleteRecordsQ r) = enc_DeleteRecordsRequest r"
| "enc_body pack (DeleteTopicsQ r) = enc_DeleteTopicsRequest r"
| "enc_body pack (DescribeConfigsQ r) = enc_DescribeConfigsRequest r"
| "enc_body pack (DescribeGroupsQ r) = enc_DescribeGroupsRequest r"
| "enc_body pack (EndTxnQ r) = enc_EndTxnRequest r"
| "enc_body pack (FetchQ r) = enc_FetchRequest r"
| "enc_body pack (FindCoordinatorQ r) = enc_FindCoordinatorRequest r"
| "enc_body pack (HeartbeatQ r) = enc_HeartbeatRequest r"
| "enc_body pack (InitProducerIDQ r) = enc_InitProducerIDRequest r"
| "enc_body pack (JoinGroupQ r) = enc_JoinGroupRequest r"
| "enc_body pack (LeaveGroupQ r) = enc_LeaveGroupRequest r"
| "enc_body pack (ListGroupsQ r) = enc_ListGroupsRequest r"
| "enc_body pack (MetadataQ r) = enc_MetadataRequest r"
| "enc_body pack (OffsetCommitQ r) = enc_OffsetCommitRequest r"
| "enc_body pack (OffsetFetchQ r) = enc_OffsetFetchRequest r"
| "enc_body pack (OffsetQ r) = enc_OffsetRequest r"
| "enc_body pack (ProduceQ r) = enc_ProduceRequest pack r"
| "enc_body pack (SaslAuthenticateQ r) = enc_SaslAuthenticateRequest r"
| "enc_body pack (SaslHandshakeQ r) = enc_SaslHandshakeRequest r"
| "enc_body pack (SyncGroupQ r) = enc_SyncGroupRequest r"
| "enc_body pack (TxnOffsetCommitQ r) = enc_TxnOffsetCommitRequest r"

text \<open>\<open>allocateBody\<close> and the \<open>decode\<close> of the body it allocates; \<open>None\<close> for a key it does not know.\<close>

definition bodyD :: "('a \<Rightarrow> protocolBody) \<Rightarrow> 'a dec \<Rightarrow> protocolBody dec option" where
  "bodyD f m = Some (bindD m (\<lambda>r. returnD (f r)))"

definition allocateBody :: "unpacker \<Rightarrow> nat \<Rightarrow> int \<Rightarrow> int \<Rightarrow> protocolBody dec option" where
  "allocateBody unpack depth key version =
     (if key = 0 then bodyD ProduceQ (dec_ProduceRequest unpack depth version)
      else if key = 1 then bodyD FetchQ (dec_FetchRequest version)
      else if key = 2 then bodyD OffsetQ (dec_OffsetRequest version)
      else if key = 3 then bodyD MetadataQ (dec_MetadataRequest version)
      else if key = 8 then bodyD OffsetCommitQ (dec_OffsetCommitRequest version)
      else if key = 9 then bodyD OffsetFetchQ (dec_OffsetFetchRequest version)
      else if key = 10 then bodyD FindCoordinatorQ (dec_FindCoordinatorRequest version)
      else if key = 11 then bodyD JoinGroupQ (dec_JoinGroupRequest version)
      else if key = 12 then bodyD HeartbeatQ (dec_HeartbeatRequest version)
      else if key = 13 then bodyD LeaveGroupQ (dec_LeaveGroupRequest version)
      else if key = 14 then bodyD SyncGroupQ (dec_SyncGroupRequest version)
      else if key = 15 then bodyD DescribeGroupsQ (dec_DescribeGroupsRequest version)
      else if key = 16 then bodyD ListGroupsQ (dec_ListGroupsRequest version)
      else if key = 17 then bodyD SaslHandshakeQ (dec_SaslHandshakeRequest version)
      else if key = 18 then bodyD ApiVersionsQ (dec_ApiVersionsRequest version)
      else if key = 19 then bodyD CreateTopicsQ (dec_CreateTopicsRequest version)
      else if key = 20 then bodyD DeleteTopicsQ (dec_DeleteTopicsRequest version)
      else if key = 21 then bodyD DeleteRecordsQ (dec_DeleteRecordsRequest version)
      else if key = 22 then bodyD InitProducerIDQ (dec_InitProducerIDRequest version)
      else if key = 24 then bodyD AddPartitionsToTxnQ (dec_AddPartitionsToTxnRequest version)
      else if key = 25 then bodyD AddOffsetsToTxnQ (dec_AddOffsetsToTxnRequest version)
      else if key = 26 then bodyD EndTxnQ (dec_EndTxnRequest version)
      else if key = 28 then bodyD TxnOffsetCommitQ (dec_TxnOffsetCommitRequest version)
      else if key = 29 then bodyD DescribeAclsQ (dec_DescribeAclsRequest version)
      else if key = 30 then bodyD CreateAclsQ (dec_CreateAclsRequest version)
      else if key = 31 then bodyD DeleteAclsQ (dec_DeleteAclsRequest version)
      else if key = 32 then bodyD DescribeConfigsQ (dec_DescribeConfigsRequest version)
      else if key = 33 then bodyD AlterConfigsQ (dec_AlterConfigsRequest version)
      else if key = 36 then bodyD SaslAuthenticateQ (dec_SaslAuthenticateRequest version)
      else if key = 37 then bodyD CreatePartitionsQ (dec_CreatePartitionsRequest version)
      else if key = 42 then bodyD DeleteGroupsQ (dec_DeleteGroupsRequest version)
      else None)"

record request =
  req_correlationID :: int
  req_clientID :: string
  req_body :: protocolBody

definition request_fields :: "packer \<Rightarrow> request \<Rightarrow> etree list" where
  "request_fields pack r =
     concat [[EInt16 (body_key (req_body r)), EInt16 (body_version (req_body r)), EInt32 (req_correlationID r),
       EString (req_clientID r)], enc_body pack (req_body r)]"

definition enc_request :: "packer \<Rightarrow> request \<Rightarrow> etree list" where
  "enc_request pack r = [EFrame FLength (request_fields pack r)]"

definition unknown_key :: "int \<Rightarrow> kerror" where
  "unknown_key key = PacketDecodingError (''unknown request key ('' @ Itoa key @ '')'')"

definition dec_request :: "unpacker \<Rightarrow> nat \<Rightarrow> request dec" where
  "dec_request unpack depth =
     bindD getInt16 (\<lambda>key.
     bindD getInt16 (\<lambda>version.
     bindD getInt32 (\<lambda>correlationID.
     bindD getString (\<lambda>clientID.
     bindD (case allocateBody unpack depth key version of None \<Rightarrow> failD (unknown_key key) | Some m \<Rightarrow> m) (\<lambda>body.
     returnD \<lparr>req_correlationID = correlationID, req_clientID = clientID, req_body = body\<rparr>)))))"

text \<open>\<open>io.read_full\<close> from a stream of bytes: the bytes it hands out and those that are left.\<close>

definition read_full :: "nat \<Rightarrow> string \<Rightarrow> (kerror + string) \<times> string" where
  "read_full n s =
     (if n \<le> length s then (Inr (take n s), drop n s)
      else if s = [] then (Inl ErrEOF, []) else (Inl ErrUnexpectedEOF, []))"

text \<open>\<open>decodeRequest\<close> returns the request, the number of bytes it read, and leaves the rest of the stream.\<close>

definition decodeRequest :: "unpacker \<Rightarrow> nat \<Rightarrow> string \<Rightarrow> ((kerror + request) \<times> int \<times> string) result" where
  "decodeRequest unpack depth s =
     (case read_full 4 s of
        (Inl e, s) \<Rightarrow> Inr (Inl e, 0, s)
      | (Inr lengthBytes, s) \<Rightarrow>
          let len = swrap 32 (unbe lengthBytes) in
          if len \<le> 4 \<or> MaxRequestSize < len
          then Inr (Inl (PacketDecodingError (''message of length '' @ Itoa len @ '' too large or too small'')), 4, s)
          else
            (case read_full (nat len) s of
               (Inl e, s) \<Rightarrow> Inr (Inl e, 4, s)
             | (Inr encodedReq, s) \<Rightarrow>
                 bindR (decode (dec_request unpack depth) encodedReq) (\<lambda>r. Inr (r, 4 + len, s))))"

subsection \<open>Round trip\<close>

text \<open>
  \<open>canon_body\<close> collects the conditions under which each message survives, \<open>sent_body\<close> what the receiver gets: a
  request for the metadata of a consumer group arrives as the request for its coordinator that it is on the wire.
\<close>

fun canon_body :: "packer \<Rightarrow> nat \<Rightarrow> protocolBody \<Rightarrow> bool" where
  "canon_body pack depth (CreateAclsQ r) = canon_CreateAclsRequest r"
| "canon_body pack depth (DeleteAclsQ r) = canon_DeleteAclsRequest r"
| "canon_body pack depth (DescribeAclsQ r) = canon_DescribeAclsRequest r"
| "canon_body pack depth (AddOffsetsToTxnQ r) = True"
| "canon_body pack depth (AddPartitionsToTxnQ r) = canon_AddPartitionsToTxnRequest r"
| "canon_body pack depth (AlterConfigsQ r) = canon_AlterConfigsRequest r"
| "canon_body pack depth (ApiVersionsQ r) = True"
| "canon_body pack depth (ConsumerMetadataQ r) = True"
| "canon_body pack depth (CreatePartitionsQ r) = canon_CreatePartitionsRequest r"
| "canon_body pack depth (CreateTopicsQ r) = canon_CreateTopicsRequest r"
| "canon_body pack depth (DeleteGroupsQ r) = True"
| "canon_body pack depth (DeleteRecordsQ r) = canon_DeleteRecordsRequest r"
| "canon_body pack depth (DeleteTopicsQ r) = canon_DeleteTopicsRequest r"
| "canon_body pack depth (DescribeConfigsQ r) = canon_DescribeConfigsRequest r"
| "canon_body pack depth (DescribeGroupsQ r) = True"
| "canon_body pack depth (EndTxnQ r) = True"
| "canon_body pack depth (FetchQ r) = canon_FetchRequest r"
| "canon_body pack depth (FindCoordinatorQ r) = canon_FindCoordinatorRequest r"
| "canon_body pack depth (HeartbeatQ r) = True"
| "canon_body pack depth (InitProducerIDQ r) = canon_InitProducerIDRequest r"
| "canon_body pack depth (JoinGroupQ r) = canon_JoinGroupRequest r"
| "canon_body pack depth (LeaveGroupQ r) = True"
| "canon_body pack depth (ListGroupsQ r) = True"
| "canon_body pack depth (MetadataQ r) = canon_MetadataRequest r"
| "canon_body pack depth (OffsetCommitQ r) = canon_OffsetCommitRequest r"
| "canon_body pack depth (OffsetFetchQ r) = canon_OffsetFetchRequest r"
| "canon_body pack depth (OffsetQ r) = canon_OffsetRequest r"
| "canon_body pack depth (ProduceQ r) = canon_ProduceRequest pack depth r"
| "canon_body pack depth (SaslAuthenticateQ r) = True"
| "canon_body pack depth (SaslHandshakeQ r) = canon_SaslHandshakeRequest r"
| "canon_body pack depth (SyncGroupQ r) = canon_SyncGroupRequest r"
| "canon_body pack depth (TxnOffsetCommitQ r) = canon_TxnOffsetCommitRequest r"

fun sent_body :: "protocolBody \<Rightarrow> protocolBody" where
  "sent_body (CreateAclsQ r) = CreateAclsQ r"
| "sent_body (DeleteAclsQ r) = DeleteAclsQ r"
| "sent_body (DescribeAclsQ r) = DescribeAclsQ r"
| "sent_body (AddOffsetsToTxnQ r) = AddOffsetsToTxnQ r"
| "sent_body (AddPartitionsToTxnQ r) = AddPartitionsToTxnQ r"
| "sent_body (AlterConfigsQ r) = AlterConfigsQ r"
| "sent_body (ApiVersionsQ r) = ApiVersionsQ r"
| "sent_body (ConsumerMetadataQ r) = FindCoordinatorQ \<lparr>fcq_Version = 0, fcq_CoordinatorKey = cmq_ConsumerGroup r, fcq_CoordinatorType = 0\<rparr>"
| "sent_body (CreatePartitionsQ r) = CreatePartitionsQ r"
| "sent_body (CreateTopicsQ r) = CreateTopicsQ r"
| "sent_body (DeleteGroupsQ r) = DeleteGroupsQ r"
| "sent_body (DeleteRecordsQ r) = DeleteRecordsQ r"
| "sent_body (DeleteTopicsQ r) = DeleteTopicsQ r"
| "sent_body (DescribeConfigsQ r) = DescribeConfigsQ r"
| "sent_body (DescribeGroupsQ r) = DescribeGroupsQ r"
| "sent_body (EndTxnQ r) = EndTxnQ r"
| "sent_body (FetchQ r) = FetchQ r"
| "sent_body (FindCoordinatorQ r) = FindCoordinatorQ r"
| "sent_body (HeartbeatQ r) = HeartbeatQ r"
| "sent_body (InitProducerIDQ r) = InitProducerIDQ r"
| "sent_body (JoinGroupQ r) = JoinGroupQ (sent_JoinGroupRequest r)"
| "sent_body (LeaveGroupQ r) = LeaveGroupQ r"
| "sent_body (ListGroupsQ r) = ListGroupsQ r"
| "sent_body (MetadataQ r) = MetadataQ r"
| "sent_body (OffsetCommitQ r) = OffsetCommitQ r"
| "sent_body (OffsetFetchQ r) = OffsetFetchQ r"
| "sent_body (OffsetQ r) = OffsetQ r"
| "sent_body (ProduceQ r) = ProduceQ (sent_ProduceRequest r)"
| "sent_body (SaslAuthenticateQ r) = SaslAuthenticateQ r"
| "sent_body (SaslHandshakeQ r) = SaslHandshakeQ r"
| "sent_body (SyncGroupQ r) = SyncGroupQ r"
| "sent_body (TxnOffsetCommitQ r) = TxnOffsetCommitQ r"

definition sent_request :: "request \<Rightarrow> request" where
  "sent_request r = r\<lparr>req_body := sent_body (req_body r)\<rparr>"

definition canon_request :: "packer \<Rightarrow> nat \<Rightarrow> request \<Rightarrow> bool" where
  "canon_request pack depth r \<longleftrightarrow>
     canon_body pack depth (req_body r) \<and> tree_ok (enc_request pack r) \<and>
     int (length (wire (enc_request pack r))) \<le> MaxRequestSize"

lemma decodes_bodyD: "decodes m ts v \<Longrightarrow> w = f v \<Longrightarrow> bodyD f m = Some (bindD m (\<lambda>r. returnD (f r))) \<and>
    decodes (bindD m (\<lambda>r. returnD (f r))) ts w"
  by (auto simp: bodyD_def intro: decodes_bind_Nil decodes_return)

lemmas decodes_requests = decodes_CreateAclsRequest decodes_DeleteAclsRequest decodes_DescribeAclsRequest decodes_AddOffsetsToTxnRequest decodes_AddPartitionsToTxnRequest decodes_AlterConfigsRequest decodes_ApiVersionsRequest decodes_CreatePartitionsRequest decodes_CreateTopicsRequest decodes_DeleteGroupsRequest decodes_DeleteRecordsRequest decodes_DeleteTopicsRequest decodes_DescribeConfigsRequest decodes_DescribeGroupsRequest decodes_EndTxnRequest decodes_FetchRequest decodes_FindCoordinatorRequest decodes_HeartbeatRequest decodes_InitProducerIDRequest decodes_JoinGroupRequest decodes_LeaveGroupRequest decodes_ListGroupsRequest decodes_MetadataRequest decodes_OffsetCommitRequest decodes_OffsetFetchRequest decodes_OffsetRequest decodes_SaslAuthenticateRequest decodes_SaslHandshakeRequest decodes_SyncGroupRequest decodes_TxnOffsetCommitRequest

lemmas guarded_requests = guarded_CreateAclsRequest guarded_DeleteAclsRequest guarded_DescribeAclsRequest guarded_AddOffsetsToTxnRequest guarded_AddPartitionsToTxnRequest guarded_AlterConfigsRequest guarded_ApiVersionsRequest guarded_CreatePartitionsRequest guarded_CreateTopicsRequest guarded_DeleteGroupsRequest guarded_DeleteRecordsRequest guarded_DeleteTopicsRequest guarded_DescribeConfigsRequest guarded_DescribeGroupsRequest guarded_EndTxnRequest guarded_FetchRequest guarded_FindCoordinatorRequest guarded_HeartbeatRequest guarded_InitProducerIDRequest guarded_JoinGroupRequest guarded_LeaveGroupRequest guarded_ListGroupsRequest guarded_MetadataRequest guarded_OffsetCommitRequest guarded_OffsetFetchRequest guarded_OffsetRequest guarded_ProduceRequest guarded_SaslAuthenticateRequest guarded_SaslHandshakeRequest guarded_SyncGroupRequest guarded_TxnOffsetCommitRequest

lemma decodes_alloc: "decodes m ts v \<Longrightarrow> decodes (bindD m (\<lambda>r. returnD (f r))) ts (f v)"
  by (erule decodes_bind_Nil) (simp add: decodes_return)

lemma decodes_group_metadata:
  "decodes (bindD (dec_FindCoordinatorRequest 0) (\<lambda>r. returnD (FindCoordinatorQ r))) (enc_ConsumerMetadataRequest r)
    (FindCoordinatorQ \<lparr>fcq_Version = 0, fcq_CoordinatorKey = cmq_ConsumerGroup r, fcq_CoordinatorType = 0\<rparr>)"
proof -
  let ?f = "\<lparr>fcq_Version = 0, fcq_CoordinatorKey = cmq_ConsumerGroup r, fcq_CoordinatorType = 0\<rparr>"
  from decodes_FindCoordinatorRequest [of ?f, THEN decodes_alloc [where f = FindCoordinatorQ]] show ?thesis
    by (simp add: enc_ConsumerMetadataRequest_def canon_FindCoordinatorRequest_def)
qed

lemma decodes_body:
  assumes l: "lossless pack unpack" and c: "canon_body pack depth b"
  shows "\<exists>m. allocateBody unpack depth (body_key b) (body_version b) = Some m \<and> decodes m (enc_body pack b) (sent_body b)"
  using c
  by (cases b) (simp_all add: allocateBody_def body_key_def body_version_def body_apis bodyD_def decodes_requests [THEN decodes_alloc]
      decodes_ProduceRequest [OF l, THEN decodes_alloc] decodes_group_metadata)

lemma decodes_request:
  assumes "lossless pack unpack" "canon_body pack depth (req_body r)"
  shows "decodes (dec_request unpack depth) (request_fields pack r) (sent_request r)"
proof -
  from decodes_body [OF assms] obtain m where
    m: "allocateBody unpack depth (body_key (req_body r)) (body_version (req_body r)) = Some m"
      "decodes m (enc_body pack (req_body r)) (sent_body (req_body r))" by blast
  show ?thesis
    unfolding dec_request_def request_fields_def
    by (intro decodes_plain, unfold m(1) option.case, intro decodes_block [OF m(2)] decodes_plain) (simp add: sent_request_def)
qed

lemma read_full_append: "n = length a \<Longrightarrow> read_full n (a @ s) = (Inr a, s)"
  by (simp add: read_full_def)


subsection \<open>Arbitrary bytes\<close>

lemma alloc_intros:
  "pred_option Q x \<Longrightarrow> pred_option Q y \<Longrightarrow> pred_option Q (if c then x else y)" "pred_option Q None"
  "guarded P m \<Longrightarrow> pred_option (guarded P) (bodyD f m)"
  by (simp_all add: bodyD_def guarded_bind guarded_return)

lemma guarded_allocateBody:
  assumes P: "P MakePanic" "P StackOverflow" and small: "\<And>cc z raw. unpack cc z = Inr raw \<Longrightarrow> is_packet raw"
  shows "pred_option (guarded P) (allocateBody unpack depth key version)"
  unfolding allocateBody_def by (intro alloc_intros guarded_requests P small)

lemma guarded_request:
  assumes P: "P MakePanic" "P StackOverflow" and small: "\<And>cc z raw. unpack cc z = Inr raw \<Longrightarrow> is_packet raw"
  shows "guarded P (dec_request unpack depth)"
  unfolding dec_request_def
  using guarded_allocateBody [where P = P, OF P small]
  by (intro guarded_intros) (auto simp: guarded_return option.pred_set split: option.splits)

lemma read_full_cases:
  assumes "read_full n s = (Inr a, t)"
  shows "s = a @ t" "length a = n"
  using assms by (auto simp: read_full_def split: if_splits)


text \<open>A request of 18 bytes that makes the reader panic: the number of its resources is -1.\<close>

definition describe_configs_minus_one :: string where
  "describe_configs_minus_one = be 4 14 @ be 2 32 @ be 2 0 @ be 4 7 @ be 2 0 @ be 4 (-1)"


definition ex_request :: request where
  "ex_request = \<lparr>req_correlationID = 5, req_clientID = ''soar'', req_body =
     ProduceQ (AddBatch ''sql'' 0 (new_batch\<lparr>rbt_Codec := 1, rbt_Records := [new_record None (Some ''x'') 0 0]\<rparr>)
       \<lparr>prq_TransactionalID = None, prq_RequiredAcks = 1, prq_Timeout = 100, prq_Version = 3, prq_records = []\<rparr>)\<rparr>"

lemma ex_canon: "canon_request (\<lambda>_ _ d. Inr d) 1 ex_request"
  by code_simp

lemma lossless_id: "lossless (\<lambda>_ _ d. Inr d) (\<lambda>_ d. Inr d)"
  by (simp add: lossless_def)


end
