(* ===== verification/Kafka_Broker.thy ===== *)
theory Kafka_Broker
  imports Kafka_Request
begin

section \<open>The connection to a broker\<close>

text \<open>
  broker.go: the requests that goroutines send over one connection, and the goroutine \<open>responseReceiver\<close> that
  reads the responses and hands them to the callers in the order of the requests. A caller holds the lock from the
  check of the connection until its promise is in the channel \<open>responses\<close>, whose capacity is
  \<open>MaxOpenRequests - 1\<close>: \<open>bs_waiting\<close> is the promise that waits for room there, \<open>bs_current\<close> the one the receiver
  works on. \<open>bs_net\<close> holds the bytes that the server has sent and that have not arrived, \<open>bs_in\<close> those that have
  arrived and were not read. \<open>bs_promises\<close> is the history of the promises, \<open>bs_answers\<close> that of what the callers
  were given.
\<close>

record responsePromise =
  rp_correlationID :: int
  rp_request :: protocolBody

record broker_state =
  bs_Version :: KafkaVersion
  bs_ClientID :: string
  bs_MaxOpenRequests :: nat
  bs_connected :: bool
  bs_connErr :: "kerror option"
  bs_correlationID :: int
  bs_out :: string
  bs_net :: string
  bs_in :: string
  bs_waiting :: "responsePromise option"
  bs_responses :: "responsePromise list"
  bs_current :: "responsePromise option"
  bs_dead :: "kerror option"
  bs_promises :: "responsePromise list"
  bs_answers :: "(responsePromise \<times> (kerror + string)) list"

definition ErrNotConnected :: kerror where
  "ErrNotConnected = ErrorString ''kafka: broker not connected''"

definition ErrUnsupportedVersion :: kerror where
  "ErrUnsupportedVersion = KErr 35"

text \<open>
  \<open>send\<close> up to the channel: the request is encoded with the next correlation ID and written. When the write fails
  after \<open>n\<close> bytes (\<open>werr\<close>), the ID is used again.
\<close>

definition next_request :: "broker_state \<Rightarrow> protocolBody \<Rightarrow> request" where
  "next_request s rb = \<lparr>req_correlationID = bs_correlationID s, req_clientID = bs_ClientID s, req_body = rb\<rparr>"

definition send :: "packer \<Rightarrow> protocolBody \<Rightarrow> bool \<Rightarrow> (nat \<times> kerror) option \<Rightarrow> broker_state \<Rightarrow>
    (kerror + responsePromise option) \<times> broker_state" where
  "send pack rb promiseResponse werr s =
     (if \<not> bs_connected s then (Inl (case bs_connErr s of Some e \<Rightarrow> e | None \<Rightarrow> ErrNotConnected), s)
      else if \<not> IsAtLeast (bs_Version s) (body_requiredVersion rb) then (Inl ErrUnsupportedVersion, s)
      else
        case encodeE (enc_request pack (next_request s rb)) of
          Inl e \<Rightarrow> (Inl e, s)
        | Inr buf \<Rightarrow>
            (case werr of
               Some (n, e) \<Rightarrow> (Inl e, s\<lparr>bs_out := bs_out s @ take n buf\<rparr>)
             | None \<Rightarrow>
                 let s' = s\<lparr>bs_out := bs_out s @ buf, bs_correlationID := swrap 32 (bs_correlationID s + 1)\<rparr> in
                 if \<not> promiseResponse then (Inr None, s')
                 else
                   let promise = \<lparr>rp_correlationID = bs_correlationID s, rp_request = rb\<rparr>
                   in (Inr (Some promise), s'\<lparr>bs_waiting := Some promise, bs_promises := bs_promises s @ [promise]\<rparr>)))"

text \<open>The body of the loop of \<open>responseReceiver\<close>, on a connection that ends after the bytes \<open>s\<close>.\<close>

definition id_mismatch :: "int \<Rightarrow> int \<Rightarrow> kerror" where
  "id_mismatch wanted got =
     PacketDecodingError (''correlation ID didn't match, wanted '' @ Itoa wanted @ '', got '' @ Itoa got)"

definition receive_response :: "int \<Rightarrow> string \<Rightarrow> ((kerror + string) \<times> string) result" where
  "receive_response correlationID s =
     (case read_full 8 s of
        (Inl e, s) \<Rightarrow> Inr (Inl e, s)
      | (Inr header, s) \<Rightarrow>
          bindR (decode dec_responseHeader header) (\<lambda>r.
            case r of
              Inl e \<Rightarrow> Inr (Inl e, s)
            | Inr h \<Rightarrow>
                if rsh_correlationID h \<noteq> correlationID
                then Inr (Inl (id_mismatch correlationID (rsh_correlationID h)), s)
                else if rsh_length h - 4 < 0 then Inl MakePanic
                else Inr (read_full (nat (rsh_length h - 4)) s)))"

definition answer :: "responsePromise \<Rightarrow> kerror + string \<Rightarrow> broker_state \<Rightarrow> broker_state" where
  "answer p r s =
     s\<lparr>bs_current := None, bs_answers := bs_answers s @ [(p, r)],
       bs_dead := (case bs_dead s of Some e \<Rightarrow> Some e | None \<Rightarrow> (case r of Inl e \<Rightarrow> Some e | Inr _ \<Rightarrow> None))\<rparr>"

definition receive_current :: "responsePromise \<Rightarrow> broker_state \<Rightarrow> broker_state result" where
  "receive_current p s =
     (case bs_dead s of
        Some e \<Rightarrow> Inr (answer p (Inl e) s)
      | None \<Rightarrow>
          bindR (receive_response (rp_correlationID p) (bs_in s)) (\<lambda>(r, rest).
            Inr (answer p r (s\<lparr>bs_in := rest\<rparr>))))"

text \<open>
  The steps of the receiver and of the channel. A read can fail at any time, by its deadline or because the connection
  is closed; the receiver can also find the connection at its end.
\<close>

inductive wstep :: "broker_state \<Rightarrow> broker_state \<Rightarrow> bool" where
  enqueue: "bs_waiting s = Some p \<Longrightarrow> length (bs_responses s) < bs_MaxOpenRequests s - 1 \<Longrightarrow>
     wstep s (s\<lparr>bs_waiting := None, bs_responses := bs_responses s @ [p]\<rparr>)"
| take_buffered: "bs_current s = None \<Longrightarrow> bs_responses s = p # ps \<Longrightarrow>
     wstep s (s\<lparr>bs_current := Some p, bs_responses := ps\<rparr>)"
| take_waiting: "bs_current s = None \<Longrightarrow> bs_responses s = [] \<Longrightarrow> bs_waiting s = Some p \<Longrightarrow>
     wstep s (s\<lparr>bs_current := Some p, bs_waiting := None\<rparr>)"
| receive: "bs_current s = Some p \<Longrightarrow> receive_current p s = Inr s' \<Longrightarrow> wstep s s'"
| read_fails: "bs_current s = Some p \<Longrightarrow> bs_dead s = None \<Longrightarrow> wstep s (answer p (Inl e) s)"

text \<open>The callers and the network. \<open>reply\<close> is what the server puts on the wire for a request.\<close>

inductive bstep :: "packer \<Rightarrow> (responsePromise \<Rightarrow> string) \<Rightarrow> broker_state \<Rightarrow> broker_state \<Rightarrow> bool"
  for pack :: packer and reply :: "responsePromise \<Rightarrow> string" where
  work: "wstep s s' \<Longrightarrow> bstep pack reply s s'"
| send_promise: "bs_waiting s = None \<Longrightarrow> send pack rb True werr s = (Inr (Some p), s') \<Longrightarrow>
     bstep pack reply s (s'\<lparr>bs_net := bs_net s' @ reply p\<rparr>)"
| send_plain: "bs_waiting s = None \<Longrightarrow> send pack rb promiseResponse werr s = (r, s') \<Longrightarrow>
     (\<And>p. r \<noteq> Inr (Some p)) \<Longrightarrow> bstep pack reply s s'"
| deliver: "bs_net s = a @ b \<Longrightarrow> bstep pack reply s (s\<lparr>bs_in := bs_in s @ a, bs_net := b\<rparr>)"

definition new_broker :: "KafkaVersion \<Rightarrow> string \<Rightarrow> nat \<Rightarrow> broker_state" where
  "new_broker v clientID maxOpen =
     \<lparr>bs_Version = v, bs_ClientID = clientID, bs_MaxOpenRequests = maxOpen, bs_connected = True, bs_connErr = None,
      bs_correlationID = 0, bs_out = [], bs_net = [], bs_in = [], bs_waiting = None, bs_responses = [],
      bs_current = None, bs_dead = None, bs_promises = [], bs_answers = []\<rparr>"

definition outstanding :: "broker_state \<Rightarrow> responsePromise list" where
  "outstanding s =
     (case bs_current s of None \<Rightarrow> [] | Some p \<Rightarrow> [p]) @ bs_responses s @
     (case bs_waiting s of None \<Rightarrow> [] | Some p \<Rightarrow> [p])"

subsection \<open>The steps by their effect\<close>

lemma decode_guarded: "guarded P m \<Longrightarrow> is_packet buf \<Longrightarrow> decode m buf = Inl p \<Longrightarrow> P p"
  by (erule guardedD [where d = "\<lparr>rd_raw = buf, rd_off = 0\<rparr>"]) (auto simp: decode_def rd_ok_def bindR_def)

lemma header_length: "decode dec_responseHeader buf = Inr (Inr h) \<Longrightarrow> 4 < rsh_length h"
  by (auto simp: decode_def dec_responseHeader_def bindR_def bindD_def returnD_def failD_def
        split: sum.splits prod.splits if_splits)

lemma answer_sel [simp]:
  "bs_current (answer p r s) = None" "bs_waiting (answer p r s) = bs_waiting s" "bs_responses (answer p r s) = bs_responses s"
  "bs_promises (answer p r s) = bs_promises s" "bs_answers (answer p r s) = bs_answers s @ [(p, r)]"
  "bs_in (answer p r s) = bs_in s" "bs_net (answer p r s) = bs_net s"
  "bs_MaxOpenRequests (answer p r s) = bs_MaxOpenRequests s" "bs_correlationID (answer p r s) = bs_correlationID s"
  by (simp_all add: answer_def)

lemma receive_response_total: "\<exists>r rest. receive_response i s = Inr (r, rest)"
proof (cases "read_full 8 s")
  case (Pair hd s')
  show ?thesis
  proof (cases hd)
    case (Inr header)
    have "is_packet header" using Pair Inr by (auto simp: read_full_def is_packet_def split: if_splits)
    then have "\<And>p. decode dec_responseHeader header \<noteq> Inl p"
      using decode_guarded [OF guarded_responseHeader [of "\<lambda>_. False"]] by blast
    then obtain x where x: "decode dec_responseHeader header = Inr x"
      by (cases "decode dec_responseHeader header") auto
    have "\<And>h. x = Inr h \<Longrightarrow> 4 < rsh_length h" using header_length x by blast
    with x Pair Inr show ?thesis by (cases x) (auto simp: receive_response_def)
  qed (simp add: receive_response_def Pair)
qed

lemma receive_current_eq:
  obtains r rest where "receive_current p s = Inr (answer p r (s\<lparr>bs_in := rest\<rparr>))"
    "\<And>e. bs_dead s = Some e \<Longrightarrow> r = Inl e"
    "bs_dead s = None \<Longrightarrow> receive_response (rp_correlationID p) (bs_in s) = Inr (r, rest)"
proof (cases "bs_dead s")
  case None
  obtain r rest where "receive_response (rp_correlationID p) (bs_in s) = Inr (r, rest)"
    using receive_response_total by blast
  with None show ?thesis by (intro that [of r rest]) (auto simp: receive_current_def)
next
  case (Some e)
  then show ?thesis by (intro that [of "Inl e" "bs_in s"]) (auto simp: receive_current_def)
qed

lemma receive_current_sel:
  assumes "receive_current p s = Inr s'"
  shows "bs_current s' = None" "bs_waiting s' = bs_waiting s" "bs_responses s' = bs_responses s"
    "bs_promises s' = bs_promises s" "map fst (bs_answers s') = map fst (bs_answers s) @ [p]"
    "bs_net s' = bs_net s" "bs_MaxOpenRequests s' = bs_MaxOpenRequests s" "bs_correlationID s' = bs_correlationID s"
  by (rule receive_current_eq [of p s]; use assms in simp)+

text \<open>The order of the promises: a step of the receiver moves the first outstanding promise to the answers.\<close>

lemma wstep_order:
  assumes "wstep s s'"
  shows "map fst (bs_answers s') @ outstanding s' = map fst (bs_answers s) @ outstanding s"
    "bs_promises s' = bs_promises s" "bs_MaxOpenRequests s' = bs_MaxOpenRequests s" "bs_correlationID s' = bs_correlationID s"
  using assms by (cases rule: wstep.cases; simp add: outstanding_def receive_current_sel split: option.splits)+

lemma send_promise_eq:
  assumes "send pack rb True werr s = (Inr (Some p), s')"
  shows "\<exists>buf. s' = s\<lparr>bs_out := bs_out s @ buf, bs_correlationID := swrap 32 (bs_correlationID s + 1),
      bs_waiting := Some p, bs_promises := bs_promises s @ [p]\<rparr>"
    "rp_correlationID p = bs_correlationID s" "bs_connected s"
  using assms by (auto simp: send_def Let_def split: if_splits sum.splits option.splits)

lemma send_plain_eq:
  assumes "send pack rb promiseResponse werr s = (r, s')" "\<And>p. r \<noteq> Inr (Some p)"
  shows "s' = s\<lparr>bs_out := bs_out s', bs_correlationID := bs_correlationID s'\<rparr>"
    "bs_correlationID s' = bs_correlationID s \<or> bs_correlationID s' = swrap 32 (bs_correlationID s + 1)"
  using assms by (auto simp: send_def Let_def split: if_splits sum.splits option.splits)

subsection \<open>The bound on the requests in flight\<close>

definition chan_ok :: "broker_state \<Rightarrow> bool" where
  "chan_ok s \<longleftrightarrow> length (bs_responses s) \<le> bs_MaxOpenRequests s - 1"

lemma bstep_chan_ok: "bstep pack reply s s' \<Longrightarrow> chan_ok s \<Longrightarrow> chan_ok s' \<and> bs_MaxOpenRequests s' = bs_MaxOpenRequests s"
proof (induction rule: bstep.induct)
  case (work s s')
  then show ?case by (cases rule: wstep.cases) (auto simp: chan_ok_def receive_current_sel)
next
  case (send_promise s rb werr p s')
  with send_promise_eq(1) [OF send_promise(2)] show ?case by (auto simp: chan_ok_def)
next
  case (send_plain s rb promiseResponse werr r s')
  then show ?case by (subst (1 2) send_plain_eq(1) [OF send_plain(2,3)]) (simp add: chan_ok_def)
qed (auto simp: chan_ok_def)

lemma in_flight_bound:
  assumes "(bstep pack reply)\<^sup>*\<^sup>* (new_broker v clientID maxOpen) s"
  shows "length (outstanding s) \<le> maxOpen - 1 + 2"
proof -
  have "chan_ok s \<and> bs_MaxOpenRequests s = maxOpen"
    using assms by (induction rule: rtranclp_induct) (auto simp: chan_ok_def new_broker_def dest: bstep_chan_ok)
  then show ?thesis by (auto simp: chan_ok_def outstanding_def split: option.splits)
qed

subsection \<open>The order of the answers\<close>

lemma bstep_order:
  "bstep pack reply s s' \<Longrightarrow> bs_promises s = map fst (bs_answers s) @ outstanding s \<Longrightarrow>
    bs_promises s' = map fst (bs_answers s') @ outstanding s'"
proof (induction rule: bstep.induct)
  case (work s s')
  with wstep_order [OF work(1)] show ?case by simp
next
  case (send_promise s rb werr p s')
  with send_promise_eq(1) [OF send_promise(2)] show ?case by (auto simp: outstanding_def)
next
  case (send_plain s rb promiseResponse werr r s')
  then show ?case by (subst (1 2 3) send_plain_eq(1) [OF send_plain(2,3)]) (simp add: outstanding_def)
qed (simp add: outstanding_def)

text \<open>A response on the wire: its length, the correlation ID of the request it answers, and its body.\<close>

definition response_frame :: "int \<Rightarrow> string \<Rightarrow> string" where
  "response_frame correlationID body = be 4 (int (length body) + 4) @ be 4 correlationID @ body"

definition sendable :: "string \<Rightarrow> bool" where
  "sendable body \<longleftrightarrow> body \<noteq> [] \<and> int (length body) + 4 \<le> MaxResponseSize"

lemma decode_header:
  assumes "sint_ok 32 n" "4 < n" "n \<le> MaxResponseSize" "sint_ok 32 i"
  shows "decode dec_responseHeader (be 4 n @ be 4 i) = Inr (Inr \<lparr>rsh_length = n, rsh_correlationID = i\<rparr>)"
proof (rule decode_reads)
  show "reads dec_responseHeader (be 4 n @ be 4 i) \<lparr>rsh_length = n, rsh_correlationID = i\<rparr>"
    unfolding dec_responseHeader_def
    by (rule reads_bind [OF reads_getInts(3) [OF assms(1)]])
       (use assms in \<open>auto intro: reads_bind_return [OF reads_getInts(3)]\<close>)
qed simp

lemma receive_frame:
  assumes "sendable body" "sint_ok 32 i"
  shows "receive_response i (response_frame i body @ s) = Inr (Inr body, s)"
    "receive_response i (take n (response_frame i body)) = Inr (r, rest) \<Longrightarrow> n < length (response_frame i body) \<Longrightarrow> \<exists>e. r = Inl e"
proof -
  let ?n = "int (length body) + 4"
  have n: "sint_ok 32 ?n" "4 < ?n" "?n \<le> MaxResponseSize"
    using assms(1) by (auto simp: sendable_def sint_ok_def MaxResponseSize_def)
  note hdr = decode_header [OF n assms(2)]
  show "receive_response i (response_frame i body @ s) = Inr (Inr body, s)"
    using hdr by (simp add: receive_response_def response_frame_def read_full_def)
  assume r: "receive_response i (take n (response_frame i body)) = Inr (r, rest)" and short: "n < length (response_frame i body)"
  show "\<exists>e. r = Inl e"
  proof (cases "n < 8")
    case True
    with r show ?thesis by (auto simp: receive_response_def read_full_def response_frame_def min_def split: if_splits)
  next
    case False
    then have "read_full 8 (take n (response_frame i body)) = (Inr (be 4 ?n @ be 4 i), take (n - 8) body)"
      by (simp add: read_full_def response_frame_def)
    moreover have "n - 8 < length body" using short False by (simp add: response_frame_def)
    ultimately show ?thesis using r hdr
      by (auto simp: receive_response_def read_full_def split: if_splits)
  qed
qed

text \<open>\<open>answers_in_order\<close>: what is on its way are the responses to the outstanding requests, and what was answered is right.\<close>

definition honest :: "(responsePromise \<Rightarrow> string) \<Rightarrow> responsePromise \<Rightarrow> string" where
  "honest rep p = response_frame (rp_correlationID p) (rep p)"

definition answers_in_order :: "(responsePromise \<Rightarrow> string) \<Rightarrow> broker_state \<Rightarrow> bool" where
  "answers_in_order rep s \<longleftrightarrow>
     sint_ok 32 (bs_correlationID s) \<and> (\<forall>p \<in> set (outstanding s). sint_ok 32 (rp_correlationID p)) \<and>
     (bs_dead s = None \<longrightarrow> bs_in s @ bs_net s = concat (map (honest rep) (outstanding s))) \<and>
     (\<exists>oks errs. bs_answers s = oks @ errs \<and> list_all (\<lambda>a. snd a = Inr (rep (fst a))) oks \<and>
       (case bs_dead s of None \<Rightarrow> errs = [] | Some e \<Rightarrow> list_all (\<lambda>a. snd a = Inl e) errs))"

lemma answers_in_order_answer:
  assumes inv: "answers_in_order rep s" and s: "bs_current s = Some p"
    and r: "\<And>e. bs_dead s = Some e \<Longrightarrow> r = Inl e"
    and ok: "\<And>buf. r = Inr buf \<Longrightarrow> buf = rep p \<and> bs_in s = honest rep p @ rest"
  shows "answers_in_order rep (answer p r (s\<lparr>bs_in := rest\<rparr>))"
proof -
  have out: "outstanding s = p # outstanding (answer p r (s\<lparr>bs_in := rest\<rparr>))"
    using s by (simp add: outstanding_def)
  obtain oks errs where a: "bs_answers s = oks @ errs" "list_all (\<lambda>a. snd a = Inr (rep (fst a))) oks"
    "case bs_dead s of None \<Rightarrow> errs = [] | Some e \<Rightarrow> list_all (\<lambda>a. snd a = Inl e) errs"
    using inv by (auto simp: answers_in_order_def)
  show ?thesis
  proof (cases r)
    case (Inl e)
    then have "bs_dead (answer p r (s\<lparr>bs_in := rest\<rparr>)) = Some e"
      using r by (cases "bs_dead s") (auto simp: answer_def)
    moreover have "bs_answers (answer p r (s\<lparr>bs_in := rest\<rparr>)) = oks @ (errs @ [(p, Inl e)])" using a Inl by simp
    moreover have "list_all (\<lambda>a. snd a = Inl e) (errs @ [(p, Inl e)])"
      using a(3) r Inl by (cases "bs_dead s") auto
    ultimately show ?thesis using inv a(2) out unfolding answers_in_order_def by fastforce
  next
    case (Inr buf)
    then have dead: "bs_dead s = None" using r by (cases "bs_dead s") auto
    from ok [OF Inr] have buf: "buf = rep p" "bs_in s = honest rep p @ rest" by auto
    have "bs_answers (answer p r (s\<lparr>bs_in := rest\<rparr>)) = (oks @ [(p, Inr buf)]) @ []" using a dead Inr by simp
    moreover have "bs_dead (answer p r (s\<lparr>bs_in := rest\<rparr>)) = None" using dead Inr by (simp add: answer_def)
    moreover have "rest @ bs_net s = concat (map (honest rep) (outstanding (answer p r (s\<lparr>bs_in := rest\<rparr>))))"
      using inv dead buf(2) out by (simp add: answers_in_order_def)
    moreover have "list_all (\<lambda>a. snd a = Inr (rep (fst a))) (oks @ [(p, Inr buf)])" using a(2) buf(1) by simp
    ultimately show ?thesis using inv out unfolding answers_in_order_def by fastforce
  qed
qed

lemma answers_in_order_cong:
  assumes "answers_in_order rep s" "sint_ok 32 (bs_correlationID s')" "outstanding s' = outstanding s" "bs_dead s' = bs_dead s"
    "bs_in s' @ bs_net s' = bs_in s @ bs_net s" "bs_answers s' = bs_answers s"
  shows "answers_in_order rep s'"
  using assms(1,2) unfolding answers_in_order_def assms(3-6) by blast

lemma answers_in_order_ID: "answers_in_order rep s \<Longrightarrow> sint_ok 32 (bs_correlationID s)"
  by (simp add: answers_in_order_def)

lemma answers_in_order_next:
  assumes "answers_in_order rep s" "outstanding s = p # ps"
  shows "sint_ok 32 (rp_correlationID p)"
    "bs_dead s = None \<Longrightarrow> bs_in s @ bs_net s = honest rep p @ concat (map (honest rep) ps)"
  using assms by (simp_all add: answers_in_order_def)

lemma answers_in_order_send:
  assumes "answers_in_order rep s" "outstanding s' = outstanding s @ [p]" "sint_ok 32 (rp_correlationID p)"
    "sint_ok 32 (bs_correlationID s')" "bs_dead s' = bs_dead s" "bs_in s' = bs_in s" "bs_net s' = bs_net s @ honest rep p"
    "bs_answers s' = bs_answers s"
  shows "answers_in_order rep s'"
proof -
  have "bs_in s' @ bs_net s' = concat (map (honest rep) (outstanding s'))" if "bs_dead s' = None"
    using assms(1) that unfolding answers_in_order_def assms(2,5-7) by (simp flip: append_assoc)
  with assms(1,3,4) show ?thesis unfolding answers_in_order_def assms(2,5,8) by auto
qed

lemma receive_honest:
  assumes "sendable (rep p)" "sint_ok 32 (rp_correlationID p)" "inp @ net = honest rep p @ later"
    and r: "receive_response (rp_correlationID p) inp = Inr (Inr buf, rest)"
  shows "buf = rep p \<and> inp = honest rep p @ rest"
proof (cases "length inp < length (honest rep p)")
  case True
  have "inp = take (length inp) (inp @ net)" by simp
  also have "\<dots> = take (length inp) (honest rep p)" using True by (simp add: assms(3))
  finally have "inp = take (length inp) (honest rep p)" .
  with receive_frame(2) [OF assms(1,2), of "length inp" "Inr buf" rest] r True show ?thesis by (simp add: honest_def)
next
  case False
  let ?n = "length (honest rep p)"
  have "take ?n inp = take ?n (inp @ net)" using False by simp
  also have "\<dots> = honest rep p" by (simp add: assms(3))
  finally have "inp = honest rep p @ drop ?n inp" by (metis append_take_drop_id)
  with receive_frame(1) [OF assms(1,2), of "drop ?n inp"] r show ?thesis by (auto simp: honest_def)
qed

lemma wstep_answers_in_order:
  assumes "wstep s s'" "answers_in_order rep s" and snd: "\<And>p. sendable (rep p)"
  shows "answers_in_order rep s'"
  using assms(1)
proof (cases rule: wstep.cases)
  case (receive p)
  obtain r rest where r: "receive_current p s = Inr (answer p r (s\<lparr>bs_in := rest\<rparr>))"
    "\<And>e. bs_dead s = Some e \<Longrightarrow> r = Inl e"
    "bs_dead s = None \<Longrightarrow> receive_response (rp_correlationID p) (bs_in s) = Inr (r, rest)"
    by (rule receive_current_eq [of p s], rule that)
  have out: "outstanding s = p # bs_responses s @ (case bs_waiting s of None \<Rightarrow> [] | Some q \<Rightarrow> [q])"
    using receive by (simp add: outstanding_def)
  have ok: "buf = rep p \<and> bs_in s = honest rep p @ rest" if b: "r = Inr buf" for buf
  proof -
    have dead: "bs_dead s = None" using r(2) b by (cases "bs_dead s") auto
    show ?thesis
      by (rule receive_honest [OF snd answers_in_order_next [OF assms(2) out] r(3) [OF dead, unfolded b]]) (fact dead)
  qed
  have "answers_in_order rep (answer p r (s\<lparr>bs_in := rest\<rparr>))"
    by (rule answers_in_order_answer [OF assms(2) receive(1) r(2) ok])
  with r(1) receive(2) show ?thesis by simp
next
  case (read_fails p e)
  have "answers_in_order rep (answer p (Inl e) (s\<lparr>bs_in := bs_in s\<rparr>))"
    by (rule answers_in_order_answer [OF assms(2) read_fails(2)]) (simp_all add: read_fails(3))
  with read_fails(1) show ?thesis by simp
next
  case (enqueue p)
  show ?thesis
    by (rule answers_in_order_cong [OF assms(2)])
       (simp_all add: enqueue outstanding_def answers_in_order_ID [OF assms(2)])
next
  case (take_buffered p ps)
  show ?thesis
    by (rule answers_in_order_cong [OF assms(2)])
       (simp_all add: take_buffered outstanding_def answers_in_order_ID [OF assms(2)])
next
  case (take_waiting p)
  show ?thesis
    by (rule answers_in_order_cong [OF assms(2)])
       (simp_all add: take_waiting outstanding_def answers_in_order_ID [OF assms(2)])
qed

lemma bstep_answers_in_order:
  "bstep pack (honest rep) s s' \<Longrightarrow> answers_in_order rep s \<Longrightarrow> (\<And>p. sendable (rep p)) \<Longrightarrow> answers_in_order rep s'"
proof (induction rule: bstep.induct)
  case (work s s')
  then show ?case by (rule wstep_answers_in_order)
next
  case (send_promise s rb werr p s')
  obtain buf where s': "s' = s\<lparr>bs_out := bs_out s @ buf, bs_correlationID := swrap 32 (bs_correlationID s + 1),
      bs_waiting := Some p, bs_promises := bs_promises s @ [p]\<rparr>"
    using send_promise_eq(1) [OF send_promise(2)] by blast
  have "outstanding (s'\<lparr>bs_net := bs_net s' @ honest rep p\<rparr>) = outstanding s @ [p]"
    using send_promise(1) by (simp add: s' outstanding_def)
  then show ?case
    by (rule answers_in_order_send [OF send_promise(3)])
       (simp_all add: s' sint_ok_swrap answers_in_order_ID [OF send_promise(3)] send_promise_eq(2) [OF send_promise(2)])
next
  case (send_plain s rb promiseResponse werr r s')
  have "sint_ok 32 (bs_correlationID s')"
    using send_plain_eq(2) [OF send_plain(2,3)] answers_in_order_ID [OF send_plain(4)] by (auto simp: sint_ok_swrap)
  moreover have "outstanding s' = outstanding s"
    by (subst send_plain_eq(1) [OF send_plain(2,3)]) (simp add: outstanding_def)
  moreover have "bs_dead s' = bs_dead s" "bs_in s' = bs_in s" "bs_net s' = bs_net s" "bs_answers s' = bs_answers s"
    by (subst send_plain_eq(1) [OF send_plain(2,3)], simp)+
  ultimately show ?case by (intro answers_in_order_cong [OF send_plain(4)]) simp_all
next
  case (deliver s a b)
  show ?case
    by (rule answers_in_order_cong [OF deliver(2)])
       (simp_all add: deliver(1) outstanding_def answers_in_order_ID [OF deliver(2)])
qed

subsection \<open>Progress of the receiver\<close>

definition pending :: "broker_state \<Rightarrow> nat" where
  "pending s =
     (case bs_current s of None \<Rightarrow> 0 | Some p \<Rightarrow> 1) + 2 * length (bs_responses s) +
     (case bs_waiting s of None \<Rightarrow> 0 | Some p \<Rightarrow> 3)"

lemma wstep_pending: "wstep s s' \<Longrightarrow> pending s' < pending s"
  by (cases rule: wstep.cases) (auto simp: pending_def receive_current_sel)

lemma wstep_enabled: "(\<exists>s'. wstep s s') \<longleftrightarrow> outstanding s \<noteq> []"
proof
  assume "\<exists>s'. wstep s s'"
  then obtain s' where "wstep s s'" ..
  then show "outstanding s \<noteq> []" by (cases rule: wstep.cases) (auto simp: outstanding_def)
next
  assume out: "outstanding s \<noteq> []"
  show "\<exists>s'. wstep s s'"
  proof (cases "bs_current s")
    case (Some p)
    obtain r rest where "receive_current p s = Inr (answer p r (s\<lparr>bs_in := rest\<rparr>))"
      by (rule receive_current_eq [of p s], rule that)
    with wstep.receive [OF Some] show ?thesis by blast
  next
    case None
    show ?thesis
    proof (cases "bs_responses s")
      case Nil
      with None out obtain p where "bs_waiting s = Some p" by (auto simp: outstanding_def split: option.splits)
      with wstep.take_waiting [OF None Nil] show ?thesis by blast
    next
      case (Cons p ps)
      with wstep.take_buffered [OF None] show ?thesis by blast
    qed
  qed
qed

lemma wf_wstep: "wfP (\<lambda>s' s. wstep s s')"
  by (rule wfp_if_convertible_to_nat [where f = pending]) (rule wstep_pending)

lemma wsteps_order:
  "wstep\<^sup>*\<^sup>* s s' \<Longrightarrow> map fst (bs_answers s') @ outstanding s' = map fst (bs_answers s) @ outstanding s"
  by (induction rule: rtranclp_induct) (simp_all add: wstep_order(1))

lemma wsteps_to_end: "\<exists>s'. wstep\<^sup>*\<^sup>* s s' \<and> outstanding s' = []"
proof (induction s rule: wfp_induct_rule [OF wf_wstep])
  case (1 s)
  show ?case
  proof (cases "outstanding s = []")
    case False
    with wstep_enabled obtain s1 where "wstep s s1" by blast
    with 1 [OF this] show ?thesis by (meson converse_rtranclp_into_rtranclp)
  qed blast
qed


subsection \<open>A connection that is dead\<close>

lemma bstep_dead:
  "bstep pack reply s s' \<Longrightarrow> bs_dead s = Some e \<Longrightarrow>
    bs_dead s' = Some e \<and> (\<exists>ps. bs_answers s' = bs_answers s @ map (\<lambda>p. (p, Inl e)) ps)"
proof (induction rule: bstep.induct)
  case (work s s')
  from work(1) show ?case
  proof (cases rule: wstep.cases)
    case (receive p)
    then have "s' = answer p (Inl e) s" using work(2) by (simp add: receive_current_def)
    then show ?thesis using work(2) by (auto simp: answer_def intro: exI [of _ "[p]"])
  qed (use work(2) in auto)
next
  case (send_promise s rb werr p s')
  with send_promise_eq(1) [OF send_promise(2)] show ?case by auto
next
  case (send_plain s rb promiseResponse werr r s')
  have "bs_dead s' = bs_dead s" "bs_answers s' = bs_answers s"
    by (subst send_plain_eq(1) [OF send_plain(2,3)], simp)+
  with send_plain(4) show ?case by simp
qed auto

text \<open>A heartbeat, which every broker of version 0.9 takes, for the runs below.\<close>

definition beat :: protocolBody where
  "beat = HeartbeatQ \<lparr>hbq_GroupId = ''g'', hbq_GenerationId = 1, hbq_MemberId = ''m''\<rparr>"

definition beat_promise :: "int \<Rightarrow> responsePromise" where
  "beat_promise i = \<lparr>rp_correlationID = i, rp_request = beat\<rparr>"

definition beats :: "broker_state \<Rightarrow> bool" where
  "beats s \<longleftrightarrow> bs_connected s \<and> bs_Version s = V2_2_0_0 \<and> bs_ClientID s = ''sarama'' \<and> sint_ok 32 (bs_correlationID s)"

lemma send_beat:
  assumes "beats s"
  shows "\<exists>buf. send pack beat True None s = (Inr (Some (beat_promise (bs_correlationID s))),
      s\<lparr>bs_out := bs_out s @ buf, bs_correlationID := swrap 32 (bs_correlationID s + 1),
        bs_waiting := Some (beat_promise (bs_correlationID s)), bs_promises := bs_promises s @ [beat_promise (bs_correlationID s)]\<rparr>)"
proof -
  let ?ts = "enc_request pack (next_request s beat)"
  have "encodeE ?ts = Inr (wire ?ts)"
    by (rule encodeE_ok) (use assms in \<open>simp_all add: enc_request_def request_fields_def next_request_def beat_def beats_def
      enc_HeartbeatRequest_def body_key_def body_version_def body_apis wire_string_def MaxRequestSize_def sint_ok_def\<close>)
  moreover have "IsAtLeast V2_2_0_0 (body_requiredVersion beat)"
    by (simp add: beat_def body_requiredVersion_def body_apis) code_simp
  ultimately show ?thesis using assms by (auto simp: send_def Let_def beats_def beat_promise_def)
qed

lemma beats_new: "beats (new_broker V2_2_0_0 ''sarama'' maxOpen)"
  by (simp add: beats_def new_broker_def sint_ok_def)

lemma step_beat:
  assumes "beats s" "bs_waiting s = None"
  obtains s' where "bstep pack reply s s'" "beats s'" "bs_waiting s' = Some (beat_promise (bs_correlationID s))"
    "bs_responses s' = bs_responses s" "bs_current s' = bs_current s" "bs_MaxOpenRequests s' = bs_MaxOpenRequests s"
    "bs_in s' = bs_in s" "bs_net s' = bs_net s @ reply (beat_promise (bs_correlationID s))" "bs_dead s' = bs_dead s"
    "bs_answers s' = bs_answers s"
proof -
  obtain buf where buf: "send pack beat True None s = (Inr (Some (beat_promise (bs_correlationID s))),
      s\<lparr>bs_out := bs_out s @ buf, bs_correlationID := swrap 32 (bs_correlationID s + 1),
        bs_waiting := Some (beat_promise (bs_correlationID s)), bs_promises := bs_promises s @ [beat_promise (bs_correlationID s)]\<rparr>)"
    using send_beat [OF assms(1)] by blast
  show ?thesis
    by (rule that, rule bstep.send_promise [OF assms(2) buf]) (use assms(1) in \<open>simp_all add: beats_def sint_ok_swrap\<close>)
qed

text \<open>The channel fills up while the receiver waits for the first response.\<close>

lemma fill_channel:
  assumes "n < maxOpen"
  shows "\<exists>s. (bstep pack reply)\<^sup>*\<^sup>* (new_broker V2_2_0_0 ''sarama'' maxOpen) s \<and> beats s \<and> bs_waiting s = None \<and>
    bs_current s \<noteq> None \<and> length (bs_responses s) = n \<and> bs_MaxOpenRequests s = maxOpen"
  using assms
proof (induction n)
  case 0
  obtain s where s: "bstep pack reply (new_broker V2_2_0_0 ''sarama'' maxOpen) s" "beats s"
    "bs_waiting s = Some (beat_promise 0)" "bs_responses s = []" "bs_current s = None" "bs_MaxOpenRequests s = maxOpen"
    by (rule step_beat [OF beats_new, of maxOpen pack reply]) (simp_all add: new_broker_def)
  let ?s = "s\<lparr>bs_current := Some (beat_promise 0), bs_waiting := None\<rparr>"
  have "bstep pack reply s ?s" by (rule bstep.work, rule wstep.take_waiting) (simp_all add: s)
  with s(1) have "(bstep pack reply)\<^sup>*\<^sup>* (new_broker V2_2_0_0 ''sarama'' maxOpen) ?s" by auto
  moreover have "beats ?s" using s(2) by (simp add: beats_def)
  ultimately show ?case using s by (intro exI [of _ ?s]) simp
next
  case (Suc n)
  then obtain s where s: "(bstep pack reply)\<^sup>*\<^sup>* (new_broker V2_2_0_0 ''sarama'' maxOpen) s" "beats s" "bs_waiting s = None"
    "bs_current s \<noteq> None" "length (bs_responses s) = n" "bs_MaxOpenRequests s = maxOpen" by auto
  obtain s' p where s': "bstep pack reply s s'" "beats s'" "bs_waiting s' = Some p"
    "bs_responses s' = bs_responses s" "bs_current s' = bs_current s" "bs_MaxOpenRequests s' = maxOpen"
    by (rule step_beat [OF s(2,3), of pack reply]) (simp add: s(6))
  let ?s = "s'\<lparr>bs_waiting := None, bs_responses := bs_responses s' @ [p]\<rparr>"
  have "bstep pack reply s' ?s" by (rule bstep.work, rule wstep.enqueue) (use s s' Suc(2) in simp_all)
  with s(1) s'(1) have "(bstep pack reply)\<^sup>*\<^sup>* (new_broker V2_2_0_0 ''sarama'' maxOpen) ?s" by auto
  moreover have "beats ?s" using s'(2) by (simp add: beats_def)
  ultimately show ?case using s s' by (intro exI [of _ ?s]) simp
qed

lemma in_flight_attained:
  assumes "0 < maxOpen"
  shows "\<exists>s. (bstep pack reply)\<^sup>*\<^sup>* (new_broker V2_2_0_0 ''sarama'' maxOpen) s \<and> length (outstanding s) = maxOpen + 1"
proof -
  obtain s where s: "(bstep pack reply)\<^sup>*\<^sup>* (new_broker V2_2_0_0 ''sarama'' maxOpen) s" "beats s" "bs_waiting s = None"
    "bs_current s \<noteq> None" "length (bs_responses s) = maxOpen - 1" using fill_channel [of "maxOpen - 1" maxOpen pack reply] assms by auto
  obtain s' p where s': "bstep pack reply s s'" "bs_waiting s' = Some p" "bs_responses s' = bs_responses s" "bs_current s' = bs_current s"
    by (rule step_beat [OF s(2,3), of pack reply]) simp
  have "length (outstanding s') = maxOpen + 1" using s s' assms by (auto simp: outstanding_def)
  moreover from s(1) s'(1) have "(bstep pack reply)\<^sup>*\<^sup>* (new_broker V2_2_0_0 ''sarama'' maxOpen) s'" by auto
  ultimately show ?thesis by blast
qed

text \<open>C14. At most \<open>Net.MaxOpenRequests + 1\<close> requests of a connection are written and not answered, and that many
  can be: the request is on the wire before its promise waits for the channel, and the receiver holds one more.\<close>

theorem requests_in_flight:
  assumes "0 < maxOpen"
  shows "Max {length (outstanding s) | s. (bstep pack reply)\<^sup>*\<^sup>* (new_broker V2_2_0_0 ''sarama'' maxOpen) s} = maxOpen + 1"
proof (rule Max_eqI)
  show "finite {length (outstanding s) | s. (bstep pack reply)\<^sup>*\<^sup>* (new_broker V2_2_0_0 ''sarama'' maxOpen) s}"
    by (rule finite_subset [of _ "{..maxOpen - 1 + 2}"]) (auto dest: in_flight_bound)
  show "maxOpen + 1 \<in> {length (outstanding s) | s. (bstep pack reply)\<^sup>*\<^sup>* (new_broker V2_2_0_0 ''sarama'' maxOpen) s}"
    using in_flight_attained [OF assms, of pack reply] by force
qed (use assms in_flight_bound in fastforce)

theorem requests_in_flight_witness:
  "0 < (5::nat) \<and> Max {length (outstanding s) | s.
     (bstep (\<lambda>_ _ s. Inr s) (\<lambda>_. []))\<^sup>*\<^sup>* (new_broker V2_2_0_0 ''sarama'' 5) s} = 6"
  using requests_in_flight [of 5 "\<lambda>_ _ s. Inr s" "\<lambda>_. []"] by simp



subsection \<open>What the callers are given\<close>

lemma reachable_in_order:
  assumes "(bstep pack (honest rep))\<^sup>*\<^sup>* (new_broker v clientID maxOpen) s" "\<And>p. sendable (rep p)"
  shows "bs_promises s = map fst (bs_answers s) @ outstanding s \<and> answers_in_order rep s"
  using assms(1)
proof (induction rule: rtranclp_induct)
  case base
  show ?case by (simp add: new_broker_def outstanding_def answers_in_order_def sint_ok_def)
next
  case (step y z)
  then show ?case using bstep_order [OF step(2)] bstep_answers_in_order [OF step(2) _ assms(2)] by blast
qed

lemma tagged: "list_all (\<lambda>a. snd a = f (fst a)) as \<Longrightarrow> map (\<lambda>p. (p, f p)) (map fst as) = as"
  by (induction as) auto

text \<open>C12. When the server answers each request that expects a response, in their order, every caller is given the body
  of the response to its own request, however the steps of the callers, of the network and of the receiver interleave
  and however the responses are split on the wire; the correlation ID may wrap around. From the first failure of the
  connection on, the callers are given that error instead.\<close>

theorem answered_in_order:
  assumes "(bstep pack (honest rep))\<^sup>*\<^sup>* (new_broker v clientID maxOpen) s" "\<forall>p. sendable (rep p)"
  shows "\<exists>oks errs. bs_promises s = oks @ errs @ outstanding s \<and>
    bs_answers s = map (\<lambda>p. (p, Inr (rep p))) oks @ map (\<lambda>p. (p, Inl (the (bs_dead s)))) errs \<and>
    (bs_dead s = None \<longrightarrow> errs = [])"
proof -
  from reachable_in_order [OF assms(1)] assms(2)
  have o: "bs_promises s = map fst (bs_answers s) @ outstanding s" "answers_in_order rep s" by auto
  then obtain oks errs where a: "bs_answers s = oks @ errs" "list_all (\<lambda>a. snd a = Inr (rep (fst a))) oks"
    "case bs_dead s of None \<Rightarrow> errs = [] | Some e \<Rightarrow> list_all (\<lambda>a. snd a = Inl e) errs"
    by (auto simp: answers_in_order_def)
  have "list_all (\<lambda>a. snd a = Inl (the (bs_dead s))) errs" "bs_dead s = None \<longrightarrow> map fst errs = []"
    using a(3) by (cases "bs_dead s"; simp)+
  with o(1) a(1) tagged [OF a(2)] tagged [of "\<lambda>_. Inl (the (bs_dead s))" errs] show ?thesis
    by (intro exI [of _ "map fst oks"] exI [of _ "map fst errs"]) simp
qed

lemma answer_run:
  assumes "sendable (rep p)" "sint_ok 32 (rp_correlationID p)" "bs_waiting s = Some p" "bs_responses s = []" "bs_current s = None"
    "bs_in s = []" "bs_net s = honest rep p" "bs_dead s = None"
  shows "\<exists>s'. (bstep pack (honest rep))\<^sup>*\<^sup>* s s' \<and> bs_answers s' = bs_answers s @ [(p, Inr (rep p))] \<and> bs_dead s' = None"
proof -
  let ?s1 = "s\<lparr>bs_in := honest rep p, bs_net := []\<rparr>"
  let ?s2 = "?s1\<lparr>bs_current := Some p, bs_waiting := None\<rparr>"
  let ?s3 = "answer p (Inr (rep p)) (?s2\<lparr>bs_in := []\<rparr>)"
  have 1: "bstep pack (honest rep) s ?s1" using bstep.deliver [of s "honest rep p" "[]"] assms by simp
  have 2: "bstep pack (honest rep) ?s1 ?s2" by (rule bstep.work, rule wstep.take_waiting) (simp_all add: assms)
  have "receive_current p ?s2 = Inr ?s3"
    using receive_frame(1) [OF assms(1,2), of "[]"] by (simp add: receive_current_def honest_def assms)
  then have "bstep pack (honest rep) ?s2 ?s3" by (intro bstep.work wstep.receive) simp_all
  with 1 2 have "(bstep pack (honest rep))\<^sup>*\<^sup>* s ?s3" by (meson converse_rtranclp_into_rtranclp r_into_rtranclp)
  moreover have "bs_answers ?s3 = bs_answers s @ [(p, Inr (rep p))]" "bs_dead ?s3 = None" by (simp_all add: answer_def assms)
  ultimately show ?thesis by blast
qed

lemma beat_run:
  assumes "sendable (rep (beat_promise 0))"
  shows "\<exists>s. (bstep pack (honest rep))\<^sup>*\<^sup>* (new_broker V2_2_0_0 ''sarama'' maxOpen) s \<and>
    bs_answers s = [(beat_promise 0, Inr (rep (beat_promise 0)))]"
proof -
  obtain s where s: "bstep pack (honest rep) (new_broker V2_2_0_0 ''sarama'' maxOpen) s"
    "bs_waiting s = Some (beat_promise 0)" "bs_responses s = []" "bs_current s = None" "bs_in s = []"
    "bs_net s = honest rep (beat_promise 0)" "bs_dead s = None" "bs_answers s = []"
    by (rule step_beat [OF beats_new, of maxOpen pack "honest rep"]) (simp_all add: new_broker_def)
  from answer_run [OF assms _ s(2-7), of pack] s(8) obtain s' where "(bstep pack (honest rep))\<^sup>*\<^sup>* s s'"
    "bs_answers s' = [(beat_promise 0, Inr (rep (beat_promise 0)))]" by (auto simp: beat_promise_def sint_ok_def)
  with s(1) show ?thesis by (meson converse_rtranclp_into_rtranclp)
qed

theorem answered_in_order_witness:
  "\<exists>s oks errs. (bstep (\<lambda>_ _ s. Inr s) (honest (\<lambda>_. ''ok'')))\<^sup>*\<^sup>* (new_broker V2_2_0_0 ''sarama'' 5) s \<and>
     bs_answers s = [(beat_promise 0, Inr ''ok'')] \<and> bs_promises s = oks @ errs @ outstanding s \<and>
     bs_answers s = map (\<lambda>p. (p, Inr ''ok'')) oks @ map (\<lambda>p. (p, Inl (the (bs_dead s)))) errs"
proof -
  have ok: "\<forall>p::responsePromise. sendable ''ok''" by (simp add: sendable_def MaxResponseSize_def)
  then obtain s where s: "(bstep (\<lambda>_ _ s. Inr s) (honest (\<lambda>_. ''ok'')))\<^sup>*\<^sup>* (new_broker V2_2_0_0 ''sarama'' 5) s"
    "bs_answers s = [(beat_promise 0, Inr ''ok'')]" using beat_run [of "\<lambda>_. ''ok''" "\<lambda>_ _ s. Inr s" 5] by auto
  from answered_in_order [OF s(1) ok] s show ?thesis by blast
qed

end
