(* ===== verification/Kafka_Calls.thy ===== *)
theory Kafka_Calls
  imports Kafka_Broker
begin

section \<open>The calls of a broker\<close>

text \<open>
  The methods of broker.go that send a request and wait for its response. A call is given what its write does
  (\<open>werr\<close>) and what the receiver hands it (\<open>ans\<close>); it returns a response, no response (\<open>None\<close>, the nil pointer) or
  an error. The locale \<open>response_codec\<close> is what a call relies on of the response's codec; it is interpreted for
  every response.
\<close>

type_synonym 'a call =
  "packer \<Rightarrow> (nat \<times> kerror) option \<Rightarrow> kerror + string \<Rightarrow> broker_state \<Rightarrow> (kerror + 'a option) result \<times> broker_state"

definition versionedDecode :: "string \<Rightarrow> (int \<Rightarrow> 'a dec) \<Rightarrow> int \<Rightarrow> (kerror + 'a) result" where
  "versionedDecode buf inp version = decode (inp version) buf"

definition sendAndReceive :: "protocolBody \<Rightarrow> (int \<Rightarrow> 'a dec) option \<Rightarrow> 'a call" where
  "sendAndReceive req res pack werr ans s =
     (case send pack req (res \<noteq> None) werr s of
        (Inl e, s') \<Rightarrow> (Inr (Inl e), s')
      | (Inr None, s') \<Rightarrow> (Inr (Inr None), s')
      | (Inr (Some promise), s') \<Rightarrow>
          (case ans of
             Inl e \<Rightarrow> (Inr (Inl e), s')
           | Inr buf \<Rightarrow> (bindR (versionedDecode buf (the res) (body_version req)) (\<lambda>r. Inr (map_sum id Some r)), s')))"

definition GetMetadata :: "MetadataRequest \<Rightarrow> MetadataResponse call" where
  "GetMetadata request pack = sendAndReceive (MetadataQ request) (Some dec_MetadataResponse) pack"

definition GetConsumerMetadata :: "ConsumerMetadataRequest \<Rightarrow> ConsumerMetadataResponse call" where
  "GetConsumerMetadata request pack = sendAndReceive (ConsumerMetadataQ request) (Some dec_ConsumerMetadataResponse) pack"

definition FindCoordinator :: "FindCoordinatorRequest \<Rightarrow> FindCoordinatorResponse call" where
  "FindCoordinator request pack = sendAndReceive (FindCoordinatorQ request) (Some dec_FindCoordinatorResponse) pack"

definition GetAvailableOffsets :: "OffsetRequest \<Rightarrow> OffsetResponse call" where
  "GetAvailableOffsets request pack = sendAndReceive (OffsetQ request) (Some dec_OffsetResponse) pack"

definition NoResponse :: int where
  "NoResponse = 0"

definition Produce :: "ProduceRequest \<Rightarrow> ProduceResponse call" where
  "Produce request pack =
     (if prq_RequiredAcks request = NoResponse then sendAndReceive (ProduceQ request) None pack
      else sendAndReceive (ProduceQ request) (Some dec_ProduceResponse) pack)"

definition Fetch :: "unpacker \<Rightarrow> nat \<Rightarrow> FetchRequest \<Rightarrow> FetchResponse call" where
  "Fetch unpack depth request pack = sendAndReceive (FetchQ request) (Some (dec_FetchResponse unpack depth)) pack"

definition CommitOffset :: "OffsetCommitRequest \<Rightarrow> OffsetCommitResponse call" where
  "CommitOffset request pack = sendAndReceive (OffsetCommitQ request) (Some dec_OffsetCommitResponse) pack"

definition FetchOffset :: "OffsetFetchRequest \<Rightarrow> OffsetFetchResponse call" where
  "FetchOffset request pack = sendAndReceive (OffsetFetchQ request) (Some dec_OffsetFetchResponse) pack"

definition JoinGroup :: "JoinGroupRequest \<Rightarrow> JoinGroupResponse call" where
  "JoinGroup request pack = sendAndReceive (JoinGroupQ request) (Some dec_JoinGroupResponse) pack"

definition SyncGroup :: "SyncGroupRequest \<Rightarrow> SyncGroupResponse call" where
  "SyncGroup request pack = sendAndReceive (SyncGroupQ request) (Some dec_SyncGroupResponse) pack"

definition LeaveGroup :: "LeaveGroupRequest \<Rightarrow> LeaveGroupResponse call" where
  "LeaveGroup request pack = sendAndReceive (LeaveGroupQ request) (Some dec_LeaveGroupResponse) pack"

definition Heartbeat :: "HeartbeatRequest \<Rightarrow> HeartbeatResponse call" where
  "Heartbeat request pack = sendAndReceive (HeartbeatQ request) (Some dec_HeartbeatResponse) pack"

definition ListGroups :: "ListGroupsRequest \<Rightarrow> ListGroupsResponse call" where
  "ListGroups request pack = sendAndReceive (ListGroupsQ request) (Some dec_ListGroupsResponse) pack"

definition DescribeGroups :: "DescribeGroupsRequest \<Rightarrow> DescribeGroupsResponse call" where
  "DescribeGroups request pack = sendAndReceive (DescribeGroupsQ request) (Some dec_DescribeGroupsResponse) pack"

definition ApiVersions :: "ApiVersionsRequest \<Rightarrow> ApiVersionsResponse call" where
  "ApiVersions request pack = sendAndReceive (ApiVersionsQ request) (Some dec_ApiVersionsResponse) pack"

definition CreateTopics :: "CreateTopicsRequest \<Rightarrow> CreateTopicsResponse call" where
  "CreateTopics request pack = sendAndReceive (CreateTopicsQ request) (Some dec_CreateTopicsResponse) pack"

definition DeleteTopics :: "DeleteTopicsRequest \<Rightarrow> DeleteTopicsResponse call" where
  "DeleteTopics request pack = sendAndReceive (DeleteTopicsQ request) (Some dec_DeleteTopicsResponse) pack"

definition CreatePartitions :: "CreatePartitionsRequest \<Rightarrow> CreatePartitionsResponse call" where
  "CreatePartitions request pack = sendAndReceive (CreatePartitionsQ request) (Some dec_CreatePartitionsResponse) pack"

definition DeleteRecords :: "DeleteRecordsRequest \<Rightarrow> DeleteRecordsResponse call" where
  "DeleteRecords request pack = sendAndReceive (DeleteRecordsQ request) (Some dec_DeleteRecordsResponse) pack"

definition DescribeAcls :: "DescribeAclsRequest \<Rightarrow> DescribeAclsResponse call" where
  "DescribeAcls request pack = sendAndReceive (DescribeAclsQ request) (Some dec_DescribeAclsResponse) pack"

definition CreateAcls :: "CreateAclsRequest \<Rightarrow> CreateAclsResponse call" where
  "CreateAcls request pack = sendAndReceive (CreateAclsQ request) (Some dec_CreateAclsResponse) pack"

definition DeleteAcls :: "DeleteAclsRequest \<Rightarrow> DeleteAclsResponse call" where
  "DeleteAcls request pack = sendAndReceive (DeleteAclsQ request) (Some dec_DeleteAclsResponse) pack"

definition InitProducerID :: "InitProducerIDRequest \<Rightarrow> InitProducerIDResponse call" where
  "InitProducerID request pack = sendAndReceive (InitProducerIDQ request) (Some dec_InitProducerIDResponse) pack"

definition AddPartitionsToTxn :: "AddPartitionsToTxnRequest \<Rightarrow> AddPartitionsToTxnResponse call" where
  "AddPartitionsToTxn request pack = sendAndReceive (AddPartitionsToTxnQ request) (Some dec_AddPartitionsToTxnResponse) pack"

definition AddOffsetsToTxn :: "AddOffsetsToTxnRequest \<Rightarrow> AddOffsetsToTxnResponse call" where
  "AddOffsetsToTxn request pack = sendAndReceive (AddOffsetsToTxnQ request) (Some dec_AddOffsetsToTxnResponse) pack"

definition EndTxn :: "EndTxnRequest \<Rightarrow> EndTxnResponse call" where
  "EndTxn request pack = sendAndReceive (EndTxnQ request) (Some dec_EndTxnResponse) pack"

definition TxnOffsetCommit :: "TxnOffsetCommitRequest \<Rightarrow> TxnOffsetCommitResponse call" where
  "TxnOffsetCommit request pack = sendAndReceive (TxnOffsetCommitQ request) (Some dec_TxnOffsetCommitResponse) pack"

definition DescribeConfigs :: "DescribeConfigsRequest \<Rightarrow> DescribeConfigsResponse call" where
  "DescribeConfigs request pack = sendAndReceive (DescribeConfigsQ request) (Some dec_DescribeConfigsResponse) pack"

definition AlterConfigs :: "AlterConfigsRequest \<Rightarrow> AlterConfigsResponse call" where
  "AlterConfigs request pack = sendAndReceive (AlterConfigsQ request) (Some dec_AlterConfigsResponse) pack"

definition DeleteGroups :: "DeleteGroupsRequest \<Rightarrow> DeleteGroupsResponse call" where
  "DeleteGroups request pack = sendAndReceive (DeleteGroupsQ request) (Some dec_DeleteGroupsResponse) pack"

subsection \<open>What a call relies on of a codec\<close>

locale response_codec =
  fixes enc :: "'a \<Rightarrow> etree list" and dec :: "int \<Rightarrow> 'a dec" and canon :: "int \<Rightarrow> 'a \<Rightarrow> bool" and sent :: "'a \<Rightarrow> 'a"
  assumes decodes_sent: "canon v r \<Longrightarrow> decodes (dec v) (enc r) (sent r)"
begin

lemma versionedDecode_sent:
  assumes "canon v r" "tree_ok (enc r)" "int (length (wire (enc r))) \<le> MaxResponseSize"
  shows "versionedDecode (wire (enc r)) dec v = Inr (Inr (sent r))"
  unfolding versionedDecode_def
  by (rule decode_reads) (use decodes_sent [OF assms(1)] assms(2,3) in \<open>auto simp: decodes_def MaxResponseSize_def\<close>)

lemma call_returns:
  assumes "send pack req True werr s = (Inr (Some p), s')" "canon (body_version req) r" "tree_ok (enc r)"
    "int (length (wire (enc r))) \<le> MaxResponseSize"
  shows "sendAndReceive req (Some dec) pack werr (Inr (wire (enc r))) s = (Inr (Inr (Some (sent r))), s')"
  using assms(1) versionedDecode_sent [OF assms(2-4)] by (simp add: sendAndReceive_def)

end

interpretation metadata: response_codec enc_MetadataResponse dec_MetadataResponse "\<lambda>v r. v = mdp_Version r \<and> canon_MetadataResponse r" "\<lambda>r. r"
  by unfold_locales (auto intro: decodes_MetadataResponse)

interpretation consumerMetadata: response_codec enc_ConsumerMetadataResponse dec_ConsumerMetadataResponse "\<lambda>v r. v = 0 \<and> canon_ConsumerMetadataResponse r" "\<lambda>r. sent_ConsumerMetadataResponse r"
  by unfold_locales (auto intro: decodes_ConsumerMetadataResponse)

interpretation findCoordinator: response_codec enc_FindCoordinatorResponse dec_FindCoordinatorResponse "\<lambda>v r. v = fcp_Version r \<and> canon_FindCoordinatorResponse r" "\<lambda>r. sent_FindCoordinatorResponse r"
  by unfold_locales (auto intro: decodes_FindCoordinatorResponse)

interpretation offset: response_codec enc_OffsetResponse dec_OffsetResponse "\<lambda>v r. v = orp_Version r \<and> canon_OffsetResponse r" "\<lambda>r. r\<lparr>orp_Version := 0\<rparr>"
  by unfold_locales (auto intro: decodes_OffsetResponse)

interpretation offsetCommit: response_codec enc_OffsetCommitResponse dec_OffsetCommitResponse "\<lambda>v r. v = ocp_Version r \<and> canon_OffsetCommitResponse r" "\<lambda>r. r"
  by unfold_locales (auto intro: decodes_OffsetCommitResponse)

interpretation offsetFetch: response_codec enc_OffsetFetchResponse dec_OffsetFetchResponse "\<lambda>v r. v = ofp_Version r \<and> canon_OffsetFetchResponse r" "\<lambda>r. r"
  by unfold_locales (auto intro: decodes_OffsetFetchResponse)

interpretation joinGroup: response_codec enc_JoinGroupResponse dec_JoinGroupResponse "\<lambda>v r. v = jgp_Version r \<and> canon_JoinGroupResponse r" "\<lambda>r. r"
  by unfold_locales (auto intro: decodes_JoinGroupResponse)

interpretation syncGroup: response_codec enc_SyncGroupResponse dec_SyncGroupResponse "\<lambda>v r. True" "\<lambda>r. r"
  by unfold_locales (auto intro: decodes_SyncGroupResponse)

interpretation leaveGroup: response_codec enc_LeaveGroupResponse dec_LeaveGroupResponse "\<lambda>v r. True" "\<lambda>r. r"
  by unfold_locales (auto intro: decodes_LeaveGroupResponse)

interpretation heartbeat: response_codec enc_HeartbeatResponse dec_HeartbeatResponse "\<lambda>v r. True" "\<lambda>r. r"
  by unfold_locales (auto intro: decodes_HeartbeatResponse)

interpretation listGroups: response_codec enc_ListGroupsResponse dec_ListGroupsResponse "\<lambda>v r. canon_ListGroupsResponse r" "\<lambda>r. r"
  by unfold_locales (auto intro: decodes_ListGroupsResponse)

interpretation describeGroups: response_codec enc_DescribeGroupsResponse dec_DescribeGroupsResponse "\<lambda>v r. canon_DescribeGroupsResponse r" "\<lambda>r. r"
  by unfold_locales (auto intro: decodes_DescribeGroupsResponse)

interpretation apiVersions: response_codec enc_ApiVersionsResponse dec_ApiVersionsResponse "\<lambda>v r. True" "\<lambda>r. r"
  by unfold_locales (auto intro: decodes_ApiVersionsResponse)

interpretation createTopics: response_codec enc_CreateTopicsResponse dec_CreateTopicsResponse "\<lambda>v r. v = ctp_Version r \<and> canon_CreateTopicsResponse r" "\<lambda>r. r"
  by unfold_locales (auto intro: decodes_CreateTopicsResponse)

interpretation deleteTopics: response_codec enc_DeleteTopicsResponse dec_DeleteTopicsResponse "\<lambda>v r. v = dtp_Version r \<and> canon_DeleteTopicsResponse r" "\<lambda>r. r"
  by unfold_locales (auto intro: decodes_DeleteTopicsResponse)

interpretation createPartitions: response_codec enc_CreatePartitionsResponse dec_CreatePartitionsResponse "\<lambda>v r. canon_CreatePartitionsResponse r" "\<lambda>r. r"
  by unfold_locales (auto intro: decodes_CreatePartitionsResponse)

interpretation deleteRecords: response_codec enc_DeleteRecordsResponse dec_DeleteRecordsResponse "\<lambda>v r. v = drp_Version r \<and> canon_DeleteRecordsResponse r" "\<lambda>r. r"
  by unfold_locales (auto intro: decodes_DeleteRecordsResponse)

interpretation describeAcls: response_codec enc_DescribeAclsResponse dec_DescribeAclsResponse "\<lambda>v r. v = dap_Version r \<and> canon_DescribeAclsResponse r" "\<lambda>r. r\<lparr>dap_Version := 0\<rparr>"
  by unfold_locales (auto intro: decodes_DescribeAclsResponse)

interpretation createAcls: response_codec enc_CreateAclsResponse dec_CreateAclsResponse "\<lambda>v r. canon_CreateAclsResponse r" "\<lambda>r. r"
  by unfold_locales (auto intro: decodes_CreateAclsResponse)

interpretation deleteAcls: response_codec enc_DeleteAclsResponse dec_DeleteAclsResponse "\<lambda>v r. v = dlp_Version r \<and> canon_DeleteAclsResponse r" "\<lambda>r. r"
  by unfold_locales (auto intro: decodes_DeleteAclsResponse)

interpretation initProducerID: response_codec enc_InitProducerIDResponse dec_InitProducerIDResponse "\<lambda>v r. canon_InitProducerIDResponse r" "\<lambda>r. r"
  by unfold_locales (auto intro: decodes_InitProducerIDResponse)

interpretation addPartitionsToTxn: response_codec enc_AddPartitionsToTxnResponse dec_AddPartitionsToTxnResponse "\<lambda>v r. canon_AddPartitionsToTxnResponse r" "\<lambda>r. r"
  by unfold_locales (auto intro: decodes_AddPartitionsToTxnResponse)

interpretation addOffsetsToTxn: response_codec enc_AddOffsetsToTxnResponse dec_AddOffsetsToTxnResponse "\<lambda>v r. canon_AddOffsetsToTxnResponse r" "\<lambda>r. r"
  by unfold_locales (auto intro: decodes_AddOffsetsToTxnResponse)

interpretation endTxn: response_codec enc_EndTxnResponse dec_EndTxnResponse "\<lambda>v r. canon_EndTxnResponse r" "\<lambda>r. r"
  by unfold_locales (auto intro: decodes_EndTxnResponse)

interpretation txnOffsetCommit: response_codec enc_TxnOffsetCommitResponse dec_TxnOffsetCommitResponse "\<lambda>v r. canon_TxnOffsetCommitResponse r" "\<lambda>r. r"
  by unfold_locales (auto intro: decodes_TxnOffsetCommitResponse)

interpretation describeConfigs: response_codec enc_DescribeConfigsResponse dec_DescribeConfigsResponse "\<lambda>v r. v = dcp_Version r \<and> canon_DescribeConfigsResponse r" "\<lambda>r. r"
  by unfold_locales (auto intro: decodes_DescribeConfigsResponse)

interpretation deleteGroups: response_codec enc_DeleteGroupsResponse dec_DeleteGroupsResponse "\<lambda>v r. canon_DeleteGroupsResponse r" "\<lambda>r. r"
  by unfold_locales (auto intro: decodes_DeleteGroupsResponse)

interpretation produce: response_codec enc_ProduceResponse dec_ProduceResponse
  "\<lambda>v r. v = prp_Version r \<and> canon_ProduceResponse r" "\<lambda>r. r"
  by unfold_locales (auto intro: decodes_ProduceResponse)

lemma fetch_codec:
  "lossless pack unpack \<Longrightarrow> response_codec (enc_FetchResponse pack) (dec_FetchResponse unpack depth)
     (\<lambda>v r. v = frp_Version r \<and> canon_FetchResponse pack depth r) sent_FetchResponse"
  by unfold_locales (auto intro: decodes_FetchResponse)

subsection \<open>A call from the request to its response\<close>

lemma bstep_promises: "bstep pack reply s s' \<Longrightarrow> \<exists>ps. bs_promises s' = bs_promises s @ ps"
proof (induction rule: bstep.induct)
  case (work s s')
  then show ?case by (auto simp: wstep_order(2))
next
  case (send_promise s rb werr p s')
  with send_promise_eq(1) [OF send_promise(2)] show ?case by auto
next
  case (send_plain s rb promiseResponse werr r s')
  show ?case by (subst send_plain_eq(1) [OF send_plain(2,3)]) simp
qed auto

lemma bsteps_promises:
  assumes "(bstep pack reply)\<^sup>*\<^sup>* s s'"
  shows "\<exists>ps. bs_promises s' = bs_promises s @ ps"
  using assms
proof (induction rule: rtranclp_induct)
  case (step y z)
  with bstep_promises [OF step(2)] show ?case by (metis append_assoc)
qed simp

text \<open>The caller of the request number \<open>n\<close> is given the answer number \<open>n\<close>: the response to its own request.\<close>

lemma own_answer:
  assumes reach: "(bstep pack (honest rep))\<^sup>*\<^sup>* (new_broker v clientID maxOpen) s0" and free: "bs_waiting s0 = None"
    and sent: "send pack rb True None s0 = (Inr (Some p), s1)"
    and later: "(bstep pack (honest rep))\<^sup>*\<^sup>* (s1\<lparr>bs_net := bs_net s1 @ honest rep p\<rparr>) s2"
    and ans: "length (bs_promises s0) < length (bs_answers s2)" "bs_dead s2 = None" and ok: "\<And>p. sendable (rep p)"
  shows "bs_answers s2 ! length (bs_promises s0) = (p, Inr (rep p))"
proof -
  have "bstep pack (honest rep) s0 (s1\<lparr>bs_net := bs_net s1 @ honest rep p\<rparr>)" by (rule bstep.send_promise [OF free sent])
  with reach later have "(bstep pack (honest rep))\<^sup>*\<^sup>* (new_broker v clientID maxOpen) s2"
    by (meson rtranclp.rtrancl_into_rtrancl rtranclp_trans)
  from reachable_in_order [OF this ok] ans(2)
  have o: "bs_promises s2 = map fst (bs_answers s2) @ outstanding s2" "list_all (\<lambda>a. snd a = Inr (rep (fst a))) (bs_answers s2)"
    by (auto simp: answers_in_order_def)
  obtain ps where "bs_promises s2 = bs_promises s0 @ p # ps"
    using bsteps_promises [OF later] send_promise_eq(1) [OF sent] by auto
  with o(1) ans(1) have "fst (bs_answers s2 ! length (bs_promises s0)) = p"
    by (metis nth_append nth_append_length nth_map length_map)
  moreover have "snd (bs_answers s2 ! length (bs_promises s0)) = Inr (rep (fst (bs_answers s2 ! length (bs_promises s0))))"
    using o(2) ans(1) by (simp add: list_all_length)
  ultimately show ?thesis by (simp add: prod_eq_iff)
qed


definition ex_fetch :: FetchRequest where
  "ex_fetch = \<lparr>frq_MaxWaitTime = 250, frq_MinBytes = 1, frq_MaxBytes = 0, frq_Version = 0, frq_Isolation = 0, frq_blocks = []\<rparr>"

definition ex_fetched :: FetchResponse where
  "ex_fetched = \<lparr>frp_Blocks = [(''t'', [(0, \<lparr>frb_Err = 3, frb_HighWaterMarkOffset = 7, frb_LastStableOffset = 0,
     frb_AbortedTransactions = [], frb_Records = None, frb_RecordsSet = [], frb_Partial = False\<rparr>)])],
     frp_ThrottleTime = 0, frp_Version = 0, frp_LogAppendTime = False, frp_Timestamp = None\<rparr>"

lemma ex_fetch_sent:
  "\<exists>buf. send (\<lambda>_ _ d. Inr d) (FetchQ ex_fetch) True None (new_broker V2_2_0_0 ''sarama'' 5) =
     (Inr (Some \<lparr>rp_correlationID = 0, rp_request = FetchQ ex_fetch\<rparr>),
      (new_broker V2_2_0_0 ''sarama'' 5)\<lparr>bs_out := buf, bs_correlationID := 1,
        bs_waiting := Some \<lparr>rp_correlationID = 0, rp_request = FetchQ ex_fetch\<rparr>,
        bs_promises := [\<lparr>rp_correlationID = 0, rp_request = FetchQ ex_fetch\<rparr>]\<rparr>)"
proof -
  let ?ts = "enc_request (\<lambda>_ _ d. Inr d) (next_request (new_broker V2_2_0_0 ''sarama'' 5) (FetchQ ex_fetch))"
  have "encodeE ?ts = Inr (wire ?ts)"
    by (rule encodeE_ok) (simp_all add: enc_request_def request_fields_def next_request_def new_broker_def ex_fetch_def
      enc_FetchRequest_def eopt_def earray_def body_key_def body_version_def body_apis wire_string_def MaxRequestSize_def sint_ok_def)
  moreover have "IsAtLeast V2_2_0_0 (body_requiredVersion (FetchQ ex_fetch))"
    by (simp add: ex_fetch_def body_requiredVersion_def body_apis) code_simp
  moreover have "swrap 32 1 = 1" by code_simp
  ultimately show ?thesis by (auto simp: send_def Let_def new_broker_def)
qed

lemma ex_fetched_ok:
  "tree_ok (enc_FetchResponse pack ex_fetched)" "canon_FetchResponse pack depth ex_fetched"
  "sendable (wire (enc_FetchResponse pack ex_fetched))"
  by (simp_all add: ex_fetched_def enc_FetchResponse_def enc_FetchResponseBlock_def earray_def epair_def eopt_def
      canon_FetchResponse_def canon_FetchResponseBlock_def is_millis_def sendable_def MaxResponseSize_def wire_string_def sint_ok_def)


text \<open>C17. A produce request that wants no acknowledgement leaves no promise behind: \<open>Produce\<close> then returns without a
  response whatever the receiver does, and the outstanding requests and what their callers will be given are unchanged.
  Every other produce request that is written adds its promise.\<close>

theorem Produce_promise:
  "case Produce request pack werr ans s of (r, s') \<Rightarrow>
     if prq_RequiredAcks request = NoResponse
     then (r = Inr (Inr None) \<or> (\<exists>e. r = Inr (Inl e))) \<and> bs_promises s' = bs_promises s \<and> bs_waiting s' = bs_waiting s
     else r \<noteq> Inr (Inr None) \<and>
       (s' = s\<lparr>bs_out := bs_out s'\<rparr> \<and> (\<exists>e. r = Inr (Inl e)) \<or>
        bs_promises s' = bs_promises s @ [\<lparr>rp_correlationID = bs_correlationID s, rp_request = ProduceQ request\<rparr>])"
  by (auto simp: Produce_def sendAndReceive_def send_def Let_def versionedDecode_def bindR_def map_sum_def
      split: if_splits sum.splits option.splits prod.splits)

end
