(* ===== verification/Kafka_Assign.thy ===== *)
theory Kafka_Assign
  imports Go_Prelude "HOL-Library.Word" "HOL-Library.Multiset"
begin

section \<open>Which partition, and whose\<close>

text \<open>
  kafka/partitioner.go and the round-robin strategy of kafka/balance_strategy.go: the partition of a message, and the members of
  a consumer group that read the partitions of its topics. Hashes are \<open>32 word\<close>, an \<open>int32\<close> that can overflow is computed as
  such a word and read with \<open>sint\<close>. The numbers of \<open>math/rand\<close> are a parameter, and so is \<open>sort.Sort\<close>, whose order of equal
  elements is not specified.
\<close>

unbundle bit_operations_syntax

subsection \<open>Partitioners\<close>

text \<open>\<open>hash/fnv.New32a\<close> over all bytes of a key.\<close>

definition fnv1a :: "string \<Rightarrow> 32 word" where
  "fnv1a s = foldl (\<lambda>h c. (h XOR of_char c) * 16777619) 2166136261 s"

text \<open>Go's remainder of signed numbers, which has the sign of the dividend.\<close>

definition go_rem :: "int \<Rightarrow> int \<Rightarrow> int result" where
  "go_rem a b = (if b = 0 then Inl DividePanic else Inr (sgn a * (\<bar>a\<bar> mod \<bar>b\<bar>)))"

definition manual_Partition :: "int \<Rightarrow> int \<Rightarrow> int" where
  "manual_Partition part numPartitions = part"

text \<open>\<open>Intn\<close> panics unless its argument is positive; \<open>rand n\<close> is the number it returns.\<close>

definition random_Partition :: "(int \<Rightarrow> int) \<Rightarrow> int \<Rightarrow> int result" where
  "random_Partition rand numPartitions = (if numPartitions \<le> 0 then Inl ArgumentPanic else Inr (rand numPartitions))"

text \<open>The partition, and the state of the partitioner after the call.\<close>

definition roundRobin_Partition :: "int \<Rightarrow> int \<Rightarrow> int \<times> int" where
  "roundRobin_Partition numPartitions part =
     (let part = (if part \<ge> numPartitions then 0 else part) in (part, sint (word_of_int (part + 1) :: 32 word)))"

datatype fallback = RandomFallback | SelfFallback

record hashPartitioner =
  hp_random :: fallback
  hp_hasher :: "string \<Rightarrow> 32 word"
  hp_referenceAbs :: bool

datatype HashPartitionerOption =
  WithAbsFirst | WithCustomHashFunction "string \<Rightarrow> 32 word" | WithCustomFallbackPartitioner hashPartitioner

text \<open>\<open>WithCustomFallbackPartitioner\<close> stores the partitioner that is built, not its argument.\<close>

fun apply_option :: "HashPartitionerOption \<Rightarrow> hashPartitioner \<Rightarrow> hashPartitioner" where
  "apply_option WithAbsFirst hp = hp\<lparr>hp_referenceAbs := True\<rparr>"
| "apply_option (WithCustomHashFunction hasher) hp = hp\<lparr>hp_hasher := hasher\<rparr>"
| "apply_option (WithCustomFallbackPartitioner randomHP) hp = hp\<lparr>hp_random := SelfFallback\<rparr>"

definition NewHashPartitioner :: hashPartitioner where
  "NewHashPartitioner = \<lparr>hp_random = RandomFallback, hp_hasher = fnv1a, hp_referenceAbs = False\<rparr>"

definition NewReferenceHashPartitioner :: hashPartitioner where
  "NewReferenceHashPartitioner = \<lparr>hp_random = RandomFallback, hp_hasher = fnv1a, hp_referenceAbs = True\<rparr>"

definition NewCustomHashPartitioner :: "(string \<Rightarrow> 32 word) \<Rightarrow> hashPartitioner" where
  "NewCustomHashPartitioner hasher = \<lparr>hp_random = RandomFallback, hp_hasher = hasher, hp_referenceAbs = False\<rparr>"

definition NewCustomPartitioner :: "HashPartitionerOption list \<Rightarrow> hashPartitioner" where
  "NewCustomPartitioner options = fold apply_option options NewHashPartitioner"

text \<open>The key of a message is nil or what \<open>Encode\<close> returns for it. A call that never returns is \<open>None\<close>; the error of \<open>Encode\<close> comes
  with the partition -1.\<close>

definition key_partition :: "hashPartitioner \<Rightarrow> string \<Rightarrow> int \<Rightarrow> int result" where
  "key_partition p bytes numPartitions =
     (if hp_referenceAbs p then go_rem (sint (hp_hasher p bytes AND 0x7fffffff)) numPartitions
      else bindR (go_rem (sint (hp_hasher p bytes)) numPartitions) (\<lambda>part.
        Inr (if part < 0 then sint (- (word_of_int part :: 32 word)) else part)))"

partial_function (option) hash_Partition :: "hashPartitioner \<Rightarrow> (int \<Rightarrow> int) \<Rightarrow> ('e + string) option \<Rightarrow> int \<Rightarrow>
    (int \<times> 'e option) result option" where
  "hash_Partition p rand key numPartitions =
     (case key of
        None \<Rightarrow>
          (case hp_random p of
             RandomFallback \<Rightarrow> Some (bindR (random_Partition rand numPartitions) (\<lambda>part. Inr (part, None)))
           | SelfFallback \<Rightarrow> hash_Partition p rand key numPartitions)
      | Some (Inl err) \<Rightarrow> Some (Inr (-1, Some err))
      | Some (Inr bytes) \<Rightarrow> Some (bindR (key_partition p bytes numPartitions) (\<lambda>part. Inr (part, None))))"

definition MessageRequiresConsistency :: "('e + string) option \<Rightarrow> bool" where
  "MessageRequiresConsistency key = (case key of None \<Rightarrow> False | Some _ \<Rightarrow> True)"

subsection \<open>The round-robin strategy\<close>

type_synonym plan = "string \<rightharpoonup> (string \<rightharpoonup> int list)"

definition plan_at :: "plan \<Rightarrow> string \<Rightarrow> string \<Rightarrow> int list" where
  "plan_at p memberID topic =
     (case p memberID of None \<Rightarrow> [] | Some m \<Rightarrow> (case m topic of None \<Rightarrow> [] | Some ps \<Rightarrow> ps))"

definition Add :: "string \<Rightarrow> string \<Rightarrow> int list \<Rightarrow> plan \<Rightarrow> plan" where
  "Add memberID topic partitions p =
     (if partitions = [] then p
      else
        let m = (case p memberID of None \<Rightarrow> Map.empty | Some m \<Rightarrow> m)
        in p(memberID \<mapsto> m(topic \<mapsto> plan_at p memberID topic @ partitions)))"

text \<open>\<open>i % len(memberIDs)\<close> panics for a topic without members.\<close>

fun roundRobin_core :: "string list \<Rightarrow> string \<Rightarrow> nat \<Rightarrow> int list \<Rightarrow> plan \<Rightarrow> plan result" where
  "roundRobin_core memberIDs topic i [] p = Inr p"
| "roundRobin_core memberIDs topic i (part # parts) p =
     bindR (go_rem (int i) (int (length memberIDs))) (\<lambda>j.
     bindR (get_at memberIDs j) (\<lambda>memberID.
       roundRobin_core memberIDs topic (Suc i) parts (Add memberID topic [part] p)))"

definition balanceStrategyHashValue :: "string list \<Rightarrow> 32 word" where
  "balanceStrategyHashValue vv =
     foldl (\<lambda>h s. foldl (\<lambda>h (c, _). (h XOR word_of_int c) * 16777619) h (runes s)) 2166136261 vv"

text \<open>The members in the order in which the map is ranged over, each with the topics of its metadata.\<close>

fun members_by_topic :: "(string \<times> string list) list \<Rightarrow> string \<Rightarrow> string list" where
  "members_by_topic [] topic = []"
| "members_by_topic ((memberID, topics) # ms) topic =
     replicate (count_list topics topic) memberID @ members_by_topic ms topic"

text \<open>\<open>sort_by key ms\<close> is what \<open>sort.Sort\<close> makes of the members of a topic; \<open>order\<close> are the topics with members in the order of the
  range over their map.\<close>

definition topic_members :: "((string \<Rightarrow> 32 word) \<Rightarrow> string list \<Rightarrow> string list) \<Rightarrow> (string \<times> string list) list \<Rightarrow> string \<Rightarrow> string list" where
  "topic_members sort_by members topic =
     sort_by (\<lambda>m. balanceStrategyHashValue [topic, m]) (members_by_topic members topic)"

fun assemble :: "(string \<Rightarrow> string list) \<Rightarrow> (string \<rightharpoonup> int list) \<Rightarrow> string list \<Rightarrow> plan \<Rightarrow> plan result" where
  "assemble mbt topics [] p = Inr p"
| "assemble mbt topics (topic # order) p =
     bindR (roundRobin_core (mbt topic) topic 0 (case topics topic of None \<Rightarrow> [] | Some ps \<Rightarrow> ps) p)
       (assemble mbt topics order)"

definition Plan :: "((string \<Rightarrow> 32 word) \<Rightarrow> string list \<Rightarrow> string list) \<Rightarrow> (string \<times> string list) list \<Rightarrow> (string \<rightharpoonup> int list) \<Rightarrow>
    string list \<Rightarrow> plan result" where
  "Plan sort_by members topics order = assemble (topic_members sort_by members) topics order Map.empty"

subsection \<open>A message goes to a partition that exists\<close>

lemma sint_small:
  assumes "- (2 ^ 31) \<le> a" "a < 2 ^ 31"
  shows "sint (word_of_int a :: 32 word) = a"
proof -
  have "sint (word_of_int a :: 32 word) = signed_take_bit 31 a" by (simp add: sint_sbintrunc')
  also have "\<dots> = a" using assms by (intro signed_take_bit_int_eq_self) auto
  finally show ?thesis .
qed

lemma sint_uminus_small:
  assumes "- (2 ^ 31) < a" "a < 2 ^ 31"
  shows "sint (- (word_of_int a :: 32 word)) = - a"
  using sint_small [of "- a"] assms by simp

lemma sint_and_mask: "0 \<le> sint (w AND 0x7fffffff :: 32 word)"
proof -
  have "(0x7fffffff :: 32 word) = mask 31" by (simp add: mask_eq_exp_minus_1)
  then have u: "uint (w AND 0x7fffffff) = take_bit 31 (uint w)" by (simp only: take_bit_eq_mask [symmetric] unsigned_take_bit_eq)
  have "sint (w AND 0x7fffffff) = signed_take_bit 31 (take_bit 31 (uint w))" unfolding sint_uint u by simp
  also have "\<dots> = take_bit 31 (uint w)"
  proof (rule signed_take_bit_int_eq_self)
    show "- (2 ^ 31) \<le> take_bit 31 (uint w)" by (rule order_trans [OF _ take_bit_nonnegative]) simp
  qed (rule take_bit_int_less_exp)
  finally show ?thesis by simp
qed

lemma go_rem_bounds:
  assumes "0 < n"
  shows "\<exists>r. go_rem a n = Inr r \<and> - n < r \<and> r < n \<and> (0 \<le> a \<longrightarrow> 0 \<le> r)"
proof -
  define r where "r = \<bar>a\<bar> mod n"
  have "r < n" "0 \<le> r" using assms by (auto simp: r_def)
  moreover have "go_rem a n = Inr (sgn a * r)" using assms by (simp add: go_rem_def r_def)
  ultimately show ?thesis by (auto simp: sgn_if)
qed



text \<open>A partitioner with the option of a fallback calls itself for a message without a key, and never returns.\<close>

lemma fallback_option: "hp_random (fold apply_option options p) = (if \<exists>r. WithCustomFallbackPartitioner r \<in> set options then SelfFallback else hp_random p)"
proof (induction options arbitrary: p)
  case (Cons x options)
  then show ?case by (cases x) auto
qed simp

lemma self_fallback_diverges:
  assumes "hp_random p = SelfFallback"
  shows "hash_Partition p rand (None :: ('e + string) option) n = None"
proof (rule ccontr)
  assume "hash_Partition p rand (None :: ('e + string) option) n \<noteq> None"
  then obtain r where r: "hash_Partition p rand (None :: ('e + string) option) n = Some r" by blast
  have "(None :: ('e + string) option) = None \<longrightarrow> hp_random p = SelfFallback \<longrightarrow> False"
    by (rule hash_Partition.raw_induct [where P = "\<lambda>p rand key n r. key = None \<longrightarrow> hp_random p = SelfFallback \<longrightarrow> False", OF _ r])
      (auto split: option.splits sum.splits fallback.splits)
  then show False using assms by blast
qed

text \<open>C37. For a message without a key, \<open>hashPartitioner.Partition\<close> returns exactly if its options do not contain
  \<open>WithCustomFallbackPartitioner\<close>, and then with the random choice.\<close>

theorem partition_without_key:
  "hash_Partition (NewCustomPartitioner options) rand (None :: ('e + string) option) n =
     (if \<exists>r. WithCustomFallbackPartitioner r \<in> set options then None
      else Some (bindR (random_Partition rand n) (\<lambda>k. Inr (k, None))))"
proof (cases "\<exists>r. WithCustomFallbackPartitioner r \<in> set options")
  case True
  then have "hp_random (NewCustomPartitioner options) = SelfFallback" unfolding NewCustomPartitioner_def by (simp add: fallback_option)
  then show ?thesis using True by (simp add: self_fallback_diverges)
next
  case False
  then have "hp_random (NewCustomPartitioner options) = RandomFallback"
    unfolding NewCustomPartitioner_def by (simp add: fallback_option NewHashPartitioner_def)
  then show ?thesis using False by (simp add: hash_Partition.simps)
qed

subsection \<open>Round robin goes through the partitions\<close>

fun roundRobin_run :: "int \<Rightarrow> nat \<Rightarrow> int \<Rightarrow> int list" where
  "roundRobin_run n 0 part = []"
| "roundRobin_run n (Suc k) part = (case roundRobin_Partition n part of (r, part) \<Rightarrow> r # roundRobin_run n k part)"

lemma roundRobin_run_from:
  assumes "0 < n" "n < 2 ^ 31" "0 \<le> part" "part \<le> n"
  shows "roundRobin_run n k part = map (\<lambda>i. (part + int i) mod n) [0..<k]"
  using assms(3,4)
proof (induction k arbitrary: part)
  case (Suc k)
  define q where "q = (if n \<le> part then 0 else part)"
  have q: "0 \<le> q" "q < n" "q = part mod n" using Suc.prems assms(1) by (auto simp: q_def)
  have s: "sint (word_of_int (q + 1) :: 32 word) = q + 1" using q assms(2) by (intro sint_small) auto
  have step: "roundRobin_Partition n part = (q, q + 1)"
    unfolding roundRobin_Partition_def Let_def q_def [symmetric] s ..
  have "map (\<lambda>i. (part + int i) mod n) [0..<Suc k] = part mod n # map (\<lambda>i. (part + int (Suc i)) mod n) [0..<k]"
    by (simp only: upt_conv_Cons zero_less_Suc list.map map_Suc_upt [symmetric] map_map o_def) simp
  moreover have "(q + 1 + int i) mod n = (part + int (Suc i)) mod n" for i
    unfolding q(3) by (simp add: mod_add_left_eq add.assoc)
  ultimately show ?case using Suc.IH [of "q + 1"] q(1,2) by (simp add: step q(3) [symmetric])
qed simp

text \<open>C38. A new round-robin partitioner gives the partitions 0, 1, ... in turn, each before any is given again; its counter of 32 bits
  never overflows.\<close>

theorem roundRobin_cycles:
  assumes "0 < n" "n < 2 ^ 31"
  shows "roundRobin_run n k 0 = map (\<lambda>i. int i mod n) [0..<k]"
  using roundRobin_run_from [OF assms, of 0 k] assms(1) by simp

theorem roundRobin_cycles_witness: "roundRobin_run 3 5 0 = [0, 1, 2, 0, 1]"
  using roundRobin_cycles [of 3 5] by (simp add: upt_rec)

subsection \<open>Every partition has one reader\<close>

lemma plan_at_Add:
  "plan_at (Add m t ps p) m' t' = (if m = m' \<and> t = t' then plan_at p m t @ ps else plan_at p m' t')"
  by (auto simp: Add_def plan_at_def Let_def split: option.splits)

definition share :: "string list \<Rightarrow> int list \<Rightarrow> string \<Rightarrow> int list" where
  "share ms ps m = map (\<lambda>i. ps ! i) (filter (\<lambda>i. ms ! (i mod length ms) = m) [0..<length ps])"

lemma roundRobin_core_shares:
  assumes "ms \<noteq> []"
  shows "\<exists>p'. roundRobin_core ms t k ps p = Inr p' \<and>
    (\<forall>m t'. plan_at p' m t' = plan_at p m t' @
      (if t' = t then map (\<lambda>i. ps ! i) (filter (\<lambda>i. ms ! ((k + i) mod length ms) = m) [0..<length ps]) else []))"
proof (induction ps arbitrary: k p)
  case (Cons x ps)
  let ?m = "ms ! (k mod length ms)" and ?f = "\<lambda>k (ps :: int list) m. map (\<lambda>i. ps ! i) (filter (\<lambda>i. ms ! ((k + i) mod length ms) = m) [0..<length ps])"
  have j: "go_rem (int k) (int (length ms)) = Inr (int (k mod length ms))" using assms by (simp add: go_rem_def sgn_if zmod_int)
  have g: "get_at ms (int (k mod length ms)) = Inr ?m" using assms by (simp add: get_at_def)
  obtain p' where p': "roundRobin_core ms t (Suc k) ps (Add ?m t [x] p) = Inr p'"
    "\<forall>m t'. plan_at p' m t' = plan_at (Add ?m t [x] p) m t' @ (if t' = t then ?f (Suc k) ps m else [])" using Cons.IH by blast
  have "?f k (x # ps) m = (if ?m = m then [x] else []) @ ?f (Suc k) ps m" for m
  proof -
    have "[0..<length (x # ps)] = 0 # map Suc [0..<length ps]" by (simp add: map_Suc_upt upt_conv_Cons del: upt_Suc)
    then show ?thesis by (simp add: filter_map o_def)
  qed
  then show ?case using p' by (auto simp: j g plan_at_Add)
qed simp

lemma assemble_shares:
  assumes "distinct order" "\<forall>t \<in> set order. mbt t \<noteq> []"
  shows "\<exists>p'. assemble mbt topics order p = Inr p' \<and>
    (\<forall>m t. plan_at p' m t = plan_at p m t @
      (if t \<in> set order then share (mbt t) (case topics t of None \<Rightarrow> [] | Some ps \<Rightarrow> ps) m else []))"
  using assms
proof (induction order arbitrary: p)
  case (Cons t order)
  obtain p1 where p1: "roundRobin_core (mbt t) t 0 (case topics t of None \<Rightarrow> [] | Some ps \<Rightarrow> ps) p = Inr p1"
    "\<forall>m t'. plan_at p1 m t' = plan_at p m t' @ (if t' = t then share (mbt t) (case topics t of None \<Rightarrow> [] | Some ps \<Rightarrow> ps) m else [])"
    using roundRobin_core_shares [of "mbt t" t 0 "case topics t of None \<Rightarrow> [] | Some ps \<Rightarrow> ps" p] Cons.prems(2) unfolding share_def by auto
  obtain p2 where p2: "assemble mbt topics order p1 = Inr p2"
    "\<forall>m t. plan_at p2 m t = plan_at p1 m t @ (if t \<in> set order then share (mbt t) (case topics t of None \<Rightarrow> [] | Some ps \<Rightarrow> ps) m else [])"
    using Cons.IH [of p1] Cons.prems by auto
  show ?case using p1 p2 Cons.prems(1) by auto
qed simp

lemma members_by_topic_set: "set (members_by_topic members t) = {m. \<exists>ts. (m, ts) \<in> set members \<and> t \<in> set ts}"
proof (induction members t rule: members_by_topic.induct)
  case (2 m ts ms t)
  then show ?case by (auto simp: count_list_0_iff)
qed simp

lemma share_partitions:
  assumes "ms \<noteq> []"
  shows "(\<Sum>m \<in> set ms. mset (share ms ps m)) = mset ps"
proof -
  let ?g = "\<lambda>i. ms ! (i mod length ms)"
  have g: "?g i \<in> set ms" for i using assms by simp
  have "(\<Sum>m \<in> set ms. mset (filter (\<lambda>i. ?g i = m) is)) = mset is" for "is"
  proof (induction "is")
    case (Cons i "is")
    have "(\<Sum>m \<in> set ms. mset (filter (\<lambda>j. ?g j = m) (i # is))) =
        (\<Sum>m \<in> set ms. (if ?g i = m then {#i#} else {#}) + mset (filter (\<lambda>j. ?g j = m) is))" by (intro sum.cong) auto
    also have "\<dots> = {#i#} + mset is" using Cons.IH g [of i] by (simp add: sum.distrib)
    finally show ?case by simp
  qed simp
  moreover have "image_mset f (\<Sum>m \<in> A. h m) = (\<Sum>m \<in> A. image_mset f (h m))" for f :: "nat \<Rightarrow> int" and h :: "string \<Rightarrow> nat multiset" and A
    by (induction A rule: infinite_finite_induct) auto
  ultimately have "(\<Sum>m \<in> set ms. mset (share ms ps m)) = image_mset (\<lambda>i. ps ! i) (mset [0..<length ps])"
    unfolding share_def mset_map by metis
  also have "\<dots> = mset ps" by (simp only: mset_map [symmetric] map_nth)
  finally show ?thesis .
qed

lemma mod_complement:
  assumes "r < k" "j < k"
  shows "(r + (k - j)) mod k = 0 \<longleftrightarrow> r = (j :: nat)"
proof (cases "r < j")
  case True
  then have "r + (k - j) < k" "0 < r + (k - j)" using assms by linarith+
  then show ?thesis using True by (metis mod_less nat_less_le)
next
  case False
  then have "r + (k - j) = (r - j) + k" "r - j < k" using assms by linarith+
  then have "(r + (k - j)) mod k = r - j" by (metis mod_add_self2 mod_less)
  then show ?thesis using False by linarith
qed

lemma length_every:
  assumes "j < k"
  shows "length (filter (\<lambda>i. i mod k = j) [0..<n]) = (n + (k - 1 - j)) div k"
proof (induction n)
  case 0
  then show ?case using assms by simp
next
  case (Suc n)
  have "Suc (n + (k - 1 - j)) = n + (k - j)" using assms by linarith
  moreover have "(n + (k - j)) mod k = (n mod k + (k - j)) mod k" by (rule mod_add_left_eq [symmetric])
  moreover have "n mod k < k" using assms by (intro mod_less_divisor) linarith
  ultimately have "Suc (n + (k - 1 - j)) mod k = 0 \<longleftrightarrow> n mod k = j" using mod_complement [of "n mod k" k j] assms by simp
  then show ?case using Suc by (simp add: div_Suc)
qed

lemma share_balanced:
  assumes "distinct ms" "m \<in> set ms"
  shows "length (share ms ps m) \<in> {length ps div length ms, length ps div length ms + 1}"
proof -
  obtain j where j: "j < length ms" "m = ms ! j" using assms(2) by (auto simp: in_set_conv_nth)
  have eq: "ms ! (i mod length ms) = m \<longleftrightarrow> i mod length ms = j" for i
  proof -
    have "0 < length ms" using j(1) by (rule le_less_trans [OF le0])
    then have "i mod length ms < length ms" by (rule mod_less_divisor)
    then show ?thesis unfolding j(2) using nth_eq_iff_index_eq [OF assms(1) _ j(1)] by blast
  qed
  from length_every [OF j(1), of "length ps"] have l: "length (share ms ps m) = (length ps + (length ms - 1 - j)) div length ms"
    by (simp add: share_def eq)
  have "length ps div length ms \<le> (length ps + (length ms - 1 - j)) div length ms" by (intro div_le_mono) simp
  moreover have "(length ps + (length ms - 1 - j)) div length ms \<le> (length ps + length ms) div length ms" by (intro div_le_mono) simp
  moreover have "(length ps + length ms) div length ms = Suc (length ps div length ms)"
    by (rule div_add_self2 [of "length ms" "length ps", simplified]) (use j(1) in auto)
  ultimately have "length (share ms ps m) = length ps div length ms \<or> length (share ms ps m) = length ps div length ms + 1"
    unfolding l by linarith
  then show ?thesis by blast
qed

text \<open>C35. The round-robin strategy never panics, and in its plan each partition of a topic that has members belongs to exactly one member
  that subscribed to the topic, whatever the order of the maps and of equal hashes; members that name the topic once get equally many
  partitions, up to one.\<close>

theorem roundRobin_plan:
  assumes "\<forall>f xs. mset (sort_by f xs) = mset xs" "distinct order" "set order = {t. members_by_topic members t \<noteq> []}"
  shows "\<exists>p. Plan sort_by members topics order = Inr p \<and> (\<forall>t ps. topics t = Some ps \<and> t \<in> set order \<longrightarrow>
      (\<Sum>m \<in> set (members_by_topic members t). mset (plan_at p m t)) = mset ps \<and>
      (\<forall>m. plan_at p m t \<noteq> [] \<longrightarrow> (\<exists>ts. (m, ts) \<in> set members \<and> t \<in> set ts)) \<and>
      (distinct (members_by_topic members t) \<longrightarrow> (\<forall>m \<in> set (members_by_topic members t).
        length (plan_at p m t) \<in> {length ps div length (members_by_topic members t), length ps div length (members_by_topic members t) + 1})))"
proof -
  let ?mbt = "topic_members sort_by members"
  have perm: "mset (?mbt t) = mset (members_by_topic members t)" for t using assms(1) by (simp add: topic_members_def)
  note same = mset_eq_setD [OF perm] mset_eq_length [OF perm] mset_eq_imp_distinct_iff [OF perm]
  have ne: "?mbt t \<noteq> []" if "t \<in> set order" for t using that assms(3) same(1) [of t] by auto
  obtain p where p: "Plan sort_by members topics order = Inr p"
    "\<forall>m t. plan_at p m t = (if t \<in> set order then share (?mbt t) (case topics t of None \<Rightarrow> [] | Some ps \<Rightarrow> ps) m else [])"
    using assemble_shares [OF assms(2), of ?mbt topics Map.empty] ne unfolding Plan_def by (auto simp: plan_at_def)
  show ?thesis
  proof (rule exI [of _ p], intro conjI allI impI ballI)
    show "Plan sort_by members topics order = Inr p" by (rule p(1))
    fix t ps assume t: "topics t = Some ps \<and> t \<in> set order"
    then have at: "plan_at p m t = share (?mbt t) ps m" for m using p(2) by simp
    show "(\<Sum>m \<in> set (members_by_topic members t). mset (plan_at p m t)) = mset ps"
      using share_partitions [OF ne, of t ps] t same(1) [of t] by (simp add: at)
    show "\<exists>ts. (m, ts) \<in> set members \<and> t \<in> set ts" if "plan_at p m t \<noteq> []" for m
    proof -
      have "m \<in> set (?mbt t)" using that ne [of t] t by (auto simp: at share_def filter_empty_conv)
      then show ?thesis using same(1) [of t] members_by_topic_set [of members t] by auto
    qed
    show "length (plan_at p m t) \<in> {length ps div length (members_by_topic members t), length ps div length (members_by_topic members t) + 1}"
      if "distinct (members_by_topic members t)" "m \<in> set (members_by_topic members t)" for m
      using share_balanced [of "?mbt t" m ps] that same [of t] by (simp add: at)
  qed
qed

theorem roundRobin_plan_witness:
  "\<exists>p. Plan (\<lambda>f. sort_key f) [(''a'', [''t'']), (''b'', [''t''])] [''t'' \<mapsto> [0, 1, 2]] [''t''] = Inr p \<and>
     mset (plan_at p ''a'' ''t'') + mset (plan_at p ''b'' ''t'') = {#0, 1, 2#}"
proof -
  have "{t. members_by_topic [(''a'', [''t'']), (''b'', [''t''])] t \<noteq> []} = {''t''}" by (auto split: if_splits)
  then show ?thesis
    using roundRobin_plan [of "\<lambda>f. sort_key f" "[''t'']" "[(''a'', [''t'']), (''b'', [''t''])]" "[''t'' \<mapsto> [0, 1, 2]]"] by auto
qed

end
