(* ===== verification/Lib_Config.thy ===== *)
theory Lib_Config
  imports Go_Prelude
begin

section \<open>The configuration\<close>

text \<open>
  lib/config.go: the parser of a file of lines \<open>key = value\<close>, the typed reads of a key, and the structure \<open>AppConfig\<close>
  that the tool is started with. A file is the string it contains. The fields of \<open>AppConfig\<close> are kept in the order of
  their declaration with their names, because lib/explain.go reads them by reflection. Locks and log lines are not
  modelled.
\<close>

subsection \<open>The parser\<close>

text \<open>\<open>reader.ReadString\<close> for a newline: the line with its end and the rest, or the end of the file.\<close>

fun ReadString :: "char \<Rightarrow> string \<Rightarrow> (string \<times> string) option" where
  "ReadString delim [] = None"
| "ReadString delim (c # s) =
     (if c = delim then Some ([c], s) else map_option (map_prod ((#) c) id) (ReadString delim s))"

lemma ReadString_length: "ReadString d s = Some (l, r) \<Longrightarrow> length r < length s"
proof (induction s arbitrary: l)
  case (Cons c s)
  then show ?case by (cases "c = d") (auto simp: less_Suc_eq)
qed simp

definition parse_line :: "string \<Rightarrow> (string \<rightharpoonup> string) \<Rightarrow> (string \<rightharpoonup> string)" where
  "parse_line line m =
     (let line = TrimSpace line in
      if line = [] \<or> hd line = CHR 0x0A \<or> hd line = CHR ''+'' \<or> hd line = CHR '';'' then m
      else
        case split_byte (CHR ''='') line of
          [] \<Rightarrow> m
        | k # vs \<Rightarrow>
            (let key = TrimSpace k in
             if key = [] then m
             else case vs of [] \<Rightarrow> m(key \<mapsto> []) | v # _ \<Rightarrow> m(key \<mapsto> TrimSpace v)))"

function parse_loop :: "string \<Rightarrow> (string \<rightharpoonup> string) \<Rightarrow> (string \<rightharpoonup> string)" where
  "parse_loop s m = (case ReadString (CHR 0x0A) s of None \<Rightarrow> m | Some (line, rest) \<Rightarrow> parse_loop rest (parse_line line m))"
  by pat_completeness auto
termination
  by (relation "measure (\<lambda>(s, m). length s)") (auto dest: ReadString_length)

declare parse_loop.simps [simp del]

text \<open>A file that cannot be opened (\<open>Inl\<close>), or what is read of it and the error that ends the reading before its end.\<close>

type_synonym 'e config_file = "'e + string \<times> 'e option"

definition parse :: "'e config_file \<Rightarrow> (string \<rightharpoonup> string) \<times> 'e option" where
  "parse file = (case file of Inl err \<Rightarrow> (Map.empty, Some err) | Inr (s, err) \<Rightarrow> (parse_loop s Map.empty, err))"

subsection \<open>The state of a configuration\<close>

record Config =
  cf_lastModifyTime :: int
  cf_data :: "string \<rightharpoonup> string"

definition NewConfig :: "'e config_file \<Rightarrow> Config \<times> 'e option" where
  "NewConfig file =
     (case parse file of
        (m, Some err) \<Rightarrow> (\<lparr>cf_lastModifyTime = 0, cf_data = Map.empty\<rparr>, Some err)
      | (m, None) \<Rightarrow> (\<lparr>cf_lastModifyTime = 0, cf_data = m\<rparr>, None))"

text \<open>\<open>reload\<close> reads the file again when it has changed; the second component tells whether the list is notified.\<close>

definition reload :: "'e + int \<times> 'e config_file \<Rightarrow> Config \<Rightarrow> Config \<times> bool" where
  "reload file c =
     (case file of
        Inl _ \<Rightarrow> (c, False)
      | Inr (curModifyTime, content) \<Rightarrow>
          if cf_lastModifyTime c < curModifyTime then
            (case parse content of
               (m, Some err) \<Rightarrow> (c, False)
             | (m, None) \<Rightarrow> (c\<lparr>cf_data := m, cf_lastModifyTime := curModifyTime\<rparr>, True))
          else (c, False))"

definition GetInt :: "Config \<Rightarrow> string \<Rightarrow> int \<times> num_error option" where
  "GetInt c key = (case cf_data c key of None \<Rightarrow> (0, None) | Some str \<Rightarrow> ParseInt str)"

definition GetIntDefault :: "Config \<Rightarrow> string \<Rightarrow> int \<Rightarrow> int" where
  "GetIntDefault c key defval =
     (case cf_data c key of
        None \<Rightarrow> defval
      | Some str \<Rightarrow> (case ParseInt str of (v, None) \<Rightarrow> v | (_, Some _) \<Rightarrow> defval))"

definition GetString :: "Config \<Rightarrow> string \<Rightarrow> string" where
  "GetString c key = (case cf_data c key of None \<Rightarrow> [] | Some v \<Rightarrow> v)"

subsection \<open>The structure of the application\<close>

datatype kind = KInt | KString
datatype field_value = FInt int | FString string

type_synonym AppConfig = "(string \<times> field_value) list"

definition app_fields :: "(string \<times> kind) list" where
  "app_fields =
     [(''RedisHost'', KString), (''RedisPort'', KInt), (''RedisPw'', KString), (''RedisDb'', KInt),
      (''RedisMaxActive'', KInt), (''RedisMaxIdle'', KInt), (''RedisIdleTimeOut'', KInt),
      (''Redisquename'', KString), (''RedisSampling'', KInt), (''MysqlHost'', KString), (''MysqlDb'', KString),
      (''MysqlUser'', KString), (''MysqlPw'', KString), (''MysqlCharset'', KString), (''MysqlPort'', KInt),
      (''MysqlMaxOpenConns'', KInt), (''MysqlMaxIdleConns'', KInt), (''KafkaHost'', KString), (''KafkaPort'', KInt),
      (''KafkaTopic'', KString), (''KafkaChan'', KInt), (''KafkaThreadNum'', KInt), (''BranchActive'', KInt),
      (''TimerActive'', KInt), (''CurlUrl'', KString), (''CurlHost'', KString), (''ServerLog'', KString),
      (''ListenHost'', KString), (''ListenPort'', KInt), (''SoarTestDsnHost'', KString), (''SoarTestDsnPort'', KInt),
      (''SoarTestDsnDb'', KString), (''SoarTestDsnUser'', KString), (''SoarTestDsnPw'', KString),
      (''SoarOnlineDsnHost'', KString), (''SoarOnlineDsnPort'', KInt), (''SoarOnlineDsnDb'', KString),
      (''SoarOnlineDsnUser'', KString), (''SoarOnlineDsnPw'', KString), (''ExplainDBTimer'', KInt),
      (''ExplainDBNumber'', KInt), (''Comjia_MysqlHost'', KString), (''Comjia_MysqlDb'', KString),
      (''Comjia'', KString), (''Comjia_MysqlUser'', KString), (''Comjia_MysqlPw'', KString),
      (''Comjia_MysqlCharset'', KString), (''Comjia_MysqlPort'', KInt), (''Comjia_MysqlMaxOpenConns'', KInt),
      (''Comjia_MysqlMaxIdleConns'', KInt), (''Esf'', KString), (''Esf_MysqlHost'', KString),
      (''Esf_MysqlDb'', KString), (''Esf_MysqlUser'', KString), (''Esf_MysqlPw'', KString),
      (''Esf_MysqlCharset'', KString), (''Esf_MysqlPort'', KInt), (''Esf_MysqlMaxOpenConns'', KInt),
      (''Esf_MysqlMaxIdleConns'', KInt), (''Bbs'', KString), (''Bbs_MysqlHost'', KString),
      (''Bbs_MysqlDb'', KString), (''Bbs_MysqlUser'', KString), (''Bbs_MysqlPw'', KString),
      (''Bbs_MysqlCharset'', KString), (''Bbs_MysqlPort'', KInt), (''Bbs_MysqlMaxOpenConns'', KInt),
      (''Bbs_MysqlMaxIdleConns'', KInt), (''Dsp'', KString), (''Dsp_MysqlHost'', KString),
      (''Dsp_MysqlDb'', KString), (''Dsp_MysqlUser'', KString), (''Dsp_MysqlPw'', KString),
      (''Dsp_MysqlCharset'', KString), (''Dsp_MysqlPort'', KInt), (''Dsp_MysqlMaxOpenConns'', KInt),
      (''Dsp_MysqlMaxIdleConns'', KInt)]"

text \<open>Each field is read under its own name; a value that is no number is stored all the same.\<close>

definition getConf :: "Config \<Rightarrow> AppConfig" where
  "getConf conf =
     map (\<lambda>(name, k). (name, case k of KInt \<Rightarrow> FInt (fst (GetInt conf name)) | KString \<Rightarrow> FString (GetString conf name))) app_fields"

definition str_field :: "AppConfig \<Rightarrow> string \<Rightarrow> string" where
  "str_field a name = (case map_of a name of Some (FString s) \<Rightarrow> s | _ \<Rightarrow> [])"

definition int_field :: "AppConfig \<Rightarrow> string \<Rightarrow> int" where
  "int_field a name = (case map_of a name of Some (FInt n) \<Rightarrow> n | _ \<Rightarrow> 0)"

definition NewConf :: "'e config_file \<Rightarrow> AppConfig" where
  "NewConf file = getConf (fst (NewConfig file))"

subsection \<open>What the parser reads\<close>

lemma runes_ascii: "\<forall>c \<in> set s. rn c < 128 \<Longrightarrow> runes s = map (\<lambda>c. (rn c, [c])) s"
proof (induction s)
  case (Cons c s)
  then show ?case by (subst runes.simps) (simp add: decode_rune_ascii rune_width_def)
qed (subst runes.simps, simp)

definition space :: "char \<Rightarrow> bool" where
  "space c = unicode_IsSpace (rn c)"

lemma TrimSpace_ascii:
  assumes "\<forall>c \<in> set s. rn c < 128"
  shows "TrimSpace s = rev (dropWhile space (rev (dropWhile space s)))"
proof -
  have dw: "dropWhile (\<lambda>(r, _). unicode_IsSpace r) (map (\<lambda>c. (rn c, [c])) xs) = map (\<lambda>c. (rn c, [c])) (dropWhile space xs)" for xs
    by (induction xs) (simp_all add: space_def)
  have "concat (map snd (map (\<lambda>c. (rn c, [c])) xs)) = xs" for xs by (induction xs) simp_all
  then show ?thesis unfolding TrimSpace_def Let_def runes_ascii [OF assms] dw rev_map .
qed

text \<open>\<open>tight\<close>: ASCII text without space at its ends. \<open>word\<close>: what a key or a value can be.\<close>

definition tight :: "string \<Rightarrow> bool" where
  "tight s \<longleftrightarrow> (\<forall>c \<in> set s. rn c < 128) \<and> (s \<noteq> [] \<longrightarrow> \<not> space (hd s) \<and> \<not> space (last s))"

definition word :: "string \<Rightarrow> bool" where
  "word s \<longleftrightarrow> tight s \<and> CHR ''='' \<notin> set s \<and> CHR 0x0A \<notin> set s"

lemma trim_padded:
  assumes "tight s" "\<forall>c \<in> set a. space c \<and> rn c < 128" "\<forall>c \<in> set b. space c \<and> rn c < 128"
  shows "TrimSpace (a @ s @ b) = s"
proof -
  have ascii: "\<forall>c \<in> set (a @ s @ b). rn c < 128" using assms by (auto simp: tight_def)
  show ?thesis
  proof (cases "s = []")
    case True
    then have "\<forall>c \<in> set (a @ s @ b). space c" using assms(2,3) by auto
    then have dw: "dropWhile space (a @ s @ b) = []" using dropWhile_eq_Nil_conv by blast
    show ?thesis unfolding TrimSpace_ascii [OF ascii] dw using True by simp
  next
    case False
    then have "dropWhile space (a @ s @ b) = s @ b"
      using assms by (cases s) (auto simp: tight_def dropWhile_append)
    moreover have "dropWhile space (rev b @ rev s) = rev s"
      using assms False by (cases s rule: rev_cases) (auto simp: tight_def dropWhile_append)
    ultimately show ?thesis unfolding TrimSpace_ascii [OF ascii] by simp
  qed
qed

lemma split_byte_word: "CHR ''='' \<notin> set s \<Longrightarrow> split_byte (CHR ''='') s = [s]"
  by (induction s) auto

lemma split_eq_append: "CHR ''='' \<notin> set s \<Longrightarrow> split_byte (CHR ''='') (s @ CHR ''='' # t) = s # split_byte (CHR ''='') t"
  by (induction s) (auto split: list.splits)

lemma ReadString_line: "CHR 0x0A \<notin> set l \<Longrightarrow> ReadString (CHR 0x0A) (l @ CHR 0x0A # s) = Some (l @ [CHR 0x0A], s)"
  by (induction l) auto

lemma ReadString_None: "CHR 0x0A \<notin> set l \<Longrightarrow> ReadString (CHR 0x0A) l = None"
  by (induction l) auto

lemma parse_loop_line:
  "CHR 0x0A \<notin> set l \<Longrightarrow> parse_loop (l @ CHR 0x0A # s) m = parse_loop s (parse_line (l @ [CHR 0x0A]) m)"
  by (subst parse_loop.simps) (simp add: ReadString_line)

text \<open>A line of the file: the key and the value, with any padding.\<close>

definition entry :: "string \<Rightarrow> string \<times> string \<Rightarrow> string" where
  "entry pad kv = fst kv @ pad @ ''='' @ pad @ snd kv @ [CHR 0x0A]"

definition is_key :: "string \<Rightarrow> bool" where
  "is_key k \<longleftrightarrow> word k \<and> k \<noteq> [] \<and> hd k \<noteq> CHR ''+'' \<and> hd k \<noteq> CHR '';''"

definition padding :: "string \<Rightarrow> bool" where
  "padding pad \<longleftrightarrow> set pad \<subseteq> {CHR '' '', CHR 0x09}"

lemma padding_space: "padding pad \<Longrightarrow> \<forall>c \<in> set pad. space c \<and> rn c < 128 \<and> c \<noteq> CHR ''='' \<and> c \<noteq> CHR 0x0A"
  by (auto simp: padding_def space_def unicode_IsSpace_def)

lemma newline_space: "space (CHR 0x0A)" "rn (CHR 0x0A) < 128"
  by (simp_all add: space_def unicode_IsSpace_def)

lemma parse_line_entry:
  assumes "is_key k" "word v" "padding pad"
  shows "parse_line (entry pad (k, v)) m = m(k \<mapsto> v)"
proof -
  define t where "t = (if v = [] then [] else pad @ v)"
  define b where "b = (if v = [] then pad else []) @ [CHR 0x0A]"
  define line where "line = (k @ pad) @ CHR ''='' # t"
  have pad: "\<forall>c \<in> set pad. space c \<and> rn c < 128" "\<forall>c \<in> set b. space c \<and> rn c < 128" "CHR ''='' \<notin> set pad"
    using padding_space [OF assms(3)] newline_space by (auto simp: b_def)
  obtain c k' where k: "k = c # k'" "word k" "c \<noteq> CHR ''+''" "c \<noteq> CHR '';''" "c \<noteq> CHR 0x0A"
    using assms(1) by (cases k) (auto simp: is_key_def word_def)
  have "tight line"
    using k assms(2) pad(1) by (auto simp: line_def t_def tight_def word_def space_def unicode_IsSpace_def)
  then have "TrimSpace ([] @ line @ b) = line" by (rule trim_padded) (use pad in auto)
  then have line: "TrimSpace (entry pad (k, v)) = line" by (cases "v = []") (simp_all add: entry_def line_def t_def b_def)
  have "split_byte (CHR ''='') line = (k @ pad) # split_byte (CHR ''='') t"
    unfolding line_def using k(2) pad(3) by (intro split_eq_append) (simp add: word_def)
  moreover have "split_byte (CHR ''='') t = [t]" using assms(2) pad(3) by (intro split_byte_word) (simp add: word_def t_def)
  ultimately have split: "split_byte (CHR ''='') line = [k @ pad, t]" by simp
  have trim_k: "TrimSpace (k @ pad) = k" using trim_padded [of k "[]" pad] k(2) pad(1) by (simp add: word_def)
  have trim_t: "TrimSpace t = v"
    using trim_padded [of v pad "[]"] trim_padded [of "[]" "[]" "[]"] assms(2) pad(1) by (simp add: word_def t_def tight_def)
  have "line \<noteq> []" "hd line = c" "k \<noteq> []" using k(1) by (simp_all add: line_def)
  then show ?thesis using k(3-5) by (simp add: parse_line_def line split trim_k trim_t Let_def)
qed

lemma parse_loop_entry:
  assumes "is_key k" "word v" "padding pad"
  shows "parse_loop (entry pad (k, v) @ s) m = parse_loop s (m(k \<mapsto> v))"
proof -
  let ?l = "k @ pad @ ''='' @ pad @ v"
  have "CHR 0x0A \<notin> set ?l" using assms padding_space [OF assms(3)] by (auto simp: is_key_def word_def)
  from parse_loop_line [OF this, of s m] parse_line_entry [OF assms, of m] show ?thesis by (simp add: entry_def)
qed

lemma parse_loop_entries:
  assumes "\<forall>(k, v) \<in> set kvs. is_key k \<and> word v" "padding pad"
  shows "parse_loop (concat (map (entry pad) kvs) @ s) m = parse_loop s (m ++ map_of (rev kvs))"
  using assms(1)
proof (induction kvs arbitrary: m)
  case (Cons kv kvs)
  obtain k v where "kv = (k, v)" by (cases kv)
  with Cons parse_loop_entry [OF _ _ assms(2), of k v "concat (map (entry pad) kvs) @ s" m] show ?case
    by (simp add: map_add_assoc [symmetric] map_add_upd_left)
qed simp

definition config_of :: "string \<Rightarrow> Config" where
  "config_of s = fst (NewConfig (Inr (s, None :: string option)))"

lemma config_of_entries:
  assumes "\<forall>(k, v) \<in> set kvs. is_key k \<and> word v" "padding pad"
  shows "cf_data (config_of (concat (map (entry pad) kvs))) = map_of (rev kvs)"
proof -
  have "parse_loop [] m = m" for m by (subst parse_loop.simps) simp
  then have "parse_loop (concat (map (entry pad) kvs)) Map.empty = map_of (rev kvs)"
    using parse_loop_entries [OF assms, of "[]" Map.empty] by (simp only: append_Nil2 empty_map_add)
  then show ?thesis by (simp only: config_of_def NewConfig_def parse_def sum.case prod.case option.case fst_conv Config.select_convs)
qed

lemmas config_word_defs = is_key_def word_def tight_def space_def unicode_IsSpace_def padding_def





end
