(* ===== verification/Lib_Explain.thy ===== *)
theory Lib_Explain
  imports Lib_Config
begin

section \<open>The score of a query plan\<close>

text \<open>
  lib/json.go and lib/explain.go: the records that travel through the tool, the choice of the database that a statement
  is explained on, the reading of the plan and its score. The database is a function that answers a query with rows;
  \<open>int_of_cost\<close> stands for \<open>strconv.ParseFloat\<close> followed by the conversion to an integer. The texts that the score is
  explained with are Chinese, in UTF-8. lib/mysql_pool.go: the values of a row and the calls of a pool.
\<close>

subsection \<open>The records\<close>

record traces =
  tr_File :: string
  tr_Line :: int
  tr_Function :: string
  tr_Class :: string
  tr_Type :: string

record SqlInfo =
  si_Info :: string
  si_Trace :: "traces list"
  si_Route :: string
  si_Branch :: string
  si_Dsn :: string

record Explains =
  ex_Id :: int
  ex_Select_type :: string
  ex_Table :: string
  ex_Type :: string
  ex_Possible_keys :: string
  ex_Key :: string
  ex_Key_len :: string
  ex_Ref :: string
  ex_Rows :: int
  ex_Extra :: string

record ExplainsResult =
  er_Expl :: string
  er_Arr :: "SqlInfo list"
  er_Explain :: "Explains list"
  er_Last_query_cost :: string
  er_Level :: string
  er_Score :: int
  er_Content :: string
  er_Branch :: string
  er_Db :: string
  er_Route :: string

text \<open>\<open>JsonDecode\<close> and \<open>JsonSqlExpDecode\<close> clean the text in the same way before they decode it.\<close>

definition json_clean :: "string \<Rightarrow> string" where
  "json_clean data =
     (if Index data [CHR 0x22, CHR ''{''] = -1
      then Replace (Replace (Replace data ''^'' []) [CHR 0x5C] []) [CHR 0x22] [CHR 0x22]
      else data)"

definition JsonDecode :: "(string \<Rightarrow> SqlInfo \<times> 'e option) \<Rightarrow> string \<Rightarrow> SqlInfo \<times> 'e option" where
  "JsonDecode unmarshal data = unmarshal (json_clean data)"

definition JsonSqlExpDecode :: "(string \<Rightarrow> ExplainsResult \<times> 'e option) \<Rightarrow> string \<Rightarrow> ExplainsResult \<times> 'e option" where
  "JsonSqlExpDecode unmarshal data = unmarshal (json_clean data)"

subsection \<open>The texts\<close>

definition txt_no_const :: string where
  "txt_no_const =
     [CHR 0xE4, CHR 0xBD, CHR 0xBF, CHR 0xE7, CHR 0x94, CHR 0xA8] @ ''type'' @ [CHR 0xE4, CHR 0xB8, CHR 0xBA,
     CHR 0xEF, CHR 0xBC, CHR 0x9A] @ ''Null,'' @ [CHR 0xE6, CHR 0x9C, CHR 0xAA, CHR 0xE6, CHR 0x89, CHR 0xBE,
     CHR 0xE5, CHR 0x88, CHR 0xB0] @ ''const tables'' @ [CHR 0xEF, CHR 0xBC, CHR 0x8C, CHR 0xE6, CHR 0x89,
     CHR 0xA3, CHR 0xE5, CHR 0x88, CHR 0x86, CHR 0xE4, CHR 0xB8, CHR 0xBA] @ ''-1,''"

definition txt_null :: string where
  "txt_null =
     [CHR 0xE4, CHR 0xBD, CHR 0xBF, CHR 0xE7, CHR 0x94, CHR 0xA8] @ ''type'' @ [CHR 0xE4, CHR 0xB8, CHR 0xBA,
     CHR 0xEF, CHR 0xBC, CHR 0x9A] @ ''Null,'' @ [CHR 0xE6, CHR 0x89, CHR 0xA3, CHR 0xE5, CHR 0x88, CHR 0x86,
     CHR 0xE4, CHR 0xB8, CHR 0xBA] @ ''-15,''"

definition txt_ALL :: string where
  "txt_ALL =
     [CHR 0xE4, CHR 0xBD, CHR 0xBF, CHR 0xE7, CHR 0x94, CHR 0xA8] @ ''type'' @ [CHR 0xE4, CHR 0xB8, CHR 0xBA,
     CHR 0xEF, CHR 0xBC, CHR 0x9A] @ ''ALL,'' @ [CHR 0xE6, CHR 0x89, CHR 0xA3, CHR 0xE5, CHR 0x88, CHR 0x86,
     CHR 0xE4, CHR 0xB8, CHR 0xBA] @ ''-15,''"

definition txt_type :: string where
  "txt_type =
     [CHR 0xE4, CHR 0xBD, CHR 0xBF, CHR 0xE7, CHR 0x94, CHR 0xA8] @ ''type'' @ [CHR 0xE4, CHR 0xB8, CHR 0xBA,
     CHR 0xEF, CHR 0xBC, CHR 0x9A]"

definition txt_deduct :: string where
  "txt_deduct =
     '','' @ [CHR 0xE6, CHR 0x89, CHR 0xA3, CHR 0xE5, CHR 0x88, CHR 0x86, CHR 0xE4, CHR 0xB8, CHR 0xBA] @ ''-''"

definition txt_key :: string where
  "txt_key =
     [CHR 0xE4, CHR 0xBD, CHR 0xBF, CHR 0xE7, CHR 0x94, CHR 0xA8, CHR 0xE7, CHR 0xB4, CHR 0xA2, CHR 0xE5,
     CHR 0xBC, CHR 0x95] @ ''key'' @ [CHR 0xE4, CHR 0xB8, CHR 0xBA] @ ''Null,'' @ [CHR 0xE6, CHR 0x89, CHR 0xA3,
     CHR 0xE5, CHR 0x88, CHR 0x86, CHR 0xE4, CHR 0xB8, CHR 0xBA] @ ''-5,''"

definition txt_index :: string where
  "txt_index =
     [CHR 0xE6, CHR 0x9C, CHR 0xAA, CHR 0xE4, CHR 0xBD, CHR 0xBF, CHR 0xE7, CHR 0x94,
     CHR 0xA8] @ ''index'' @ [CHR 0xE7, CHR 0xB4, CHR 0xA2, CHR 0xE5, CHR 0xBC, CHR 0x95] @ '','' @ [CHR 0xE6,
     CHR 0x89, CHR 0xA3, CHR 0xE5, CHR 0x88, CHR 0x86, CHR 0xE4, CHR 0xB8, CHR 0xBA] @ ''-5,''"

definition txt_where :: string where
  "txt_where =
     [CHR 0xE6, CHR 0x9C, CHR 0xAA, CHR 0xE4, CHR 0xBD, CHR 0xBF, CHR 0xE7, CHR 0x94,
     CHR 0xA8] @ ''where'' @ [CHR 0xE8, CHR 0xBF, CHR 0x87, CHR 0xE6, CHR 0xBB, CHR 0xA4, CHR 0xE6, CHR 0x9D,
     CHR 0xA1, CHR 0xE4, CHR 0xBB, CHR 0xB6] @ '','' @ [CHR 0xE6, CHR 0x89, CHR 0xA3, CHR 0xE5, CHR 0x88,
     CHR 0x86, CHR 0xE4, CHR 0xB8, CHR 0xBA] @ ''-3,''"

definition txt_rows :: string where
  "txt_rows =
     [CHR 0xE8, CHR 0xBF, CHR 0x94, CHR 0xE5, CHR 0x9B, CHR 0x9E] @ ''rows'' @ [CHR 0xE8, CHR 0xA1, CHR 0x8C,
     CHR 0xE6, CHR 0x95, CHR 0xB0, CHR 0xE4, CHR 0xB8, CHR 0xBA, CHR 0xEF, CHR 0xBC, CHR 0x9A]"

definition txt_cost :: string where
  "txt_cost =
     [CHR 0xE6, CHR 0x9F, CHR 0xA5, CHR 0xE8, CHR 0xAF, CHR 0xA2] @ ''Last_query_cost'' @ [CHR 0xE4, CHR 0xB8,
     CHR 0xBA, CHR 0xEF, CHR 0xBC, CHR 0x9A]"

subsection \<open>The score\<close>

definition ExplainType :: "string \<Rightarrow> string" where
  "ExplainType t =
     (case map_of
       [(''ALL'', ''L1''), (''index'', ''L1''), (''range'', ''L2''), (''index_subquery'', ''L2''), (''unique_subquery'', ''L2''),
        (''index_merge'', ''L2''), (''ref_or_null'', ''L2''), (''fulltext'', ''L2''), (''ref'', ''L3''), (''eq_ref'', ''L3''),
        (''const'', ''L4''), (''system'', ''L4'')] t
      of Some l \<Rightarrow> l | None \<Rightarrow> [])"

definition type_scores :: "(string \<times> int) list" where
  "type_scores = [(''L1'', 15), (''L2'', 10), (''L3'', 5), (''L4'', 0)]"

definition ExplainTypeScore :: "string \<Rightarrow> int" where
  "ExplainTypeScore l = (case map_of type_scores l of Some n \<Rightarrow> n | None \<Rightarrow> 0)"

definition ExplainTypeScoreTmp :: "int \<Rightarrow> string" where
  "ExplainTypeScoreTmp n = (case map_of (map (\<lambda>(k, v). (v, k)) type_scores) n of Some l \<Rightarrow> l | None \<Rightarrow> [])"

text \<open>The deductions for the key, the extra information and the number of rows, which the code repeats at three places.\<close>

definition rows_penalty :: "int \<Rightarrow> int" where
  "rows_penalty n =
     (if 5000 < n \<and> n < 10000 then 5
      else if 10000 < n \<and> n < 100000 then 10
      else if 100000 < n \<and> n < 1000000 then 15
      else if 1000000 < n \<and> n < 10000000 then 20
      else 0)"

definition deductions :: "Explains \<Rightarrow> int \<times> string" where
  "deductions e =
     (let key = (if ex_Key e = [] then (5, txt_key) else (0, []));
          extra =
            (if Index (ex_Extra e) ''index'' = -1 then (5, txt_index)
             else if Index (ex_Extra e) ''where'' = -1 then (3, txt_where) else (0, []));
          n = wrap64 (ex_Rows e); p = rows_penalty n;
          rows = (p, if p = 0 then [] else txt_rows @ Itoa n @ txt_deduct @ Itoa p @ '','')
      in (fst key + fst extra + fst rows, snd key @ snd extra @ snd rows))"

record scoring =
  sg_scoreTypeTmp :: int
  sg_flag :: int
  sg_scoreType :: int
  sg_Level :: string
  sg_Content :: string

definition worst :: "Explains \<Rightarrow> string \<Rightarrow> scoring \<Rightarrow> scoring" where
  "worst e txt g =
     (case deductions e of (p, c) \<Rightarrow>
        g\<lparr>sg_Content := sg_Content g @ ex_Table e @ txt @ c, sg_Level := ''L1'', sg_scoreType := sg_scoreType g + 15 + p\<rparr>)"

fun type_loop :: "Explains list \<Rightarrow> scoring \<Rightarrow> scoring" where
  "type_loop [] g = g"
| "type_loop (e # es) g =
     (if ex_Type e = [] then
        if Index (ex_Extra e) ''const table'' \<noteq> -1
        then g\<lparr>sg_Level := ''L1'', sg_scoreType := sg_scoreType g + 1, sg_Content := sg_Content g @ ex_Table e @ txt_no_const\<rparr>
        else worst e txt_null g
      else if ex_Type e = ''ALL'' then worst e txt_ALL g
      else
        let s = ExplainTypeScore (ExplainType (ex_Type e));
            g = (if sg_scoreTypeTmp g \<noteq> 0 \<and> sg_scoreTypeTmp g < s then g\<lparr>sg_scoreTypeTmp := s\<rparr> else g);
            g = (if sg_flag g = 0 then g\<lparr>sg_scoreTypeTmp := s, sg_flag := s\<rparr> else g)
        in type_loop es g)"

fun other_loop :: "Explains list \<Rightarrow> scoring \<Rightarrow> scoring" where
  "other_loop [] g = g"
| "other_loop (e # es) g =
     (if ex_Type e \<noteq> [] \<and> ex_Type e \<noteq> ''ALL'' \<and> ExplainType (ex_Type e) = ExplainTypeScoreTmp (sg_scoreTypeTmp g)
      then
        case deductions e of (p, c) \<Rightarrow>
          g\<lparr>sg_Content := sg_Content g @ ex_Table e @ txt_type @ ex_Type e @ txt_deduct @ Itoa (sg_scoreTypeTmp g) @ '','' @ c,
            sg_scoreType := sg_scoreType g + p\<rparr>
      else other_loop es g)"

definition cost_penalty :: "int \<Rightarrow> int" where
  "cost_penalty n =
     (if 500 < n \<and> n < 1000 then 5
      else if 1000 < n \<and> n < 10000 then 10
      else if 10000 < n \<and> n < 50000 then 15
      else if 50000 < n \<and> n < 100000 then 20
      else if 100000 < n \<and> n < 150000 then 25
      else if 150000 < n \<and> n < 200000 then 30
      else if 200000 < n \<and> n < 500000 then 35
      else if 500000 < n \<and> n < 1000000 then 40
      else if 1000000 < n \<and> n < 10000000 then 50
      else 0)"

definition cost_part :: "(string \<Rightarrow> int) \<Rightarrow> string \<Rightarrow> scoring \<Rightarrow> scoring" where
  "cost_part int_of_cost cost g =
     (let p = cost_penalty (int_of_cost cost) in
      if p = 0 then g
      else g\<lparr>sg_scoreType := sg_scoreType g + p, sg_Content := sg_Content g @ txt_cost @ cost @ txt_deduct @ Itoa p @ '',''\<rparr>)"

definition getScore :: "(string \<Rightarrow> int) \<Rightarrow> ExplainsResult \<Rightarrow> ExplainsResult" where
  "getScore int_of_cost sql =
     (let g = type_loop (er_Explain sql)
            \<lparr>sg_scoreTypeTmp = 0, sg_flag = 0, sg_scoreType = 0, sg_Level = er_Level sql, sg_Content = er_Content sql\<rparr>;
          g = (if sg_Level g = [] then g\<lparr>sg_Level := ExplainTypeScoreTmp (sg_scoreTypeTmp g)\<rparr> else g);
          g = g\<lparr>sg_scoreType := sg_scoreType g + sg_scoreTypeTmp g\<rparr>;
          g = other_loop (er_Explain sql) g;
          g = cost_part int_of_cost (er_Last_query_cost sql) g
      in sql\<lparr>er_Level := sg_Level g, er_Content := sg_Content g, er_Score := 100 - sg_scoreType g\<rparr>)"

text \<open>\<open>Capitalize\<close> over the runes of a string.\<close>

definition Capitalize :: "string \<Rightarrow> string" where
  "Capitalize str =
     (case runes str of
        [] \<Rightarrow> []
      | (r, _) # rs \<Rightarrow>
          if 97 \<le> r \<and> r \<le> 122 then encode_rune (r - 32) @ concat (map (\<lambda>(r, _). encode_rune r) rs) else str)"

subsection \<open>The rows of a database\<close>

datatype sql_value = SNull | SInt64 int | SUint64 int | SString string | SFloat string

definition bytes2RealType :: "string \<Rightarrow> string \<Rightarrow> sql_value" where
  "bytes2RealType srcStr typeName =
     (if typeName \<in> set [''BIT'', ''TINYINT'', ''SMALLINT'', ''INT''] then SInt64 (fst (ParseInt srcStr))
      else if typeName = ''BIGINT'' then SUint64 (fst (ParseUint srcStr))
      else if typeName \<in> set [''CHAR'', ''VARCHAR'', ''TINY TEXT'', ''TEXT'', ''MEDIUM TEXT'', ''LONG TEXT'', ''TINY BLOB'',
          ''MEDIUM BLOB'', ''BLOB'', ''LONG BLOB'', ''JSON'', ''ENUM'', ''SET'', ''YEAR'', ''DATE'', ''TIME'', ''TIMESTAMP'', ''DATETIME'']
        then SString srcStr
      else if typeName \<in> set [''FLOAT'', ''DOUBLE'', ''DECIMAL''] then SFloat srcStr
      else SNull)"

type_synonym sql_row = "string \<rightharpoonup> sql_value"

text \<open>\<open>Query\<close>: the columns (name and type), the bytes of each row, and the error at the end of the rows.\<close>

definition row_map :: "(string \<times> string) list \<Rightarrow> string list \<Rightarrow> sql_row" where
  "row_map columns values = map_of (rev (map (\<lambda>((name, ty), v). (name, bytes2RealType v ty)) (zip columns values)))"

definition Query :: "'e + ((string \<times> string) list \<times> string list list \<times> 'e option) \<Rightarrow> sql_row list \<times> 'e option" where
  "Query answer =
     (case answer of
        Inl err \<Rightarrow> ([], Some err)
      | Inr (columns, rows, Some err) \<Rightarrow> ([], Some err)
      | Inr (columns, rows, None) \<Rightarrow> (map (row_map columns) rows, None))"

datatype 'e get_error = ErrDb 'e | ErrNoRows | ErrManyRows

definition pool_Get :: "sql_row list \<times> 'e option \<Rightarrow> sql_row \<times> 'e get_error option" where
  "pool_Get results =
     (case results of
        (_, Some err) \<Rightarrow> (Map.empty, Some (ErrDb err))
      | ([], None) \<Rightarrow> (Map.empty, Some ErrNoRows)
      | ([row], None) \<Rightarrow> (row, None)
      | (_, None) \<Rightarrow> (Map.empty, Some ErrManyRows))"

text \<open>\<open>Update\<close>, \<open>Delete\<close> (the rows affected) and \<open>Insert\<close> (the last ID): the error of \<open>Exec\<close> comes with 0.\<close>

definition exec_result :: "'e + ('r \<Rightarrow> int \<times> 'e option) \<times> 'r \<Rightarrow> int \<times> 'e option" where
  "exec_result r = (case r of Inl err \<Rightarrow> (0, Some err) | Inr (read, result) \<Rightarrow> read result)"

text \<open>\<open>Begin\<close>: an error of the ping is dropped, and the transaction is then the nil pointer.\<close>

definition Begin :: "'e option \<Rightarrow> 'e + 'tx \<Rightarrow> 'tx option \<times> 'e option" where
  "Begin pingErr begun =
     (case pingErr of
        Some _ \<Rightarrow> (None, None)
      | None \<Rightarrow> (case begun of Inl err \<Rightarrow> (None, Some err) | Inr tx \<Rightarrow> (Some tx, None)))"

record MysqlConfType =
  mc_MysqlHost :: string
  mc_MysqlDb :: string
  mc_MysqlUser :: string
  mc_MysqlPw :: string
  mc_MysqlCharset :: string
  mc_MysqlPort :: int
  mc_MysqlMaxOpenConns :: int
  mc_MysqlMaxIdleConns :: int

definition dataSourceName :: "MysqlConfType \<Rightarrow> string" where
  "dataSourceName c =
     mc_MysqlUser c @ '':'' @ mc_MysqlPw c @ ''@tcp('' @ mc_MysqlHost c @ '':'' @ Itoa (mc_MysqlPort c) @ '')/'' @
     mc_MysqlDb c @ ''?charset='' @ mc_MysqlCharset c @ ''&autocommit=true''"

subsection \<open>The database of a statement\<close>

text \<open>The last string field of the configuration whose value is the name of the database.\<close>

fun db_upon :: "string \<Rightarrow> AppConfig \<Rightarrow> string \<Rightarrow> string" where
  "db_upon db [] upon = upon"
| "db_upon db ((name, v) # fs) upon = db_upon db fs (if v = FString db then name else upon)"

definition as_string :: "field_value \<Rightarrow> string result" where
  "as_string v = (case v of FString s \<Rightarrow> Inr s | FInt _ \<Rightarrow> Inl TypeAssertPanic)"

definition as_int :: "field_value \<Rightarrow> int result" where
  "as_int v = (case v of FInt n \<Rightarrow> Inr n | FString _ \<Rightarrow> Inl TypeAssertPanic)"

definition db_field :: "string \<Rightarrow> string \<Rightarrow> field_value \<Rightarrow> MysqlConfType \<Rightarrow> MysqlConfType result" where
  "db_field upon name v c =
     (if name = upon @ ''_MysqlHost'' then bindR (as_string v) (\<lambda>s. Inr (c\<lparr>mc_MysqlHost := s\<rparr>))
      else if name = upon @ ''_MysqlDb'' then bindR (as_string v) (\<lambda>s. Inr (c\<lparr>mc_MysqlDb := s\<rparr>))
      else if name = upon @ ''_MysqlUser'' then bindR (as_string v) (\<lambda>s. Inr (c\<lparr>mc_MysqlUser := s\<rparr>))
      else if name = upon @ ''_MysqlPw'' then bindR (as_string v) (\<lambda>s. Inr (c\<lparr>mc_MysqlPw := s\<rparr>))
      else if name = upon @ ''_MysqlCharset'' then bindR (as_string v) (\<lambda>s. Inr (c\<lparr>mc_MysqlCharset := s\<rparr>))
      else if name = upon @ ''_MysqlPort'' then bindR (as_int v) (\<lambda>n. Inr (c\<lparr>mc_MysqlPort := n\<rparr>))
      else if name = upon @ ''_MysqlMaxOpenConns'' then bindR (as_int v) (\<lambda>n. Inr (c\<lparr>mc_MysqlMaxOpenConns := n\<rparr>))
      else if name = upon @ ''_MysqlMaxIdleConns'' then bindR (as_int v) (\<lambda>n. Inr (c\<lparr>mc_MysqlMaxIdleConns := n\<rparr>))
      else Inr c)"

fun db_fields :: "string \<Rightarrow> AppConfig \<Rightarrow> MysqlConfType \<Rightarrow> MysqlConfType result" where
  "db_fields upon [] c = Inr c"
| "db_fields upon ((name, v) # fs) c = bindR (db_field upon name v c) (db_fields upon fs)"

definition no_conf :: MysqlConfType where
  "no_conf = \<lparr>mc_MysqlHost = [], mc_MysqlDb = [], mc_MysqlUser = [], mc_MysqlPw = [], mc_MysqlCharset = [],
     mc_MysqlPort = 0, mc_MysqlMaxOpenConns = 0, mc_MysqlMaxIdleConns = 0\<rparr>"

definition db_conf :: "AppConfig \<Rightarrow> string \<Rightarrow> MysqlConfType result" where
  "db_conf a db = db_fields (db_upon db a []) a no_conf"

text \<open>The statement that is explained, and the typed reading of a row of the plan.\<close>

definition explain_query :: "string \<Rightarrow> string" where
  "explain_query info =
     (let s = Replace (Replace info [CHR 0x27] [CHR 0x22]) [CHR 0x22] [CHR 0x22];
          s = (if Index s ''u003c'' \<noteq> -1 then Replace s ''u003c'' ''<'' else s);
          s = (if Index s ''u003e'' \<noteq> -1 then Replace s ''u003e'' ''>'' else s)
      in ''EXPLAIN '' @ s)"

definition uint_col :: "sql_row \<Rightarrow> string \<Rightarrow> int result" where
  "uint_col r k = (case r k of Some (SUint64 n) \<Rightarrow> Inr n | _ \<Rightarrow> Inl TypeAssertPanic)"

definition string_col :: "sql_row \<Rightarrow> string \<Rightarrow> string result" where
  "string_col r k = (case r k of Some (SString s) \<Rightarrow> Inr s | _ \<Rightarrow> Inl TypeAssertPanic)"

definition explain_row :: "sql_row \<Rightarrow> Explains result" where
  "explain_row r =
     bindR (uint_col r ''id'') (\<lambda>id. bindR (string_col r ''select_type'') (\<lambda>select_type.
     bindR (string_col r ''table'') (\<lambda>table. bindR (string_col r ''type'') (\<lambda>type.
     bindR (string_col r ''possible_keys'') (\<lambda>possible_keys. bindR (string_col r ''key'') (\<lambda>key.
     bindR (string_col r ''key_len'') (\<lambda>key_len. bindR (string_col r ''ref'') (\<lambda>ref.
     bindR (uint_col r ''rows'') (\<lambda>rows. bindR (string_col r ''Extra'') (\<lambda>extra.
       Inr \<lparr>ex_Id = id, ex_Select_type = select_type, ex_Table = table, ex_Type = type, ex_Possible_keys = possible_keys,
         ex_Key = key, ex_Key_len = key_len, ex_Ref = ref, ex_Rows = rows, ex_Extra = extra\<rparr>))))))))))"

fun explain_rows :: "sql_row list \<Rightarrow> Explains list \<Rightarrow> Explains list result" where
  "explain_rows [] es = Inr es"
| "explain_rows (r # rs) es = bindR (explain_row r) (\<lambda>e. explain_rows rs (es @ [e]))"

text \<open>\<open>query\<close> is what the database of a configuration answers; an error is no row.\<close>

definition ExcuteDbSql :: "(string \<Rightarrow> int) \<Rightarrow> (MysqlConfType \<Rightarrow> string \<Rightarrow> sql_row list) \<Rightarrow> AppConfig \<Rightarrow> ExplainsResult \<Rightarrow> ExplainsResult result" where
  "ExcuteDbSql int_of_cost query a sql =
     bindR (db_conf a (er_Db sql)) (\<lambda>c.
     bindR (get_at (er_Arr sql) 0) (\<lambda>first.
     bindR (explain_rows (query c (explain_query (si_Info first))) (er_Explain sql)) (\<lambda>es.
       let sql = sql\<lparr>er_Explain := es\<rparr>;
           sql = (case query c (''show status like '' @ [CHR 0x27] @ ''Last_query_cost'' @ [CHR 0x27]) of
                    [] \<Rightarrow> sql
                  | r # _ \<Rightarrow> sql\<lparr>er_Last_query_cost := (case r ''Value'' of Some (SString s) \<Rightarrow> s | _ \<Rightarrow> [])\<rparr>)
       in Inr (getScore int_of_cost sql))))"

subsection \<open>The range of the score\<close>

lemma rows_penalty_range: "0 \<le> rows_penalty n" "rows_penalty n \<le> 20"
  by (simp_all add: rows_penalty_def)

lemma cost_penalty_range: "0 \<le> cost_penalty n" "cost_penalty n \<le> 50"
  by (simp_all add: cost_penalty_def)

lemma deductions_range: "0 \<le> fst (deductions e)" "fst (deductions e) \<le> 30"
  using rows_penalty_range [of "wrap64 (ex_Rows e)"] by (auto simp: deductions_def Let_def)

lemma type_score_range: "0 \<le> ExplainTypeScore l" "ExplainTypeScore l \<le> 15"
  by (simp_all add: ExplainTypeScore_def type_scores_def)

lemma worst_sel [simp]:
  "sg_scoreTypeTmp (worst e txt g) = sg_scoreTypeTmp g"
  "sg_scoreType (worst e txt g) = sg_scoreType g + 15 + fst (deductions e)" "sg_Level (worst e txt g) = ''L1''"
  by (simp_all add: worst_def split: prod.splits)

text \<open>The rows of the plan up to the one that ends the loop.\<close>

lemma type_loop_range:
  assumes "0 \<le> sg_scoreTypeTmp g" "sg_scoreTypeTmp g \<le> 15"
  shows "0 \<le> sg_scoreTypeTmp (type_loop es g) \<and> sg_scoreTypeTmp (type_loop es g) \<le> 15 \<and>
    sg_scoreType g \<le> sg_scoreType (type_loop es g) \<and> sg_scoreType (type_loop es g) \<le> sg_scoreType g + 45"
  using assms
proof (induction es arbitrary: g)
  case (Cons e es)
  let ?s = "ExplainTypeScore (ExplainType (ex_Type e))"
  show ?case
  proof (cases "ex_Type e = [] \<or> ex_Type e = ''ALL''")
    case True
    then show ?thesis using Cons.prems deductions_range [of e] by auto
  next
    case False
    let ?g = "if sg_scoreTypeTmp g \<noteq> 0 \<and> sg_scoreTypeTmp g < ?s then g\<lparr>sg_scoreTypeTmp := ?s\<rparr> else g"
    let ?h = "if sg_flag ?g = 0 then ?g\<lparr>sg_scoreTypeTmp := ?s, sg_flag := ?s\<rparr> else ?g"
    have "0 \<le> sg_scoreTypeTmp ?h" "sg_scoreTypeTmp ?h \<le> 15" "sg_scoreType ?h = sg_scoreType g"
      using Cons.prems type_score_range [of "ExplainType (ex_Type e)"] by auto
    with Cons.IH [of ?h] False show ?thesis by (simp add: Let_def)
  qed
qed simp

lemma other_loop_range:
  "sg_scoreType g \<le> sg_scoreType (other_loop es g) \<and> sg_scoreType (other_loop es g) \<le> sg_scoreType g + 30"
proof (induction es)
  case (Cons e es)
  then show ?case using deductions_range [of e] by (auto simp: case_prod_beta)
qed simp

lemma cost_part_range:
  "sg_scoreType g \<le> sg_scoreType (cost_part f c g) \<and> sg_scoreType (cost_part f c g) \<le> sg_scoreType g + 50"
  using cost_penalty_range [of "f c"] by (simp add: cost_part_def Let_def)

lemma getScore_Score:
  "er_Score (getScore f sql) \<in> {-40..100}"
proof -
  let ?g0 = "\<lparr>sg_scoreTypeTmp = 0, sg_flag = 0, sg_scoreType = 0, sg_Level = er_Level sql, sg_Content = er_Content sql\<rparr>"
  define g1 where "g1 = type_loop (er_Explain sql) ?g0"
  define g2 where "g2 = (if sg_Level g1 = [] then g1\<lparr>sg_Level := ExplainTypeScoreTmp (sg_scoreTypeTmp g1)\<rparr> else g1)"
  define g3 where "g3 = g2\<lparr>sg_scoreType := sg_scoreType g2 + sg_scoreTypeTmp g2\<rparr>"
  have "0 \<le> sg_scoreTypeTmp g1" "sg_scoreTypeTmp g1 \<le> 15" "0 \<le> sg_scoreType g1" "sg_scoreType g1 \<le> 45"
    using type_loop_range [of ?g0 "er_Explain sql"] by (simp_all add: g1_def)
  then have "0 \<le> sg_scoreType g3" "sg_scoreType g3 \<le> 60" by (auto simp: g3_def g2_def)
  moreover have "er_Score (getScore f sql) = 100 - sg_scoreType (cost_part f (er_Last_query_cost sql) (other_loop (er_Explain sql) g3))"
    by (simp add: getScore_def Let_def g1_def g2_def g3_def)
  ultimately show ?thesis
    using other_loop_range [of g3 "er_Explain sql"] cost_part_range [of "other_loop (er_Explain sql) g3" f "er_Last_query_cost sql"] by auto
qed

definition ex_plan :: "string \<Rightarrow> Explains" where
  "ex_plan t = \<lparr>ex_Id = 1, ex_Select_type = ''SIMPLE'', ex_Table = ''t'', ex_Type = t, ex_Possible_keys = [], ex_Key = [],
     ex_Key_len = [], ex_Ref = [], ex_Rows = 2000000, ex_Extra = []\<rparr>"

definition ex_result :: "Explains list \<Rightarrow> ExplainsResult" where
  "ex_result es = \<lparr>er_Expl = [], er_Arr = [], er_Explain = es, er_Last_query_cost = ''2000000.0'', er_Level = [], er_Score = 0,
     er_Content = [], er_Branch = [], er_Db = [], er_Route = []\<rparr>"

lemma has_prefix_split: "has_prefix p t \<Longrightarrow> p @ drop (length p) t = t"
  by (induction p t rule: has_prefix.induct) auto

lemma Replace_same: "Replace s x x = s"
proof (induction "length s" arbitrary: s rule: less_induct)
  case less
  show ?case
  proof (cases s)
    case (Cons c t)
    show ?thesis
    proof (cases "x \<noteq> [] \<and> has_prefix x s")
      case True
      then have "Replace (drop (length x) s) x x = drop (length x) s" by (intro less) (auto simp: Cons)
      with True has_prefix_split [of x s] show ?thesis by (simp add: Cons)
    qed (use less [of t] Cons in auto)
  qed simp
qed

text \<open>C27. The score of a plan is never above 100 and never below -40, whatever rows, extra information and cost the
  database reports; both ends are reached, so a score can be negative.\<close>

theorem score_range:
  "er_Score (getScore f sql) \<in> {-40..100} \<and>
   er_Score (getScore (\<lambda>_. 2000000) (ex_result [ex_plan ''index'', ex_plan ''ALL''])) = -40 \<and>
   er_Score (getScore (\<lambda>_. 1) (ex_result [])) = 100"
proof (intro conjI)
  show "er_Score (getScore (\<lambda>_. 2000000) (ex_result [ex_plan ''index'', ex_plan ''ALL''])) = -40"
    by (simp add: getScore_def ex_result_def ex_plan_def Let_def worst_def deductions_def rows_penalty_def wrap64_def
        ExplainType_def ExplainTypeScore_def ExplainTypeScoreTmp_def type_scores_def cost_part_def cost_penalty_def Index_def)
  show "er_Score (getScore (\<lambda>_. 1) (ex_result [])) = 100"
    by (simp add: getScore_def ex_result_def Let_def cost_part_def cost_penalty_def)
qed (rule getScore_Score)

subsection \<open>The level\<close>

definition type_score :: "Explains \<Rightarrow> int" where
  "type_score e = ExplainTypeScore (ExplainType (ex_Type e))"

lemma type_loop_max:
  assumes "list_all (\<lambda>e. ex_Type e \<noteq> [] \<and> ex_Type e \<noteq> ''ALL'') es" "0 \<le> sg_scoreTypeTmp g" "sg_flag g = 0 \<longleftrightarrow> sg_scoreTypeTmp g = 0"
  shows "sg_scoreTypeTmp (type_loop es g) = foldl max (sg_scoreTypeTmp g) (map type_score es) \<and>
    sg_Level (type_loop es g) = sg_Level g \<and> sg_scoreType (type_loop es g) = sg_scoreType g"
  using assms
proof (induction es arbitrary: g)
  case (Cons e es)
  let ?s = "ExplainTypeScore (ExplainType (ex_Type e))"
  let ?g = "if sg_scoreTypeTmp g \<noteq> 0 \<and> sg_scoreTypeTmp g < ?s then g\<lparr>sg_scoreTypeTmp := ?s\<rparr> else g"
  let ?h = "if sg_flag ?g = 0 then ?g\<lparr>sg_scoreTypeTmp := ?s, sg_flag := ?s\<rparr> else ?g"
  have h: "sg_scoreTypeTmp ?h = max (sg_scoreTypeTmp g) ?s" "sg_flag ?h = 0 \<longleftrightarrow> sg_scoreTypeTmp ?h = 0"
    "sg_Level ?h = sg_Level g" "sg_scoreType ?h = sg_scoreType g"
    using Cons.prems type_score_range(1) [of "ExplainType (ex_Type e)"] by (auto simp: max_def)
  have "type_loop (e # es) g = type_loop es ?h" using Cons.prems(1) by (simp add: Let_def)
  with Cons.IH [of ?h] Cons.prems h show ?case by (simp add: type_score_def)
qed simp



text \<open>The thresholds leave gaps: at a boundary, and above the last one, nothing is taken off.\<close>

lemma rows_penalty_gaps:
  "rows_penalty 9999 = 5" "rows_penalty 10000 = 0" "rows_penalty 9999999 = 20" "rows_penalty 10000000 = 0"
  "cost_penalty 999 = 5" "cost_penalty 1000 = 0" "cost_penalty 10000000 = 0"
  by (simp_all add: rows_penalty_def cost_penalty_def)

subsection \<open>The choice of the database\<close>

definition ends_with :: "string \<Rightarrow> string \<Rightarrow> bool" where
  "ends_with name suf \<longleftrightarrow> drop (length name - length suf) name = suf"

lemma ends_with_append: "name = upon @ suf \<Longrightarrow> ends_with name suf"
  by (simp add: ends_with_def)

text \<open>The names that reflection looks for belong to fields of the type it asserts.\<close>

lemma app_fields_kinds:
  "list_all (\<lambda>(name, k).
     (list_ex (ends_with name) [''_MysqlHost'', ''_MysqlDb'', ''_MysqlUser'', ''_MysqlPw'', ''_MysqlCharset''] \<longrightarrow> k = KString) \<and>
     (list_ex (ends_with name) [''_MysqlPort'', ''_MysqlMaxOpenConns'', ''_MysqlMaxIdleConns''] \<longrightarrow> k = KInt)) app_fields"
  by (simp add: app_fields_def ends_with_def)

definition typed_field :: "string \<times> field_value \<Rightarrow> bool" where
  "typed_field f \<longleftrightarrow>
     (list_ex (ends_with (fst f)) [''_MysqlHost'', ''_MysqlDb'', ''_MysqlUser'', ''_MysqlPw'', ''_MysqlCharset''] \<longrightarrow> (\<exists>s. snd f = FString s)) \<and>
     (list_ex (ends_with (fst f)) [''_MysqlPort'', ''_MysqlMaxOpenConns'', ''_MysqlMaxIdleConns''] \<longrightarrow> (\<exists>n. snd f = FInt n))"

lemma getConf_typed: "list_all typed_field (getConf c)"
  using app_fields_kinds unfolding getConf_def list_all_iff
  by (fastforce simp: typed_field_def split: kind.splits)

lemma db_field_typed:
  assumes "typed_field (name, v)"
  shows "\<exists>c'. db_field upon name v c = Inr c'"
proof (cases v)
  case (FInt n)
  with assms have "\<not> list_ex (ends_with name) [''_MysqlHost'', ''_MysqlDb'', ''_MysqlUser'', ''_MysqlPw'', ''_MysqlCharset'']"
    by (auto simp only: typed_field_def fst_conv snd_conv field_value.distinct)
  then have "name \<noteq> upon @ ''_MysqlHost''" "name \<noteq> upon @ ''_MysqlDb''" "name \<noteq> upon @ ''_MysqlUser''" "name \<noteq> upon @ ''_MysqlPw''"
    "name \<noteq> upon @ ''_MysqlCharset''" by (auto simp: list_ex_iff ends_with_append)
  then show ?thesis by (simp add: db_field_def FInt as_int_def)
next
  case (FString s)
  with assms have "\<not> list_ex (ends_with name) [''_MysqlPort'', ''_MysqlMaxOpenConns'', ''_MysqlMaxIdleConns'']"
    by (auto simp only: typed_field_def fst_conv snd_conv field_value.distinct)
  then have "name \<noteq> upon @ ''_MysqlPort''" "name \<noteq> upon @ ''_MysqlMaxOpenConns''" "name \<noteq> upon @ ''_MysqlMaxIdleConns''"
    by (auto simp: list_ex_iff ends_with_append)
  then show ?thesis by (simp add: db_field_def FString as_string_def)
qed

lemma db_fields_typed: "list_all typed_field a \<Longrightarrow> \<exists>mc. db_fields upon a c = Inr mc"
proof (induction a arbitrary: c)
  case (Cons f a)
  obtain name v where f: "f = (name, v)" by (cases f)
  with Cons.prems db_field_typed [of name v upon c] obtain c' where "db_field upon name v c = Inr c'" by auto
  with Cons.IH Cons.prems show ?case by (simp add: f)
qed simp

text \<open>C29. The type assertions that the reflection over the configuration makes never fail: for every configuration file
  and every name of a database, \<open>ExcuteDbSql\<close> gets the data of a connection without a panic.\<close>

theorem db_conf_typed: "\<exists>mc. db_conf (getConf c) db = Inr mc"
  unfolding db_conf_def by (rule db_fields_typed [OF getConf_typed])

text \<open>The values of env/prod.conf that matter: the database \<open>comj\<close> is found by the user name of the connection, which is
  a later field with the same value, so that no field of the connection is read.\<close>

definition prod_conf :: Config where
  "prod_conf = \<lparr>cf_lastModifyTime = 0, cf_data =
     [''Comjia'' \<mapsto> ''comj'', ''Comjia_MysqlHost'' \<mapsto> ''101.60.35.63'', ''Comjia_MysqlDb'' \<mapsto> ''comji'', ''Comjia_MysqlUser'' \<mapsto> ''comj'',
      ''Comjia_MysqlPw'' \<mapsto> ''444'', ''Comjia_MysqlPort'' \<mapsto> ''3306'']\<rparr>"

lemma db_upon_conf:
  "db_upon db (map (\<lambda>(n, k). (n, case k of KInt \<Rightarrow> FInt (f n) | KString \<Rightarrow> FString (g n))) fs) u =
   fold (\<lambda>(n, k) u. if k = KString \<and> g n = db then n else u) fs u"
  by (induction fs arbitrary: u) (auto split: kind.splits)

lemma prod_conf_upon: "db_upon ''comj'' (getConf prod_conf) [] = ''Comjia_MysqlUser''"
  unfolding getConf_def db_upon_conf by (simp add: app_fields_def GetString_def prod_conf_def)

lemma prod_conf_lost: "db_conf (getConf prod_conf) ''comj'' = Inr no_conf"
  unfolding db_conf_def prod_conf_upon by (simp add: getConf_def app_fields_def db_field_def)

end
