(* ===== verification/Lib_Review.thy ===== *)
theory Lib_Review
  imports Redis_Queue Fingerprint_Safety Lib_Explain
begin

section \<open>From a statement to its review\<close>

text \<open>
  lib/soar.go and testSQL.go: the statements that wait in Redis are popped, reduced to fingerprints, filtered by the
  queue without duplicates and sampled per fingerprint. \<open>md5\<close>, the decoder of JSON and the Redis server are
  parameters. A goroutine that is started is returned as its arguments; what is sent over the channel \<open>SqlExplain\<close> is
  returned.
\<close>

subsection \<open>The fingerprint of a statement\<close>

abbreviation (input) quote1 :: string where "quote1 \<equiv> [CHR 0x27]"
abbreviation (input) quote2 :: string where "quote2 \<equiv> [CHR 0x22]"

definition replace_found :: "string \<Rightarrow> string \<Rightarrow> string \<Rightarrow> string" where
  "replace_found s old new = (if Index s old \<noteq> -1 then Replace s old new else s)"

definition info_text :: "string \<Rightarrow> string" where
  "info_text info =
     replace_found (replace_found (replace_found (replace_found info
       ([CHR 0x5C] @ ''u003c'') ''<'') ([CHR 0x5C] @ ''u003e'') ''>'') ''<'' ''<'') ''>'' ''>''"

text \<open>\<open>ExcuteUnique\<close>: the arguments of \<open>importToRedis\<close>. The panic of \<open>Fingerprint\<close> is not recovered: the deferred function is
  registered after the call.\<close>

definition ExcuteUnique :: "(rune \<Rightarrow> rune) \<Rightarrow> bool \<Rightarrow> SqlInfo \<Rightarrow> (string \<times> SqlInfo) option result" where
  "ExcuteUnique uni rnw sql =
     (let sqlStr = Replace (Replace (si_Info sql) quote1 quote2) quote2 quote2;
          sql = sql\<lparr>si_Info := info_text (si_Info sql)\<rparr>
      in if sqlStr \<noteq> [] then bindR (Fingerprint uni rnw sqlStr) (\<lambda>f. Inr (Some (TrimSpace f, sql)))
         else Inr None)"

subsection \<open>The filter\<close>

definition dbname :: "string \<Rightarrow> string result" where
  "dbname dsn =
     (let pos = Index dsn ''dbname='' in
      if pos \<noteq> -1 then
        bindR (slice dsn pos (int (length dsn))) (\<lambda>rest.
          let end = Index rest '']'' in
          if end \<noteq> -1 then slice dsn (pos + 7) (pos + end) else Inr [])
      else Inr [])"

text \<open>The same lines in \<open>execCommand\<close> slice before they look at the position.\<close>

definition dbname_exec :: "string \<Rightarrow> string result" where
  "dbname_exec dsn =
     (let pos = Index dsn ''dbname='' in
      bindR (slice dsn pos (int (length dsn))) (\<lambda>rest.
        let end = Index rest '']'' in
        if pos \<noteq> -1 \<and> end \<noteq> -1 then slice dsn (pos + 7) (pos + end) else Inr []))"

definition line_text :: "string \<Rightarrow> string" where
  "line_text line = replace_found (replace_found line ''u003e'' ''>'') ''u003c'' ''<''"

definition sample :: "string \<Rightarrow> SqlInfo \<Rightarrow> string \<Rightarrow> ExplainsResult" where
  "sample line sql db =
     \<lparr>er_Expl = line, er_Arr = [sql], er_Explain = [], er_Last_query_cost = [], er_Level = [], er_Score = 0, er_Content = [],
      er_Branch = si_Branch sql, er_Db = db, er_Route = si_Route sql\<rparr>"

definition importToRedis :: "(string \<Rightarrow> string) \<Rightarrow> (string \<Rightarrow> string) \<Rightarrow> 's conn_do \<Rightarrow> string \<Rightarrow> SqlInfo \<Rightarrow> 's \<Rightarrow>
    (bool \<times> ExplainsResult option) result \<times> 's" where
  "importToRedis md5 sha1 conn line sql w =
     (if line = [] then (Inr (False, None), w)
      else
        let line = line_text line in
        case UniquePush sha1 conn (''julive_'' @ si_Branch sql) line w of ((res, _), w) \<Rightarrow>
          let w = (if res = 1 then snd (SetKey sha1 conn (md5 line) ''1'' w) else w) in
          case GetKey sha1 conn (md5 line) w of ((sqlKey, _), w) \<Rightarrow>
            (if sqlKey \<noteq> [] then bindR (dbname (si_Dsn sql)) (\<lambda>db. Inr (True, Some (sample line sql db)))
             else Inr (True, None), w))"

subsection \<open>The sampler\<close>

text \<open>One round of \<open>NewExplainData\<close>: the group that is complete and posted, if any. Its key is deleted in Redis.\<close>

definition sampler_step :: "(string \<Rightarrow> string) \<Rightarrow> int \<Rightarrow> ExplainsResult \<Rightarrow> (string \<rightharpoonup> ExplainsResult) \<Rightarrow>
    (ExplainsResult option \<times> (string \<rightharpoonup> ExplainsResult)) result" where
  "sampler_step md5 sampling d groups =
     (let k = md5 (er_Expl d) in
      case groups k of
        None \<Rightarrow> Inr (None, groups(k \<mapsto> d))
      | Some g \<Rightarrow>
          if int (length (er_Arr g)) < sampling then
            bindR (get_at (er_Arr d) 0) (\<lambda>first.
              if si_Info first \<in> set (map si_Info (er_Arr g)) then Inr (None, groups)
              else Inr (None, groups(k \<mapsto> g\<lparr>er_Arr := er_Arr g @ [first]\<rparr>)))
          else Inr (Some g, groups(k := None)))"

subsection \<open>The workers of a branch\<close>

text \<open>\<open>sendData\<close> pops until nothing comes; the statements it hands to \<open>ExcuteUnique\<close>, each in a goroutine of its own, are
  returned. \<open>fuel\<close> bounds the rounds, and \<open>None\<close> is a loop that goes on.\<close>

fun sendData :: "(string \<Rightarrow> SqlInfo \<times> 'e option) \<Rightarrow> (string \<Rightarrow> string) \<Rightarrow> 's conn_do \<Rightarrow> string \<Rightarrow> nat \<Rightarrow> 's \<Rightarrow>
    (SqlInfo list \<times> 's) option" where
  "sendData unmarshal sha1 conn branchName 0 w = None"
| "sendData unmarshal sha1 conn branchName (Suc fuel) w =
     (case ListPop sha1 conn branchName w of ((data, err1), w) \<Rightarrow>
        if data = [] then Some ([], w)
        else case JsonDecode unmarshal data of (dataTmp, err) \<Rightarrow>
          map_option (map_prod ((#) dataTmp) id) (sendData unmarshal sha1 conn branchName fuel w))"

text \<open>\<open>dispatch\<close>: the branches whose worker is started, and the names that are returned.\<close>

definition dispatch :: "string \<Rightarrow> int \<Rightarrow> (string list \<times> string list) result" where
  "dispatch Type branchActive =
     bindR (make_slice 16 [] branchActive) (\<lambda>branchArr.
       let names = map (\<lambda>i. ''SQL_'' @ Itoa (int i)) [0..<nat branchActive]
       in Inr (if Type = ''ALL'' then (names, branchArr) else ([], names)))"

fun count_branches :: "(string \<Rightarrow> string) \<Rightarrow> 's conn_do \<Rightarrow> string list \<Rightarrow> 's \<Rightarrow> string list \<times> 's" where
  "count_branches sha1 conn [] w = ([], w)"
| "count_branches sha1 conn (v # vs) w =
     (case ListCount sha1 conn v w of ((data, _), w) \<Rightarrow>
        case count_branches sha1 conn vs w of (started, w) \<Rightarrow> (if data \<noteq> 0 then v # started else started, w))"

definition checkBranch :: "(string \<Rightarrow> string) \<Rightarrow> 's conn_do \<Rightarrow> int \<Rightarrow> 's \<Rightarrow> (string list \<times> 's) result" where
  "checkBranch sha1 conn branchActive w =
     bindR (dispatch ''single'' branchActive) (\<lambda>(_, branch). Inr (count_branches sha1 conn branch w))"

subsection \<open>The report of the plan\<close>

definition getUnicode :: "string \<Rightarrow> string result" where
  "getUnicode data =
     (let start = Index data ([CHR 0x5C] @ ''u003c'') in
      bindR (slice data start (int (length data))) (\<lambda>rest.
        let end = Index rest ([CHR 0x5C] @ ''u003e'') in
        bindR (slice data start (start + end + 6)) (\<lambda>tag. Inr (Replace data tag []))))"

text \<open>\<open>strings.SplitN(s, sep, -1)\<close> for a non-empty separator.\<close>

function SplitN :: "string \<Rightarrow> string \<Rightarrow> string list" where
  "SplitN s sep =
     (case index_of s sep of
        Some i \<Rightarrow> if sep = [] then [s] else take i s # SplitN (drop (i + length sep) s) sep
      | None \<Rightarrow> [s])"
  by pat_completeness auto
termination
proof (relation "measure (\<lambda>(s, sep). length s)", goal_cases)
  case (2 s sep i)
  then show ?case by (cases s) auto
qed simp

declare SplitN.simps [simp del]

text \<open>The columns of the table: a header without a value of its own stops the program.\<close>

fun analyse_columns :: "string list \<Rightarrow> string list \<Rightarrow> (string \<rightharpoonup> string) \<Rightarrow> (string \<rightharpoonup> string) result" where
  "analyse_columns [] vs m = Inr m"
| "analyse_columns (h # hs) vs m =
     (if h = [] then analyse_columns hs (tl vs) m
      else
        let h = Replace h [CHR 0x5C, CHR 0x5C] [] in
        bindR (get_at vs 0) (\<lambda>v.
          let v = Replace v [CHR 0x5C, CHR 0x5C] [] in
          bindR (if Index v [CHR 0x5C, CHR ''u''] \<noteq> -1 then getUnicode v else Inr v) (\<lambda>v.
            analyse_columns hs (tl vs) (m(h \<mapsto> v)))))"

definition analyseSql :: "string \<Rightarrow> (string \<rightharpoonup> string) result" where
  "analyseSql sqlContent =
     (let n = int (length sqlContent);
          comma = Index sqlContent ''Explain''
      in bindR (slice sqlContent comma n) (\<lambda>s1.
         let start = Index s1 ''Content'' in
         bindR (slice sqlContent (comma + start) n) (\<lambda>s2.
         let pos = Index s2 ''Position'' in
         bindR (slice sqlContent (comma + start + 11) (comma + start + pos - 10)) (\<lambda>explainContent.
         let data = SplitN explainContent [CHR 0x5C, CHR ''n''] in
         bindR (get_at data 0) (\<lambda>header.
         bindR (get_at data 2) (\<lambda>param.
           analyse_columns (SplitN header ''|'') (SplitN param ''|'') Map.empty))))))"

text \<open>The command that \<open>ExcuteSql\<close> runs in a shell.\<close>

definition soar_dsn :: "AppConfig \<Rightarrow> string \<Rightarrow> string" where
  "soar_dsn a p =
     str_field a (p @ ''User'') @ '':'' @ str_field a (p @ ''Pw'') @ ''@'' @ str_field a (p @ ''Host'') @ '':'' @
     Itoa (int_field a (p @ ''Port'')) @ ''/'' @ str_field a (p @ ''Db'')"

definition ExcuteSql :: "ExplainsResult \<Rightarrow> AppConfig \<Rightarrow> string result" where
  "ExcuteSql sql a =
     bindR (get_at (er_Arr sql) 0) (\<lambda>s.
       let sqlStr = Replace (Replace (si_Info s) quote1 quote2) quote2 quote2
       in Inr (''echo '' @ quote1 @ sqlStr @ quote1 @ ''|./soarbin/soar -test-dsn='' @ quote1 @ soar_dsn a ''SoarTestDsn'' @ quote1 @
           '' -online-dsn='' @ quote1 @ soar_dsn a ''SoarOnlineDsn'' @ quote1 @ '' -allow-online-as-test -report-type json''))"

subsection \<open>The consumer of the reviews\<close>

text \<open>One tick of \<open>NewExplainResult\<close>: at most \<open>ExplainDBNumber\<close> groups are popped and explained, each in a goroutine.\<close>

fun explain_tick :: "(string \<Rightarrow> ExplainsResult \<times> 'e option) \<Rightarrow> (string \<Rightarrow> string) \<Rightarrow> 's conn_do \<Rightarrow> string \<Rightarrow> nat \<Rightarrow> 's \<Rightarrow>
    ExplainsResult list \<times> 's" where
  "explain_tick unmarshal sha1 conn q 0 w = ([], w)"
| "explain_tick unmarshal sha1 conn q (Suc n) w =
     (case ListPop sha1 conn q w of ((data, _), w) \<Rightarrow>
        if data = [] then explain_tick unmarshal sha1 conn q n w
        else case JsonSqlExpDecode unmarshal data of (dataTmp, err) \<Rightarrow>
          map_prod ((#) dataTmp) id (explain_tick unmarshal sha1 conn q n w))"

definition NewExplainResult_tick :: "(string \<Rightarrow> ExplainsResult \<times> 'e option) \<Rightarrow> (string \<Rightarrow> string) \<Rightarrow> 's conn_do \<Rightarrow> AppConfig \<Rightarrow> 's \<Rightarrow>
    ExplainsResult list \<times> 's" where
  "NewExplainResult_tick unmarshal sha1 conn a w =
     explain_tick unmarshal sha1 conn (str_field a ''Redisquename'') (nat (int_field a ''ExplainDBNumber'')) w"

definition json_angles :: "string \<Rightarrow> string" where
  "json_angles s =
     Replace (Replace (Replace (Replace (Replace s ''u003c'' ''<'') ''u003e'' ''>'') ''&lt'' ''<'') ''&gt'' ''>'') ''u0026'' ''&''"

definition escape_quotes :: "string \<Rightarrow> string" where
  "escape_quotes s = Replace s quote1 [CHR 0x5C, CHR 0x27]"

text \<open>The statement that \<open>NewExplainDb\<close> runs for a result; \<open>marshal\<close> is \<open>json.Marshal\<close>, and the two texts of the time are
  arguments.\<close>

definition insert_text :: "ExplainsResult \<Rightarrow> string \<Rightarrow> string \<Rightarrow> string \<Rightarrow> int \<Rightarrow> string \<Rightarrow> string \<Rightarrow> string" where
  "insert_text d expl sqlInfoData explainInfoData flag day now =
     (let q = (\<lambda>s. quote1 @ s @ quote1); c = (\<lambda>s. s @ '','') in
      ''INSERT INTO sqlexplain(`expl`,`route`,`sql_info`,`explain`,`last_query_cost`,`level`,`score`,`content`,`branch`,`db`,`flag`,`daytime`,`create_datetime`) VALUES('' @
      c (q expl) @ c (q (er_Route d)) @ c (q sqlInfoData) @ c (q explainInfoData) @ c (er_Last_query_cost d) @
      c (q (er_Level d)) @ c (Itoa (er_Score d)) @ c (q (er_Content d)) @ c (q (er_Branch d)) @ c (q (er_Db d)) @
      c (Itoa flag) @ c (q day) @ q now @ '')'')"

definition NewExplainDb_step :: "(SqlInfo list \<Rightarrow> string) \<Rightarrow> (Explains list \<Rightarrow> string) \<Rightarrow> (string \<Rightarrow> string) \<Rightarrow> (string \<Rightarrow> string) \<Rightarrow>
    's conn_do \<Rightarrow> string \<Rightarrow> string \<Rightarrow> ExplainsResult \<Rightarrow> 's \<Rightarrow> string \<times> 's" where
  "NewExplainDb_step marshal marshal_ex md5 sha1 conn day now d w =
     (let sqlInfoData = escape_quotes (json_angles (marshal (er_Arr d)));
          explainInfoData = escape_quotes (json_angles (marshal_ex (er_Explain d)));
          expl = Replace (Replace (Replace (Replace (Replace (er_Expl d) ''u003c'' ''<'') ''u003e'' ''>'') ''u0026'' ''&'')
            ''&lt'' ''<'') ''&gt'' ''>''
      in case UniquePush sha1 conn (''julive:'' @ er_Branch d) (md5 expl) w of ((res, _), w) \<Rightarrow>
           (insert_text d expl sqlInfoData explainInfoData (if res = 1 then 1 else 0) day now, w))"

text \<open>The two goroutines of \<open>handler\<close>: the body is pushed as it is, and its first statement becomes a message of Kafka.\<close>

definition handler_push :: "(string \<Rightarrow> string) \<Rightarrow> 's conn_do \<Rightarrow> AppConfig \<Rightarrow> string \<Rightarrow> string \<Rightarrow> 's \<Rightarrow> 's" where
  "handler_push sha1 conn a verb body w =
     (if verb = ''POST'' then snd (ListPush sha1 conn (str_field a ''Redisquename'') body w) else w)"

definition handler_message :: "(string \<Rightarrow> ExplainsResult \<times> 'e option) \<Rightarrow> (string \<times> SqlInfo \<times> string \<times> string \<times> string \<Rightarrow> string) \<Rightarrow>
    string \<Rightarrow> string result" where
  "handler_message unmarshal marshal body =
     (case JsonSqlExpDecode unmarshal body of (kafkaData, err) \<Rightarrow>
        bindR (get_at (er_Arr kafkaData) 0) (\<lambda>arr.
          Inr (json_angles (marshal (er_Expl kafkaData, arr, er_Branch kafkaData, er_Db kafkaData, er_Route kafkaData)))))"

subsection \<open>What the filter does\<close>

lemma has_prefix_length: "has_prefix p s \<Longrightarrow> length p \<le> length s"
  by (induction p s rule: has_prefix.induct) auto

lemma index_of_found: "index_of s sub = Some i \<Longrightarrow> i + length sub \<le> length s \<and> has_prefix sub (drop i s)"
proof (induction s arbitrary: i)
  case (Cons c s)
  then show ?case by (auto split: if_splits dest: has_prefix_length)
qed (auto split: if_splits)

lemma index_of_after:
  assumes "index_of s [c] = Some i" "has_prefix p s" "c \<notin> set p"
  shows "length p \<le> i"
  using assms
proof (induction p s arbitrary: i rule: has_prefix.induct)
  case (3 p ps c' s)
  then show ?case by (auto split: if_splits)
qed auto

text \<open>The slices that look for the name of the database stay within the text.\<close>

lemma dbname_total: "\<exists>x. dbname dsn = Inr x"
proof (cases "index_of dsn ''dbname=''")
  case (Some i)
  note f = index_of_found [OF Some]
  have s: "slice dsn (int i) (int (length dsn)) = Inr (drop i dsn)" using f by (simp add: slice_def)
  show ?thesis
  proof (cases "index_of (drop i dsn) '']''")
    case (Some j)
    have "7 \<le> j" using index_of_after [OF Some, of "''dbname=''"] f by simp
    moreover have "i + j < length dsn" using index_of_found [OF Some] by (simp add: less_diff_conv Suc_le_eq add.commute)
    ultimately have "\<exists>x. slice dsn (int i + 7) (int i + int j) = Inr x" by (simp add: slice_def)
    then show ?thesis using \<open>index_of dsn _ = Some i\<close> Some s by (simp add: dbname_def Index_def Let_def)
  qed (use Some s in \<open>simp add: dbname_def Index_def Let_def\<close>)
qed (simp add: dbname_def Index_def Let_def)

text \<open>\<open>execCommand\<close> reads the name in another order, and stops where there is none.\<close>

lemma dbname_exec_panic: "dbname_exec ''[host=db1]'' = Inl SlicePanic"
  by code_simp

lemma Replace_not_Nil: "s \<noteq> [] \<Longrightarrow> new \<noteq> [] \<Longrightarrow> Replace s old new \<noteq> []"
  by (cases s) auto

lemma line_text_not_Nil: "line \<noteq> [] \<Longrightarrow> line_text line \<noteq> []"
  by (simp add: line_text_def replace_found_def Replace_not_Nil)

definition hex_text :: "string \<Rightarrow> bool" where
  "hex_text s \<longleftrightarrow> (\<forall>c \<in> set s. c \<in> set ''0123456789abcdef'')"

lemma hex_no_queue:
  assumes "hex_text k" "CHR ''j'' \<in> set s"
  shows "k \<noteq> s"
proof
  assume "k = s"
  with assms(2) have "CHR ''j'' \<in> set k" by simp
  with assms(1) have "CHR ''j'' \<in> set ''0123456789abcdef''" unfolding hex_text_def by (rule bspec)
  then show False by simp
qed

definition the_db :: "string \<Rightarrow> string" where
  "the_db dsn = (case dbname dsn of Inr x \<Rightarrow> x | Inl _ \<Rightarrow> [])"

lemma dbname_the: "dbname dsn = Inr (the_db dsn)"
  using dbname_total [of dsn] by (auto simp: the_db_def)

context redis_server
begin

lemma import_run:
  assumes m: "\<forall>s. hex_text (md5 s)" and l: "line \<noteq> []"
    and q: "queue_is (val (db w)) (''julive_'' @ si_Branch sql) xs" and v: "str_at (val (db w)) (md5 (line_text line)) = Some v"
  defines "new \<equiv> line_text line \<notin> set xs"
  defines "v' \<equiv> if new then Some ''1'' else v"
  shows "\<exists>w'. importToRedis md5 sha1 conn line sql w =
      (Inr (True, if v' = None \<or> v' = Some [] then None else Some (sample (line_text line) sql (the_db (si_Dsn sql)))), w') \<and>
    queue_is (val (db w')) (''julive_'' @ si_Branch sql) (if new then xs @ [line_text line] else xs) \<and>
    str_at (val (db w')) (md5 (line_text line)) = Some v'"
proof -
  let ?q = "''julive_'' @ si_Branch sql" and ?l = "line_text line" and ?r = "the_db (si_Dsn sql)"
  define k where "k = md5 ?l"
  define ys where "ys = (if new then xs @ [?l] else xs)"
  have k: "k \<noteq> ?q" "k \<noteq> ?q @ ''_set''" unfolding k_def by (rule hex_no_queue [OF m [rule_format]], simp)+
  obtain w1 where push: "UniquePush sha1 conn ?q ?l w = ((if ?l \<in> set xs then 0 else 1, None), w1)"
    and q1: "queue_is (val (db w1)) ?q (if ?l \<in> set xs then xs else xs @ [?l])"
    and f1: "\<forall>k. k \<noteq> ?q \<and> k \<noteq> ?q @ ''_set'' \<longrightarrow> val (db w1) k = val (db w) k"
    using UniquePush_frame [OF q, of ?l] by (elim exE conjE) (rule that)
  have ys: "queue_is (val (db w1)) ?q ys" using q1 unfolding ys_def new_def by (simp split: if_splits)
  have v1: "str_at (val (db w1)) k = Some v" using v f1 k unfolding str_at_def k_def by metis
  define w2 where "w2 = (if new then snd (SetKey sha1 conn k ''1'' w1) else w1)"
  obtain w1' where set: "snd (SetKey sha1 conn k ''1'' w1) = w1'" "val (db w1') = (val (db w1))(k \<mapsto> VStr ''1'')"
    using SetKey_run [of k "''1''" w1] by (metis snd_conv)
  have q2: "queue_is (val (db w2)) ?q ys" using ys set k unfolding w2_def by (simp add: queue_is_def)
  have v2: "str_at (val (db w2)) k = Some v'" using v1 set unfolding w2_def v'_def by (simp add: str_at_def)
  obtain w3 where get: "GetKey sha1 conn k w2 = ((case v' of None \<Rightarrow> [] | Some s \<Rightarrow> s, None), w3)" and d3: "val (db w3) = val (db w2)"
    using GetKey_run [OF v2] by blast
  have r: "(if ?l \<in> set xs then 0 else 1::int) = 1 \<longleftrightarrow> new" unfolding new_def by simp
  have "importToRedis md5 sha1 conn line sql w =
      (Inr (True, if v' = None \<or> v' = Some [] then None else Some (sample ?l sql ?r)), w3)"
    unfolding importToRedis_def Let_def push k_def [symmetric] using l
    by (cases v') (simp_all add: r w2_def [symmetric] get dbname_the)
  then show ?thesis using q2 v2 d3 unfolding ys_def k_def by (intro exI [of _ w3]) simp
qed

end

text \<open>C22. \<open>importToRedis\<close>, for a line that is not empty and a server that keeps its promises: the line enters the queue of
  its branch if it is not there yet; a sample with the database of the statement goes to the sampler exactly if the line is new or
  its key still holds a text; and the key is set for a new line only.\<close>

theorem import_samples:
  assumes "redis_server sha1 conn srv db val" "\<forall>s. hex_text (md5 s)" "line \<noteq> []"
    "queue_is (val (db w)) (''julive_'' @ si_Branch sql) xs" "str_at (val (db w)) (md5 (line_text line)) = Some v"
  shows "\<exists>w'. importToRedis md5 sha1 conn line sql w =
      (Inr (True, if line_text line \<notin> set xs \<or> v \<noteq> None \<and> v \<noteq> Some []
         then Some (sample (line_text line) sql (the_db (si_Dsn sql))) else None), w') \<and>
    queue_is (val (db w')) (''julive_'' @ si_Branch sql) (if line_text line \<in> set xs then xs else xs @ [line_text line]) \<and>
    str_at (val (db w')) (md5 (line_text line)) = Some (if line_text line \<in> set xs then v else Some ''1'')"
  using redis_server.import_run [OF assms] by (cases "line_text line \<in> set xs") auto

definition ex_sql :: SqlInfo where
  "ex_sql = \<lparr>si_Info = ''select 1'', si_Trace = [], si_Route = ''/r'', si_Branch = ''m'', si_Dsn = ''[dbname=shop]''\<rparr>"

theorem import_samples_witness:
  "\<exists>w'. importToRedis (\<lambda>s. ''ab'') (\<lambda>s. s) mem_conn ''select ?'' ex_sql Map.empty =
     (Inr (True, Some (sample ''select ?'' ex_sql ''shop'')), w')"
proof -
  have l: "line_text ''select ?'' = ''select ?''" "the_db (si_Dsn ex_sql) = ''shop''" by code_simp+
  have "queue_is Map.empty (''julive_'' @ si_Branch ex_sql) []" "str_at Map.empty ''ab'' = Some None" "hex_text ''ab''"
    by (simp_all add: queue_is_def str_at_def hex_text_def)
  then show ?thesis
    using import_samples [of "\<lambda>s. s" mem_conn mem_srv "\<lambda>m. m" "\<lambda>m. m" "\<lambda>s. ''ab''" "''select ?''" Map.empty ex_sql "[]" None]
      mem.redis_server_axioms l by auto
qed

text \<open>One round of sampling: a statement is imported, and again with the same fingerprint; the sampler deletes the key; the
  statement is imported a third time.\<close>

definition sampling_round :: "(string \<Rightarrow> string) \<Rightarrow> (string \<Rightarrow> string) \<Rightarrow> 's conn_do \<Rightarrow> string \<Rightarrow> SqlInfo \<Rightarrow> SqlInfo \<Rightarrow> SqlInfo \<Rightarrow> 's \<Rightarrow>
    (bool \<times> ExplainsResult option) result list \<times> 's" where
  "sampling_round md5 sha1 conn line s1 s2 s3 w =
     (case importToRedis md5 sha1 conn line s1 w of (r1, w) \<Rightarrow>
      case importToRedis md5 sha1 conn line s2 w of (r2, w) \<Rightarrow>
      case DelKey sha1 conn (md5 (line_text line)) w of (_, w) \<Rightarrow>
      case importToRedis md5 sha1 conn line s3 w of (r3, w) \<Rightarrow> ([r1, r2, r3], w))"



subsection \<open>What the workers do\<close>

lemma sendData_mono:
  "sendData unmarshal sha1 conn b fuel w = Some r \<Longrightarrow> fuel \<le> fuel' \<Longrightarrow> sendData unmarshal sha1 conn b fuel' w = Some r"
proof (induction fuel arbitrary: w r fuel')
  case (Suc fuel)
  then obtain n where n: "fuel' = Suc n" "fuel \<le> n" by (cases fuel') auto
  obtain data err w1 where pop: "ListPop sha1 conn b w = ((data, err), w1)" by (metis surj_pair)
  show ?case
  proof (cases "data = []")
    case False
    obtain p where p: "sendData unmarshal sha1 conn b fuel w1 = Some p"
      using Suc.prems(1) False by (auto simp: pop split: prod.splits)
    show ?thesis using Suc.prems(1) False Suc.IH [OF p n(2)] by (simp add: n(1) pop p split: prod.splits)
  qed (use Suc.prems(1) in \<open>simp add: n(1) pop\<close>)
qed simp

context redis_server
begin

lemma sendData_run:
  assumes "list_at (val (db w)) b = Some (xs @ rest)" "[] \<notin> set xs" "rest = [] \<or> hd rest = []" "length xs < fuel"
  shows "\<exists>w'. sendData unmarshal sha1 conn b fuel w = Some (map (\<lambda>x. fst (JsonDecode unmarshal x)) xs, w') \<and>
    list_at (val (db w')) b = Some (tl rest)"
  using assms
proof (induction xs arbitrary: w fuel)
  case Nil
  then obtain n where n: "fuel = Suc n" by (cases fuel) auto
  show ?case using ListPop_run [of w b rest] Nil n by (cases rest) auto
next
  case (Cons x xs)
  then obtain n where n: "fuel = Suc n" "length xs < n" by (cases fuel) auto
  obtain w1 where w1: "ListPop sha1 conn b w = ((x, None), w1)" "val (db w1) = put_list b (xs @ rest) (val (db w))"
    using ListPop_run [of w b "x # xs @ rest"] Cons.prems(1,2) by auto
  with Cons.IH [of w1 n] Cons.prems n show ?case by (auto split: prod.splits)
qed

lemma ListCount_run:
  assumes "list_at (val (db w)) q = Some xs" "int64_ok (int (length xs))"
  shows "\<exists>w'. ListCount sha1 conn q w = ((int (length xs), None), w') \<and> val (db w') = val (db w)"
proof -
  obtain d where d: "redis_call srv [LStr ''LLEN'', LStr q] (db w) = (Inr (LNum (int (length xs))), d)" "val d = val (db w)"
    using call_spec [of "[''LLEN'', q]" "db w"] assms(1) by (auto simp: redis_call_def)
  then have "lua_list_count srv q (map (arg_text True) []) (db w) = (Inr (LNum (int (length xs))), d)" by (simp add: lua_list_count_def)
  from int_script_run [OF lua_of_scripts(5) this assms(2)] d(2) show ?thesis by (auto simp: ListCount_def)
qed

lemma count_branches_run:
  assumes "\<forall>v \<in> set vs. list_at (val (db w)) v = Some (L v) \<and> int64_ok (int (length (L v)))"
  shows "\<exists>w'. count_branches sha1 conn vs w = (filter (\<lambda>v. L v \<noteq> []) vs, w') \<and> val (db w') = val (db w)"
  using assms
proof (induction vs arbitrary: w)
  case (Cons v vs)
  obtain w1 where w1: "ListCount sha1 conn v w = ((int (length (L v)), None), w1)" "val (db w1) = val (db w)"
    using ListCount_run [of w v "L v"] Cons.prems by auto
  obtain w2 where w2: "count_branches sha1 conn vs w1 = (filter (\<lambda>v. L v \<noteq> []) vs, w2)" "val (db w2) = val (db w1)"
    using Cons.IH [of w1] Cons.prems w1(2) by auto
  show ?case by (simp add: w1 w2)
qed simp

end

text \<open>C25. \<open>sendData\<close> ends, and hands the statements of its list to \<open>ExcuteUnique\<close> in the order in which they were pushed, up to the
  first empty element, which it takes out of the list too.\<close>

theorem sendData_drains:
  assumes "redis_server sha1 conn srv db val" "list_at (val (db w)) b = Some (xs @ rest)" "[] \<notin> set xs" "rest = [] \<or> hd rest = []"
  shows "\<exists>n w'. (\<forall>fuel > n. sendData unmarshal sha1 conn b fuel w = Some (map (\<lambda>x. fst (JsonDecode unmarshal x)) xs, w')) \<and>
    list_at (val (db w')) b = Some (tl rest)"
proof -
  obtain w' where w': "sendData unmarshal sha1 conn b (Suc (length xs)) w = Some (map (\<lambda>x. fst (JsonDecode unmarshal x)) xs, w')"
    "list_at (val (db w')) b = Some (tl rest)" using redis_server.sendData_run [OF assms lessI] by blast
  then show ?thesis using sendData_mono [OF w'(1)] by (meson Suc_leI)
qed

definition ex_list :: "string \<rightharpoonup> rvalue" where
  "ex_list = [''SQL_0'' \<mapsto> VList [''a'', ''b'', [], ''c'']]"

theorem sendData_drains_witness:
  "\<exists>n w'. (\<forall>fuel > n. sendData (\<lambda>x. (ex_sql\<lparr>si_Info := x\<rparr>, None :: string option)) (\<lambda>s. s) mem_conn ''SQL_0'' fuel ex_list =
      Some ([ex_sql\<lparr>si_Info := ''a''\<rparr>, ex_sql\<lparr>si_Info := ''b''\<rparr>], w')) \<and>
    list_at w' ''SQL_0'' = Some [''c'']"
proof -
  have "json_clean ''a'' = ''a''" "json_clean ''b'' = ''b''" by code_simp+
  moreover have "list_at ex_list ''SQL_0'' = Some ([''a'', ''b''] @ [[], ''c''])" by (simp add: ex_list_def list_at_def)
  ultimately show ?thesis
    using sendData_drains [of "\<lambda>s. s" mem_conn mem_srv "\<lambda>m. m" "\<lambda>m. m" ex_list "''SQL_0''" "[''a'', ''b'']" "[[], ''c'']"
      "\<lambda>x. (ex_sql\<lparr>si_Info := x\<rparr>, None :: string option)"] mem.redis_server_axioms
    by (simp add: JsonDecode_def)
qed

text \<open>C26. \<open>checkBranch\<close> starts a worker for exactly the branches whose list is not empty, in their order, and leaves every key as it is.\<close>

theorem checkBranch_starts:
  assumes "redis_server sha1 conn srv db val" "0 \<le> n" "n * 16 \<le> 2 ^ 48"
    "\<forall>i < nat n. list_at (val (db w)) (''SQL_'' @ Itoa (int i)) = Some (L (''SQL_'' @ Itoa (int i))) \<and>
      int64_ok (int (length (L (''SQL_'' @ Itoa (int i)))))"
  shows "\<exists>w'. checkBranch sha1 conn n w = Inr (filter (\<lambda>v. L v \<noteq> []) (map (\<lambda>i. ''SQL_'' @ Itoa (int i)) [0..<nat n]), w') \<and>
    val (db w') = val (db w)"
proof -
  let ?vs = "map (\<lambda>i. ''SQL_'' @ Itoa (int i)) [0..<nat n]"
  have "dispatch ''single'' n = Inr ([], ?vs)" using assms(2,3) by (simp add: dispatch_def make_slice_def)
  moreover have "\<forall>v \<in> set ?vs. list_at (val (db w)) v = Some (L v) \<and> int64_ok (int (length (L v)))" using assms(4) by auto
  ultimately show ?thesis using redis_server.count_branches_run [OF assms(1), of ?vs w L] by (auto simp: checkBranch_def)
qed

theorem checkBranch_starts_witness:
  "\<exists>w'. checkBranch (\<lambda>s. s) mem_conn 2 ex_list = Inr ([''SQL_0''], w') \<and> w' = ex_list"
proof -
  have n: "Itoa 0 = ''0''" "Itoa 1 = ''1''" by code_simp+
  have "[0..<nat 2] = [0, 1]" by (simp add: upt_rec)
  moreover have "\<forall>i < nat 2. list_at ex_list (''SQL_'' @ Itoa (int i)) = Some ((\<lambda>v. if v = ''SQL_0'' then [''a'', ''b'', [], ''c''] else []) (''SQL_'' @ Itoa (int i))) \<and>
      int64_ok (int (length ((\<lambda>v. if v = ''SQL_0'' then [''a'', ''b'', [], ''c''] else []) (''SQL_'' @ Itoa (int i)))))"
    by (auto simp: less_2_cases_iff n ex_list_def list_at_def int64_ok_def)
  ultimately show ?thesis
    using checkBranch_starts [of "\<lambda>s. s" mem_conn mem_srv "\<lambda>m. m" "\<lambda>m. m" 2 ex_list "\<lambda>v. if v = ''SQL_0'' then [''a'', ''b'', [], ''c''] else []"]
      mem.redis_server_axioms n by simp
qed

subsection \<open>What the sampler does\<close>

fun sampler_run :: "(string \<Rightarrow> string) \<Rightarrow> int \<Rightarrow> ExplainsResult list \<Rightarrow> (string \<rightharpoonup> ExplainsResult) \<Rightarrow>
    (ExplainsResult list \<times> (string \<rightharpoonup> ExplainsResult)) result" where
  "sampler_run md5 sampling [] groups = Inr ([], groups)"
| "sampler_run md5 sampling (d # ds) groups =
     bindR (sampler_step md5 sampling d groups) (\<lambda>(out, groups).
       bindR (sampler_run md5 sampling ds groups) (\<lambda>(outs, groups).
         Inr (case out of None \<Rightarrow> outs | Some g \<Rightarrow> g # outs, groups)))"

definition group_ok :: "(string \<Rightarrow> string) \<Rightarrow> int \<Rightarrow> ExplainsResult set \<Rightarrow> ExplainsResult \<Rightarrow> bool" where
  "group_ok md5 sampling E g \<longleftrightarrow>
     er_Arr g \<noteq> [] \<and> distinct (map si_Info (er_Arr g)) \<and> int (length (er_Arr g)) \<le> max 1 sampling \<and>
     (\<forall>s \<in> set (er_Arr g). \<exists>e \<in> E. s \<in> set (er_Arr e) \<and> md5 (er_Expl e) = md5 (er_Expl g))"

definition groups_ok :: "(string \<Rightarrow> string) \<Rightarrow> int \<Rightarrow> ExplainsResult set \<Rightarrow> (string \<rightharpoonup> ExplainsResult) \<Rightarrow> bool" where
  "groups_ok md5 sampling E m \<longleftrightarrow> (\<forall>k g. m k = Some g \<longrightarrow> md5 (er_Expl g) = k \<and> group_ok md5 sampling E g)"

lemma sampler_step_ok:
  assumes ok: "groups_ok md5 n E m" and d: "d \<in> E" "length (er_Arr d) = 1"
  shows "\<exists>out m'. sampler_step md5 n d m = Inr (out, m') \<and> groups_ok md5 n E m' \<and>
    (\<forall>g. out = Some g \<longrightarrow> group_ok md5 n E g \<and> int (length (er_Arr g)) = max 1 n)"
proof -
  obtain s where s: "er_Arr d = [s]" using d(2) by (cases "er_Arr d") auto
  then have first: "get_at (er_Arr d) 0 = Inr s" by (simp add: get_at_def)
  let ?k = "md5 (er_Expl d)"
  have seen: "\<exists>e \<in> E. s \<in> set (er_Arr e) \<and> md5 (er_Expl e) = ?k" by (rule bexI [OF _ d(1)]) (simp add: s)
  show ?thesis
  proof (cases "m ?k")
    case None
    have "group_ok md5 n E d" using seen by (simp add: group_ok_def s)
    then show ?thesis using None ok by (auto simp: sampler_step_def groups_ok_def)
  next
    case (Some g)
    then have g: "md5 (er_Expl g) = ?k" "group_ok md5 n E g" using ok by (auto simp: groups_ok_def)
    show ?thesis
    proof (cases "int (length (er_Arr g)) < n")
      case less: True
      show ?thesis
      proof (cases "si_Info s \<in> set (map si_Info (er_Arr g))")
        case True
        then show ?thesis using Some ok less first by (simp add: sampler_step_def)
      next
        case False
        have "group_ok md5 n E (g\<lparr>er_Arr := er_Arr g @ [s]\<rparr>)" using g False less seen unfolding group_ok_def by auto
        then show ?thesis using Some ok less first False g(1) by (simp add: sampler_step_def groups_ok_def)
      qed
    next
      case False
      have "1 \<le> length (er_Arr g)" using g(2) by (simp add: group_ok_def Suc_le_eq)
      then have "int (length (er_Arr g)) = max 1 n" using False g(2) by (auto simp: group_ok_def max_def split: if_splits)
      then show ?thesis using Some ok False g(2) by (auto simp: sampler_step_def groups_ok_def)
    qed
  qed
qed

lemma sampler_run_ok:
  assumes "groups_ok md5 n E m" "set ds \<subseteq> E" "\<forall>d \<in> set ds. length (er_Arr d) = 1"
  shows "\<exists>outs m'. sampler_run md5 n ds m = Inr (outs, m') \<and> groups_ok md5 n E m' \<and>
    (\<forall>g \<in> set outs. group_ok md5 n E g \<and> int (length (er_Arr g)) = max 1 n)"
  using assms
proof (induction ds arbitrary: m)
  case (Cons d ds)
  obtain out m1 where step: "sampler_step md5 n d m = Inr (out, m1)" "groups_ok md5 n E m1"
    "\<forall>g. out = Some g \<longrightarrow> group_ok md5 n E g \<and> int (length (er_Arr g)) = max 1 n"
    using sampler_step_ok [of md5 n E m d] Cons.prems by auto
  obtain outs m2 where run: "sampler_run md5 n ds m1 = Inr (outs, m2)" "groups_ok md5 n E m2"
    "\<forall>g \<in> set outs. group_ok md5 n E g \<and> int (length (er_Arr g)) = max 1 n"
    using Cons.IH [OF step(2)] Cons.prems by auto
  show ?case using step(3) run(2,3) by (cases out) (simp_all add: step(1) run(1))
qed simp

text \<open>C24. The sampler never stops on the samples of \<open>importToRedis\<close>, and each group it posts is complete: as many statements as
  configured, at least one, with distinct texts, each of them received under the fingerprint of the group. The groups it still
  collects keep the same invariant.\<close>

theorem sampler_groups:
  assumes "\<forall>d \<in> set ds. length (er_Arr d) = 1"
  shows "\<exists>outs m. sampler_run md5 n ds Map.empty = Inr (outs, m) \<and> groups_ok md5 n (set ds) m \<and>
    (\<forall>g \<in> set outs. group_ok md5 n (set ds) g \<and> int (length (er_Arr g)) = max 1 n)"
  using sampler_run_ok [of md5 n "set ds" Map.empty ds] assms by (simp add: groups_ok_def)

theorem sampler_groups_witness:
  "\<exists>outs m. sampler_run (\<lambda>s. s) 2 [sample ''l'' ex_sql [], sample ''l'' (ex_sql\<lparr>si_Info := ''x''\<rparr>) [], sample ''l'' ex_sql []] Map.empty = Inr (outs, m) \<and>
     map er_Arr outs = [[ex_sql, ex_sql\<lparr>si_Info := ''x''\<rparr>]] \<and> (\<forall>g \<in> set outs. int (length (er_Arr g)) = max 1 2)"
  using sampler_groups [of "[sample ''l'' ex_sql [], sample ''l'' (ex_sql\<lparr>si_Info := ''x''\<rparr>) [], sample ''l'' ex_sql []]" "\<lambda>s. s" 2]
  by (simp add: sample_def sampler_step_def get_at_def ex_sql_def Let_def)

text \<open>The statement that completes a round is itself in no group.\<close>

lemma sampler_drops:
  "sampler_run (\<lambda>s. s) 1 [sample ''l'' ex_sql [], sample ''l'' (ex_sql\<lparr>si_Info := ''x''\<rparr>) []] Map.empty =
     Inr ([sample ''l'' ex_sql []], Map.empty)"
  by (simp add: sample_def sampler_step_def ex_sql_def Let_def)

text \<open>A statement whose fingerprint stops the program, or is empty and gets lost.\<close>

lemma ExcuteUnique_panic: "ExcuteUnique (\<lambda>r. r) False (ex_sql\<lparr>si_Info := ''b in(1) or c in(2)''\<rparr>) = Inl SlicePanic"
  by code_simp

lemma ExcuteUnique_lost:
  "map_sum id (map_option fst) (ExcuteUnique (\<lambda>r. r) False (ex_sql\<lparr>si_Info := ''select a from t where b in(1)''\<rparr>)) = Inr (Some [])"
  by code_simp

text \<open>A body without a statement stops the server: the index is not checked.\<close>

lemma handler_message_panic: "er_Arr (fst (unmarshal (json_clean body))) = [] \<Longrightarrow> handler_message unmarshal marshal body = Inl IndexPanic"
  by (auto simp: handler_message_def JsonSqlExpDecode_def get_at_def split: prod.splits)

end
