(* ===== verification/Mysql_Text.thy ===== *)
theory Mysql_Text
  imports Go_Prelude
begin

section \<open>Texts and numbers of the MySQL driver\<close>

text \<open>
  mysql/utils.go and \<open>interpolateParams\<close> of mysql/connection.go: numbers and strings with an encoded length, decimal
  numbers, the texts of binary dates and times, the escaping of strings and the replacement of placeholders. A byte slice that
  is grown holds whatever its array held before; those bytes are the argument \<open>junk\<close>. The capacity of any other slice is taken
  to be its length.
\<close>

subsection \<open>Encoded lengths\<close>

text \<open>\<open>uint64ToBytes\<close> writes eight bytes, the lowest first; \<open>unle\<close> is the value of such bytes.\<close>

fun le :: "nat \<Rightarrow> int \<Rightarrow> string" where
  "le 0 n = []"
| "le (Suc k) n = byte (n mod 256) # le k (n div 256)"

fun unle :: "string \<Rightarrow> int" where
  "unle [] = 0"
| "unle (c # s) = rn c + 256 * unle s"

definition uint64ToBytes :: "int \<Rightarrow> string" where
  "uint64ToBytes n = le 8 n"

definition following :: "string \<Rightarrow> nat \<Rightarrow> int result" where
  "following b k = (if k < length b then Inr (unle (take k (drop 1 b))) else Inl IndexPanic)"

definition readLengthEncodedInteger :: "string \<Rightarrow> (int \<times> bool \<times> int) result" where
  "readLengthEncodedInteger b =
     (case b of
        [] \<Rightarrow> Inr (0, True, 1)
      | c # _ \<Rightarrow>
          if c = CHR 0xFB then Inr (0, True, 1)
          else if c = CHR 0xFC then bindR (following b 2) (\<lambda>n. Inr (n, False, 3))
          else if c = CHR 0xFD then bindR (following b 3) (\<lambda>n. Inr (n, False, 4))
          else if c = CHR 0xFE then bindR (following b 8) (\<lambda>n. Inr (n, False, 9))
          else Inr (rn c, False, 1))"

definition appendLengthEncodedInteger :: "string \<Rightarrow> int \<Rightarrow> string" where
  "appendLengthEncodedInteger b n =
     (if n \<le> 250 then b @ [byte n]
      else if n \<le> 65535 then b @ CHR 0xFC # le 2 n
      else if n \<le> 16777215 then b @ CHR 0xFD # le 3 n
      else b @ CHR 0xFE # le 8 n)"

text \<open>The bytes (\<open>None\<close> for the nil slice), whether they are NULL, the position behind them and whether the input ended. The number
  becomes a signed integer before it is added.\<close>

definition readLengthEncodedString :: "string \<Rightarrow> (string option \<times> bool \<times> int \<times> bool) result" where
  "readLengthEncodedString b =
     bindR (readLengthEncodedInteger b) (\<lambda>(num, isNull, n).
       if num < 1 then bindR (slice b n n) (\<lambda>s. Inr (Some s, isNull, n, False))
       else
         let m = wrap64 num; n = wrap64 (n + m) in
         if n \<le> int (length b) then bindR (slice b (wrap64 (n - m)) n) (\<lambda>s. Inr (Some s, False, n, False))
         else Inr (None, False, n, True))"

definition skipLengthEncodedString :: "string \<Rightarrow> (int \<times> bool) result" where
  "skipLengthEncodedString b =
     bindR (readLengthEncodedInteger b) (\<lambda>(num, _, n).
       if num < 1 then Inr (n, False)
       else let n = wrap64 (n + wrap64 num) in if n \<le> int (length b) then Inr (n, False) else Inr (n, True))"

subsection \<open>Decimal numbers\<close>

text \<open>\<open>uint64ToString\<close> fills an array of 20 bytes from its end.\<close>

function uint64_loop :: "int \<Rightarrow> string \<Rightarrow> int \<Rightarrow> (string \<times> int \<times> int) result" where
  "uint64_loop n a i =
     (if 10 \<le> n then bindR (set_at a (i - 1) (byte (n - n div 10 * 10 + 48))) (\<lambda>a. uint64_loop (n div 10) a (i - 1))
      else Inr (a, i, n))"
  by pat_completeness auto
termination
  by (relation "measure (\<lambda>(n, a, i). nat n)") auto

declare uint64_loop.simps [simp del]

definition uint64ToString :: "int \<Rightarrow> string result" where
  "uint64ToString n =
     bindR (uint64_loop n (replicate 20 (CHR 0x00)) 20) (\<lambda>(a, i, n).
     bindR (set_at a (i - 1) (byte (n + 48))) (\<lambda>a. slice a (i - 1) (int (length a))))"

definition stringToInt :: "string \<Rightarrow> int" where
  "stringToInt b = foldl (\<lambda>val c. wrap64 (wrap64 (val * 10) + (rn c - 48) mod 256)) 0 b"

subsection \<open>Dates and times\<close>

definition two :: "int \<Rightarrow> string result" where
  "two p = (if 0 \<le> p \<and> p < 100 then Inr [byte (48 + p div 10), byte (48 + p mod 10)] else Inl IndexPanic)"

fun pairs :: "int list \<Rightarrow> string \<Rightarrow> string result" where
  "pairs [] sep = Inr []"
| "pairs [p] sep = two p"
| "pairs (p # ps) sep = bindR (two p) (\<lambda>a. bindR (pairs ps sep) (\<lambda>b. Inr (a @ sep @ b)))"

text \<open>Only the digits that are written are looked up.\<close>

definition appendMicrosecs :: "string \<Rightarrow> string \<Rightarrow> int \<Rightarrow> string result" where
  "appendMicrosecs dst src decimals =
     (if decimals \<le> 0 then Inr dst
      else if src = [] then bindR (slice ''.000000'' 0 (decimals + 1)) (\<lambda>z. Inr (dst @ z))
      else if length src < 4 then Inl SlicePanic
      else
        let micro = unle (take 4 src);
            p1 = (micro div 10000) mod 256; micro = (micro - 10000 * p1) mod 2 ^ 32;
            p2 = (micro div 100) mod 256; micro = (micro - 100 * p2) mod 2 ^ 32;
            p3 = micro mod 256;
            n = (if 1 \<le> decimals \<and> decimals \<le> 5 then nat decimals else 6);
            ps = take ((n + 1) div 2) [p1, p2, p3]
        in bindR (pairs ps []) (\<lambda>ds. Inr (dst @ ''.'' @ take n ds)))"

datatype date_error = IllegalLength | IllegalPacketLength

definition zeroDateTime :: string where
  "zeroDateTime = ''0000-00-00 00:00:00.000000''"

definition formatBinaryDateTime :: "string \<Rightarrow> int \<Rightarrow> (date_error + string) result" where
  "formatBinaryDateTime src len =
     (if src = [] then bindR (slice zeroDateTime 0 len) (\<lambda>z. Inr (Inr z))
      else if len \<notin> {10, 19, 21, 22, 23, 24, 25, 26} then Inr (Inl IllegalLength)
      else if length src \<notin> {4, 7, 11} then Inr (Inl IllegalPacketLength)
      else
        let year = unle (take 2 src); pt = year div 100; p1 = (year - 100 * pt) mod 256 in
        bindR (pairs [pt, p1] []) (\<lambda>y. bindR (pairs [rn (src ! 2), rn (src ! 3)] ''-'') (\<lambda>md.
          let dst = y @ ''-'' @ md in
          if len = 10 then Inr (Inr dst)
          else if length src = 4 then bindR (slice zeroDateTime 10 len) (\<lambda>z. Inr (Inr (dst @ z)))
          else bindR (pairs [rn (src ! 4), rn (src ! 5), rn (src ! 6)] '':'') (\<lambda>hms.
            bindR (appendMicrosecs (dst @ '' '' @ hms) (drop 7 src) (len - 20)) (\<lambda>r. Inr (Inr r))))))"

definition formatBinaryTime :: "string \<Rightarrow> int \<Rightarrow> (date_error + string) result" where
  "formatBinaryTime src len =
     (if src = [] then bindR (slice zeroDateTime 11 ((11 + len) mod 256)) (\<lambda>z. Inr (Inr z))
      else if len \<notin> {8, 10, 11, 12, 13, 14, 15} then Inr (Inl IllegalLength)
      else if length src \<notin> {8, 12} then Inr (Inl IllegalPacketLength)
      else
        let sign = (if src ! 0 = CHR 0x01 then ''-'' else []);
            hours = unle (take 4 (drop 1 src)) * 24 + rn (src ! 5)
        in bindR (if 100 \<le> hours then Inr (Itoa hours) else two hours) (\<lambda>h.
           bindR (pairs [rn (src ! 6), rn (src ! 7)] '':'') (\<lambda>ms.
             bindR (appendMicrosecs (sign @ h @ '':'' @ ms) (drop 8 src) (len - 9)) (\<lambda>r. Inr (Inr r)))))"

subsection \<open>Escaping\<close>

definition reserveBuffer :: "string \<Rightarrow> string \<Rightarrow> nat \<Rightarrow> string" where
  "reserveBuffer junk buf appendSize = buf @ take appendSize (junk @ replicate appendSize (CHR 0x00))"

definition backslash_code :: "char \<Rightarrow> string" where
  "backslash_code c =
     (if c = CHR 0x00 then [CHR 0x5C, CHR ''0'']
      else if c = CHR 0x0A then [CHR 0x5C, CHR ''n'']
      else if c = CHR 0x0D then [CHR 0x5C, CHR ''r'']
      else if c = CHR 0x1A then [CHR 0x5C, CHR ''Z'']
      else if c = CHR 0x27 \<or> c = CHR 0x22 \<or> c = CHR 0x5C then [CHR 0x5C, c]
      else [c])"

definition quotes_code :: "char \<Rightarrow> string" where
  "quotes_code c = (if c = CHR 0x27 then [c, c] else [c])"

fun write_at :: "string \<Rightarrow> int \<Rightarrow> string \<Rightarrow> string result" where
  "write_at buf pos [] = Inr buf"
| "write_at buf pos (c # cs) = bindR (set_at buf pos c) (\<lambda>buf. write_at buf (pos + 1) cs)"

fun escape_loop :: "(char \<Rightarrow> string) \<Rightarrow> string \<Rightarrow> int \<Rightarrow> string \<Rightarrow> (string \<times> int) result" where
  "escape_loop code buf pos [] = Inr (buf, pos)"
| "escape_loop code buf pos (c # v) =
     bindR (write_at buf pos (code c)) (\<lambda>buf. escape_loop code buf (pos + int (length (code c))) v)"

definition escape_with :: "(char \<Rightarrow> string) \<Rightarrow> string \<Rightarrow> string \<Rightarrow> string \<Rightarrow> string result" where
  "escape_with code junk buf v =
     bindR (escape_loop code (reserveBuffer junk buf (length v * 2)) (int (length buf)) v) (\<lambda>(buf, pos). slice buf 0 pos)"

definition escapeStringBackslash :: "string \<Rightarrow> string \<Rightarrow> string \<Rightarrow> string result" where
  "escapeStringBackslash = escape_with backslash_code"

definition escapeStringQuotes :: "string \<Rightarrow> string \<Rightarrow> string \<Rightarrow> string result" where
  "escapeStringQuotes = escape_with quotes_code"

subsection \<open>Placeholders\<close>

text \<open>A time is its fields in the location of the connection after the rounding, or the zero time; the text of a floating point
  number is that of \<open>strconv.AppendFloat\<close>.\<close>

datatype driver_value =
  DNil | DInt64 int | DUint64 int | DFloat64 string | DBool bool | DTime "int list \<times> int" | DZeroTime
  | DBytes "string option" | DString string | DOther

definition time_text :: "int list \<Rightarrow> int \<Rightarrow> string result" where
  "time_text fields micro =
     (case fields of
        [year, month, day, hour, minute, second] \<Rightarrow>
          bindR (pairs [year div 100, year mod 100] []) (\<lambda>y. bindR (pairs [month, day] ''-'') (\<lambda>md.
          bindR (pairs [hour, minute, second] '':'') (\<lambda>hms.
          bindR (if micro = 0 then Inr []
                 else bindR (pairs [micro div 10000, micro div 100 mod 100, micro mod 100] []) (\<lambda>m. Inr (''.'' @ m))) (\<lambda>m.
            Inr (CHR 0x27 # y @ ''-'' @ md @ '' '' @ hms @ m @ [CHR 0x27])))))
      | _ \<Rightarrow> Inl IndexPanic)"

text \<open>The bytes of an argument appended to \<open>buf\<close>; \<open>None\<close> for a type that is not supported.\<close>

definition append_arg :: "bool \<Rightarrow> string \<Rightarrow> string \<Rightarrow> driver_value \<Rightarrow> string option result" where
  "append_arg noBackslash junk buf arg =
     (let esc = (if noBackslash then escapeStringQuotes else escapeStringBackslash) in
      case arg of
        DNil \<Rightarrow> Inr (Some (buf @ ''NULL''))
      | DInt64 v \<Rightarrow> Inr (Some (buf @ Itoa v))
      | DUint64 v \<Rightarrow> Inr (Some (buf @ Itoa v))
      | DFloat64 s \<Rightarrow> Inr (Some (buf @ s))
      | DBool v \<Rightarrow> Inr (Some (buf @ (if v then ''1'' else ''0'')))
      | DZeroTime \<Rightarrow> Inr (Some (buf @ CHR 0x27 # ''0000-00-00'' @ [CHR 0x27]))
      | DTime (fields, micro) \<Rightarrow> bindR (time_text fields micro) (\<lambda>t. Inr (Some (buf @ t)))
      | DBytes None \<Rightarrow> Inr (Some (buf @ ''NULL''))
      | DBytes (Some v) \<Rightarrow> bindR (esc junk (buf @ ''_binary'' @ [CHR 0x27]) v) (\<lambda>buf. Inr (Some (buf @ [CHR 0x27])))
      | DString v \<Rightarrow> bindR (esc junk (buf @ [CHR 0x27]) v) (\<lambda>buf. Inr (Some (buf @ [CHR 0x27])))
      | DOther \<Rightarrow> Inr None)"

datatype interpolate_error = ErrSkip | ErrInvalidConn

function interpolate_loop :: "bool \<Rightarrow> string \<Rightarrow> int \<Rightarrow> string \<Rightarrow> driver_value list \<Rightarrow> string \<Rightarrow>
    (interpolate_error + string \<times> driver_value list) result" where
  "interpolate_loop noBackslash junk maxAllowedPacket query args buf =
     (case dropWhile (\<lambda>c. c \<noteq> CHR ''?'') query of
        [] \<Rightarrow> Inr (Inr (buf @ query, args))
      | _ # rest \<Rightarrow>
          let buf = buf @ takeWhile (\<lambda>c. c \<noteq> CHR ''?'') query in
          case args of
            [] \<Rightarrow> Inl IndexPanic
          | arg # args \<Rightarrow>
              bindR (append_arg noBackslash junk buf arg) (\<lambda>r.
                case r of
                  None \<Rightarrow> Inr (Inl ErrSkip)
                | Some buf \<Rightarrow>
                    if arg \<noteq> DNil \<and> int (length buf) + 4 > maxAllowedPacket then Inr (Inl ErrSkip)
                    else interpolate_loop noBackslash junk maxAllowedPacket rest args buf))"
  by pat_completeness auto
termination
proof (relation "measure (\<lambda>(_, _, _, query, _, _). length query)", goal_cases)
  case (2 noBackslash junk maxAllowedPacket query args buf c rest)
  have "length (dropWhile (\<lambda>c. c \<noteq> CHR ''?'') query) \<le> length query" by (rule length_dropWhile_le)
  with 2 show ?case by simp
qed simp

declare interpolate_loop.simps [simp del]

text \<open>\<open>taken\<close>: whether the buffer of the connection can be taken.\<close>

definition interpolateParams :: "bool \<Rightarrow> bool \<Rightarrow> string \<Rightarrow> int \<Rightarrow> string \<Rightarrow> driver_value list \<Rightarrow> (interpolate_error + string) result" where
  "interpolateParams taken noBackslash junk maxAllowedPacket query args =
     (if count_list query (CHR ''?'') \<noteq> length args then Inr (Inl ErrSkip)
      else if \<not> taken then Inr (Inl ErrInvalidConn)
      else bindR (interpolate_loop noBackslash junk maxAllowedPacket query args []) (\<lambda>r.
        case r of
          Inl err \<Rightarrow> Inr (Inl err)
        | Inr (buf, left) \<Rightarrow> if left \<noteq> [] then Inr (Inl ErrSkip) else Inr (Inr buf)))"

subsection \<open>What is read is what was written\<close>

lemma length_le [simp]: "length (le k n) = k"
  by (induction k arbitrary: n) auto

lemma unle_le: "0 \<le> n \<Longrightarrow> unle (le k n) = n mod 256 ^ k"
proof (induction k arbitrary: n)
  case (Suc k)
  then have "unle (le (Suc k) n) = n mod 256 + 256 * (n div 256 mod 256 ^ k)" by (simp add: rn_byte)
  then show ?case by (simp add: zmod_zmult2_eq)
qed simp

lemma readLengthEncodedInteger_append:
  assumes "0 \<le> n" "n < 2 ^ 64"
  shows "readLengthEncodedInteger (appendLengthEncodedInteger [] n @ rest) =
    Inr (n, False, int (length (appendLengthEncodedInteger [] n)))"
proof -
  have first: "n \<le> 250 \<Longrightarrow> rn (byte n) = n" using assms by (simp add: rn_byte_small)
  have small: "n \<le> 250 \<Longrightarrow> byte n \<notin> {CHR 0xFB, CHR 0xFC, CHR 0xFD, CHR 0xFE}" using first by auto
  show ?thesis
    using assms first small
    by (auto simp: readLengthEncodedInteger_def appendLengthEncodedInteger_def following_def unle_le)
qed

lemma wrap64_pos: "0 \<le> n \<Longrightarrow> n < 2 ^ 63 \<Longrightarrow> wrap64 n = n"
  by (simp add: wrap64_def)

lemma wrap64_over: "2 ^ 63 \<le> n \<Longrightarrow> n < 2 ^ 63 + 2 ^ 64 \<Longrightarrow> wrap64 n = n - 2 ^ 64"
  using minus_mod_self2 [of "n + 2 ^ 63" "2 ^ 64"] by (simp add: wrap64_def)

lemma wrap64_under: "- (2 ^ 63) - 2 ^ 64 \<le> n \<Longrightarrow> n < - (2 ^ 63) \<Longrightarrow> wrap64 n = n + 2 ^ 64"
  using mod_add_self2 [of "n + 2 ^ 63" "2 ^ 64"] by (simp add: wrap64_def)

lemma appendLengthEncodedInteger_length: "length (appendLengthEncodedInteger [] n) \<in> {1..9}"
  by (simp add: appendLengthEncodedInteger_def)

text \<open>C31. A string that is written with its encoded length is read back, with the position of the byte behind it, for every length below
  2^63 - 9; and so is every number of 64 bits.\<close>

theorem length_encoded_round_trip:
  assumes "int (length s) < 2 ^ 63 - 9" "0 \<le> n" "n < 2 ^ 64"
  shows "readLengthEncodedString (appendLengthEncodedInteger [] (int (length s)) @ s @ rest) =
      Inr (Some s, False, int (length (appendLengthEncodedInteger [] (int (length s)) @ s)), False) \<and>
    readLengthEncodedInteger (appendLengthEncodedInteger [] n @ rest) = Inr (n, False, int (length (appendLengthEncodedInteger [] n)))"
proof -
  define h where "h = appendLengthEncodedInteger [] (int (length s))"
  have l: "1 \<le> length h" "length h \<le> 9" using appendLengthEncodedInteger_length [of "int (length s)"] by (auto simp: h_def)
  have i: "readLengthEncodedInteger (h @ s @ rest) = Inr (int (length s), False, int (length h))"
    using readLengthEncodedInteger_append [of "int (length s)" "s @ rest"] assms(1) by (simp add: h_def)
  have w: "wrap64 (int (length s)) = int (length s)" "wrap64 (int (length h) + int (length s)) = int (length h) + int (length s)"
    "wrap64 (int (length h)) = int (length h)" using assms(1) l by (auto intro!: wrap64_pos)
  have "readLengthEncodedString (h @ s @ rest) = Inr (Some s, False, int (length (h @ s)), False)"
    unfolding readLengthEncodedString_def i by (cases "s = []") (simp_all add: w slice_def Let_def nat_add_distrib)
  then show ?thesis using readLengthEncodedInteger_append [OF assms(2,3)] by (simp add: h_def)
qed

theorem length_encoded_round_trip_witness:
  "readLengthEncodedString (appendLengthEncodedInteger [] (int (length ''abc'')) @ ''abc'' @ ''d'') =
      Inr (Some ''abc'', False, int (length (appendLengthEncodedInteger [] (int (length ''abc'')) @ ''abc'')), False) \<and>
    readLengthEncodedInteger (appendLengthEncodedInteger [] 300 @ ''d'') = Inr (300, False, 3)"
  using length_encoded_round_trip [of "''abc''" 300 "''d''"] by (simp add: appendLengthEncodedInteger_def)

lemma readLengthEncodedInteger_range:
  assumes "readLengthEncodedInteger b = Inr (num, isNull, n)" "b \<noteq> []"
  shows "0 \<le> num" "num < 2 ^ 64" "1 \<le> n" "n \<le> int (length b)" "n \<le> 9"
proof -
  have unle_range: "0 \<le> unle s \<and> unle s < 256 ^ length s" for s
  proof (induction s)
    case (Cons c s)
    have "rn c + 256 * unle s < 256 * 256 ^ length s" using Cons rn_range(2) [of c] by linarith
    then show ?case using Cons rn_range(1) [of c] by simp
  qed simp
  have f: "0 \<le> x \<and> x < 256 ^ k \<and> k < length b" if "following b k = Inr x" for k x
  proof -
    have k: "k < length b" "x = unle (take k (drop 1 b))" using that by (auto simp: following_def split: if_splits)
    then have "length (take k (drop 1 b)) = k" by simp
    then show ?thesis using unle_range [of "take k (drop 1 b)"] k by simp
  qed
  obtain c b' where b: "b = c # b'" using assms(2) by (cases b) auto
  consider "(num, isNull, n) = (0, True, 1)" | "following b 2 = Inr num" "n = 3" | "following b 3 = Inr num" "n = 4"
    | "following b 8 = Inr num" "n = 9" | "(num, isNull, n) = (rn c, False, 1)"
    using assms(1) unfolding readLengthEncodedInteger_def b by (auto split: if_splits simp: bindR_def split: sum.splits)
  then have "0 \<le> num \<and> num < 2 ^ 64 \<and> 1 \<le> n \<and> n \<le> int (length b) \<and> n \<le> 9"
  proof cases
    case 2 then show ?thesis using f [of 2 num] by simp
  next
    case 3 then show ?thesis using f [of 3 num] by simp
  next
    case 4 then show ?thesis using f [of 8 num] by simp
  next
    case 5 then show ?thesis using rn_range [of c] b by auto
  qed (simp add: b)
  then show "0 \<le> num" "num < 2 ^ 64" "1 \<le> n" "n \<le> int (length b)" "n \<le> 9" by auto
qed

text \<open>C32. With a complete number in front, reading a string panics exactly for a length of at least 2^63 - 9: such a length is negative
  after the conversion, or the sum wraps around, and passes the check of the length. Every other length gives the string or the end of the
  input.\<close>

theorem readLengthEncodedString_panics:
  assumes "readLengthEncodedInteger b = Inr (num, isNull, n)" "b \<noteq> []"
  shows "readLengthEncodedString b = Inl SlicePanic \<longleftrightarrow> 2 ^ 63 - n \<le> num"
proof -
  note r = readLengthEncodedInteger_range [OF assms(1,2)]
  consider "num < 1" | "1 \<le> num" "num < 2 ^ 63 - n" | "2 ^ 63 - n \<le> num" "num < 2 ^ 63" | "2 ^ 63 \<le> num" by linarith
  then show ?thesis
  proof cases
    case 1
    then show ?thesis using r by (simp add: readLengthEncodedString_def assms(1) slice_def)
  next
    case 2
    then have w: "wrap64 num = num" "wrap64 (n + num) = n + num" "wrap64 n = n" using r by (auto intro!: wrap64_pos)
    show ?thesis using 2 r by (simp add: readLengthEncodedString_def assms(1) w slice_def Let_def)
  next
    case 3
    then have w: "wrap64 num = num" "wrap64 (n + num) = n + num - 2 ^ 64" "wrap64 (n - 2 ^ 64) = n"
      using r wrap64_over [of "n + num"] wrap64_under [of "n - 2 ^ 64"] by (auto intro!: wrap64_pos)
    show ?thesis using 3 r by (simp add: readLengthEncodedString_def assms(1) w slice_def Let_def)
  next
    case 4
    define m where "m = num - 2 ^ 64"
    have m: "- (2 ^ 63) \<le> m" "m < 0" using 4 r by (auto simp: m_def)
    have w: "wrap64 num = m" "wrap64 (n + m) = n + m" "wrap64 n = n"
      using 4 r m wrap64_over [of num] by (auto intro!: wrap64_pos simp: wrap64_def m_def)
    show ?thesis using 4 r m by (simp add: readLengthEncodedString_def assms(1) w slice_def Let_def)
  qed
qed

theorem readLengthEncodedString_panics_witness:
  "readLengthEncodedString (CHR 0xFE # replicate 8 (CHR 0xFF)) = Inl SlicePanic"
proof -
  have "readLengthEncodedInteger (CHR 0xFE # replicate 8 (CHR 0xFF)) = Inr (18446744073709551615, False, 9)"
    by (simp add: readLengthEncodedInteger_def following_def numeral_eq_Suc)
  from readLengthEncodedString_panics [OF this] show ?thesis by simp
qed

subsection \<open>Decimal numbers are printed and read tail\<close>

lemma set_at_append: "set_at (xs @ y # zs) (int (length xs)) x = Inr (xs @ x # zs)"
  by (simp add: set_at_def)

lemma uint64_loop_fills:
  assumes "0 \<le> n" "length (digits_of (nat n)) \<le> length front"
  shows "\<exists>a i k. uint64_loop n (front @ tail) (int (length front)) = Inr (a, i, k) \<and>
    bindR (set_at a (i - 1) (byte (k + 48))) (\<lambda>a. slice a (i - 1) (int (length a))) = Inr (digits_of (nat n) @ tail)"
  using assms
proof (induction "nat n" arbitrary: n front tail rule: less_induct)
  case less
  have "digits_of (nat n) \<noteq> []" by (subst digits_of.simps) simp
  then obtain front' c where front: "front = front' @ [c]" using less.prems(2) by (cases front rule: rev_cases) auto
  show ?case
  proof (cases "10 \<le> n")
    case True
    have d: "digits_of (nat n) = digits_of (nat (n div 10)) @ [byte (n - n div 10 * 10 + 48)]"
    proof -
      have "int (nat n mod 10) = n - n div 10 * 10" "nat n div 10 = nat (n div 10)"
        using less.prems(1) by (simp_all add: nat_div_distrib zmod_int minus_div_mult_eq_mod)
      then show ?thesis using True by (subst digits_of.simps) (simp add: add.commute nat_less_iff)
    qed
    have "nat (n div 10) < nat n" "0 \<le> n div 10" "length (digits_of (nat (n div 10))) \<le> length front'"
      using True less.prems(2) d front by auto
    from less.hyps [OF this, of "byte (n - n div 10 * 10 + 48) # tail"] show ?thesis
      using True d set_at_append [of front' c tail] by (subst uint64_loop.simps) (simp add: front)
  next
    case False
    have "digits_of (nat n) = [byte (n + 48)]" using False less.prems(1) by (subst digits_of.simps) (simp add: add.commute)
    then show ?thesis
      using False set_at_append [of front' c tail] by (subst uint64_loop.simps) (simp add: front slice_def)
  qed
qed

lemma stringToInt_digits: "stringToInt (digits_of n) = wrap64 (int n)"
proof (induction n rule: digits_of.induct)
  case (1 n)
  have small: "(rn (byte (48 + int d)) - 48) mod 256 = int d" if "d < 10" for d using that by (simp add: rn_digit)
  show ?case
  proof (cases "n < 10")
    case True
    then show ?thesis using small [of n] by (subst digits_of.simps) (simp add: stringToInt_def wrap64_def)
  next
    case False
    have "stringToInt (digits_of n) = wrap64 (wrap64 (wrap64 (int (n div 10)) * 10) + int (n mod 10))"
      using False 1 small [of "n mod 10"] by (subst digits_of.simps) (simp add: stringToInt_def)
    also have "\<dots> = wrap64 (int (n div 10) * 10 + int (n mod 10))" by (rule wrap64_step)
    also have "int (n div 10) * 10 + int (n mod 10) = int n" by presburger
    finally show ?thesis .
  qed
qed

text \<open>C33. \<open>uint64ToString\<close> prints every number of 64 bits in decimal, within its array of 20 bytes, and \<open>stringToInt\<close> reads the
  digits of any number tail modulo 2^64, as a signed number.\<close>

theorem decimal_round_trip:
  assumes "0 \<le> n" "n < 2 ^ 64"
  shows "uint64ToString n = Inr (digits_of (nat n)) \<and> stringToInt (digits_of k) = wrap64 (int k)"
proof -
  have "length (digits_of (nat n)) \<le> 20" using assms by (intro length_digits_of) (simp_all add: nat_less_iff)
  then have "length (digits_of (nat n)) \<le> length (replicate 20 (CHR 0x00))" by simp
  from uint64_loop_fills [OF assms(1) this, of "[]"] show ?thesis
    by (auto simp: uint64ToString_def stringToInt_digits)
qed

theorem decimal_round_trip_witness:
  "uint64ToString 1805 = Inr ''1805'' \<and> stringToInt (digits_of 0) = 0"
proof -
  have "digits_of 1805 = ''1805''" by (simp add: digits_of.simps byte_def) code_simp
  then show ?thesis using decimal_round_trip [of 1805 0] by (simp add: wrap64_def)
qed

subsection \<open>Escaped strings are literals\<close>

lemma write_at_overwrites:
  "length cs \<le> length tail \<Longrightarrow> write_at (front @ tail) (int (length front)) cs = Inr (front @ cs @ drop (length cs) tail)"
proof (induction cs arbitrary: front tail)
  case (Cons c cs)
  then obtain b bs where b: "tail = b # bs" by (cases tail) auto
  have "write_at ((front @ [c]) @ bs) (int (length (front @ [c]))) cs = Inr ((front @ [c]) @ cs @ drop (length cs) bs)"
    using Cons.prems b by (intro Cons.IH) simp
  then show ?case using set_at_append [of front b bs c] by (simp add: b add.commute)
qed simp

lemma escape_loop_writes:
  assumes "\<And>c. length (code c) \<le> 2" "2 * length v \<le> length tail"
  shows "\<exists>tail'. escape_loop code (front @ tail) (int (length front)) v =
    Inr (front @ concat (map code v) @ tail', int (length (front @ concat (map code v))))"
  using assms(2)
proof (induction v arbitrary: front tail)
  case (Cons c v)
  let ?f = "front @ code c" and ?b = "drop (length (code c)) tail"
  have "length (code c) \<le> length tail" "2 * length v \<le> length ?b" using assms(1) [of c] Cons.prems by auto
  then have "write_at (front @ tail) (int (length front)) (code c) = Inr (?f @ ?b)" "2 * length v \<le> length ?b"
    using write_at_overwrites by auto
  then show ?case using Cons.IH [of ?b ?f] by (auto simp: algebra_simps)
qed simp

lemma escape_with_spec:
  assumes "\<And>c. length (code c) \<le> 2"
  shows "escape_with code junk buf v = Inr (buf @ concat (map code v))"
proof -
  define tail where "tail = take (length v * 2) (junk @ replicate (length v * 2) (CHR 0x00))"
  have "2 * length v \<le> length tail" by (simp add: tail_def)
  with assms obtain tail' where "escape_loop code (buf @ tail) (int (length buf)) v =
      Inr (buf @ concat (map code v) @ tail', int (length (buf @ concat (map code v))))"
    using escape_loop_writes [of code v tail buf] by blast
  then show ?thesis unfolding escape_with_def reserveBuffer_def tail_def [symmetric] by (simp add: slice_def nat_add_distrib)
qed

lemma escapes:
  "escapeStringBackslash junk buf v = Inr (buf @ concat (map backslash_code v))"
  "escapeStringQuotes junk buf v = Inr (buf @ concat (map quotes_code v))"
  by (simp_all add: escapeStringBackslash_def escapeStringQuotes_def escape_with_spec backslash_code_def quotes_code_def)

text \<open>How a MySQL server reads the rest of a string literal: a doubled quote is a quote, and, unless the mode NO_BACKSLASH_ESCAPES is on, a
  backslash starts an escape sequence.\<close>

definition unescape :: "char \<Rightarrow> string" where
  "unescape c =
     (if c = CHR ''0'' then [CHR 0x00]
      else if c = CHR ''n'' then [CHR 0x0A]
      else if c = CHR ''r'' then [CHR 0x0D]
      else if c = CHR ''t'' then [CHR 0x09]
      else if c = CHR ''b'' then [CHR 0x08]
      else if c = CHR ''Z'' then [CHR 0x1A]
      else if c = CHR ''%'' \<or> c = CHR ''_'' then [CHR 0x5C, c]
      else [c])"

fun read_rest :: "bool \<Rightarrow> string \<Rightarrow> (string \<times> string) option" where
  "read_rest noBackslash [] = None"
| "read_rest noBackslash [c] =
     (if c = CHR 0x27 then Some ([], []) else None)"
| "read_rest noBackslash (c # d # s) =
     (if c = CHR 0x27 then
        if d = CHR 0x27 then map_option (apfst ((#) c)) (read_rest noBackslash s) else Some ([], d # s)
      else if c = CHR 0x5C \<and> \<not> noBackslash then map_option (apfst ((@) (unescape d))) (read_rest noBackslash s)
      else map_option (apfst ((#) c)) (read_rest noBackslash (d # s)))"

definition read_literal :: "bool \<Rightarrow> string \<Rightarrow> (string \<times> string) option" where
  "read_literal noBackslash s = (case s of [] \<Rightarrow> None | c # s \<Rightarrow> if c = CHR 0x27 then read_rest noBackslash s else None)"

lemma append_single: "(@) [x] = (#) x"
  by (rule ext) simp

lemma read_rest_other:
  assumes "s \<noteq> []" "c \<noteq> CHR 0x27" "c \<noteq> CHR 0x5C \<or> nb"
  shows "read_rest nb (c # s) = map_option (apfst ((#) c)) (read_rest nb s)"
  using assms by (cases s) auto

lemma backslash_code_cases:
  obtains d where "backslash_code c = [CHR 0x5C, d]" "unescape d = [c]"
  | "backslash_code c = [c]" "c \<noteq> CHR 0x27" "c \<noteq> CHR 0x5C"
proof (cases "c \<in> {CHR 0x00, CHR 0x0A, CHR 0x0D, CHR 0x1A, CHR 0x27, CHR 0x22, CHR 0x5C}")
  case True
  then show thesis by (auto simp: backslash_code_def unescape_def intro: that(1))
qed (auto simp: backslash_code_def intro: that(2))

lemma read_rest_code:
  assumes "s \<noteq> []"
  shows "read_rest True (quotes_code c @ s) = map_option (apfst ((#) c)) (read_rest True s)"
    "read_rest False (backslash_code c @ s) = map_option (apfst ((#) c)) (read_rest False s)"
proof -
  show "read_rest True (quotes_code c @ s) = map_option (apfst ((#) c)) (read_rest True s)"
    using read_rest_other [OF assms, of c True] by (cases "c = CHR 0x27") (simp_all add: quotes_code_def)
  show "read_rest False (backslash_code c @ s) = map_option (apfst ((#) c)) (read_rest False s)"
  proof (cases c rule: backslash_code_cases)
    case (1 d)
    then show ?thesis by (simp add: append_single)
  next
    case 2
    then show ?thesis using read_rest_other [OF assms, of c False] by simp
  qed
qed

lemma read_rest_escaped:
  assumes "rest = [] \<or> hd rest \<noteq> CHR 0x27"
  shows "read_rest True (concat (map quotes_code v) @ CHR 0x27 # rest) = Some (v, rest)"
    "read_rest False (concat (map backslash_code v) @ CHR 0x27 # rest) = Some (v, rest)"
proof -
  have close: "read_rest nb (CHR 0x27 # rest) = Some ([], rest)" for nb using assms by (cases rest) auto
  show "read_rest True (concat (map quotes_code v) @ CHR 0x27 # rest) = Some (v, rest)"
    by (induction v) (simp_all add: close read_rest_code)
  show "read_rest False (concat (map backslash_code v) @ CHR 0x27 # rest) = Some (v, rest)"
    by (induction v) (simp_all add: close read_rest_code)
qed

subsection \<open>Placeholders are filled\<close>

text \<open>The literal of an argument, where it has one, and a query with its placeholders replaced in order.\<close>

definition literal :: "bool \<Rightarrow> driver_value \<Rightarrow> string option" where
  "literal noBackslash arg =
     (let esc = (\<lambda>v. CHR 0x27 # concat (map (if noBackslash then quotes_code else backslash_code) v) @ [CHR 0x27]) in
      case arg of
        DNil \<Rightarrow> Some ''NULL''
      | DInt64 v \<Rightarrow> Some (Itoa v)
      | DUint64 v \<Rightarrow> Some (Itoa v)
      | DFloat64 s \<Rightarrow> Some s
      | DBool v \<Rightarrow> Some (if v then ''1'' else ''0'')
      | DZeroTime \<Rightarrow> Some (CHR 0x27 # ''0000-00-00'' @ [CHR 0x27])
      | DTime (fields, micro) \<Rightarrow> (case time_text fields micro of Inl _ \<Rightarrow> None | Inr t \<Rightarrow> Some t)
      | DBytes None \<Rightarrow> Some ''NULL''
      | DBytes (Some v) \<Rightarrow> Some (''_binary'' @ esc v)
      | DString v \<Rightarrow> Some (esc v)
      | DOther \<Rightarrow> None)"

fun fill :: "string \<Rightarrow> string list \<Rightarrow> string" where
  "fill [] ls = []"
| "fill (c # q) ls =
     (if c = CHR ''?'' then (case ls of [] \<Rightarrow> c # fill q [] | l # ls \<Rightarrow> l @ fill q ls) else c # fill q ls)"

lemma fill_skip: "CHR ''?'' \<notin> set p \<Longrightarrow> fill (p @ q) ls = p @ fill q ls"
  by (induction p) auto

lemma append_arg_literal:
  assumes "literal nb arg = Some l"
  shows "append_arg nb junk buf arg = Inr (Some (buf @ l))"
proof (cases arg)
  case (DTime t)
  then show ?thesis using assms by (cases t) (auto simp: literal_def append_arg_def Let_def split: sum.splits)
next
  case (DBytes v)
  then show ?thesis using assms by (cases v; cases nb) (auto simp: literal_def append_arg_def Let_def escapes)
next
  case (DString v)
  then show ?thesis using assms by (cases nb) (auto simp: literal_def append_arg_def Let_def escapes)
qed (use assms in \<open>auto simp: literal_def append_arg_def Let_def\<close>)

lemma interpolate_loop_fills:
  assumes "count_list q (CHR ''?'') = length args" "list_all2 (\<lambda>a l. literal nb a = Some l) args ls"
    "int (length (buf @ fill q ls)) + 4 \<le> maxp"
  shows "interpolate_loop nb junk maxp q args buf = Inr (Inr (buf @ fill q ls, []))"
  using assms
proof (induction "length q" arbitrary: q args ls buf rule: less_induct)
  case less
  let ?p = "takeWhile (\<lambda>c. c \<noteq> CHR ''?'') q"
  have p: "CHR ''?'' \<notin> set ?p" by (auto dest: set_takeWhileD)
  show ?case
  proof (cases "dropWhile (\<lambda>c. c \<noteq> CHR ''?'') q")
    case Nil
    then have "CHR ''?'' \<notin> set q" by auto
    then have "args = []" "fill q ls = q" using less.prems(1) fill_skip [of q "[]" ls] by (auto simp: count_list_0_iff)
    then show ?thesis by (subst interpolate_loop.simps) (simp only: Nil list.case)
  next
    case (Cons c rest)
    then have "c = CHR ''?''" by (metis (mono_tags, lifting) hd_dropWhile list.sel(1) list.discI)
    then have q: "q = ?p @ CHR ''?'' # rest" using Cons takeWhile_dropWhile_id [of "\<lambda>c. c \<noteq> CHR ''?''" q] by simp
    have count: "count_list q (CHR ''?'') = Suc (count_list rest (CHR ''?''))"
      using p by (subst q) (simp add: count_list_append count_list_0_iff)
    then obtain a as l ls' where al: "args = a # as" "ls = l # ls'" "literal nb a = Some l" "list_all2 (\<lambda>a l. literal nb a = Some l) as ls'"
      using less.prems(1,2) by (cases args) (auto simp: list_all2_Cons1)
    have f: "fill q ls = ?p @ l @ fill rest ls'" using p by (subst q) (simp add: fill_skip al)
    have "length rest < length q" using q by (metis length_append length_Cons less_add_Suc2 add_Suc_right)
    then have "interpolate_loop nb junk maxp rest as (buf @ ?p @ l) = Inr (Inr ((buf @ ?p @ l) @ fill rest ls', []))"
      using less.prems count al f by (intro less.hyps) auto
    then show ?thesis
      using Cons al append_arg_literal [OF al(3), of junk "buf @ ?p"] less.prems(3) f
      by (subst interpolate_loop.simps) (simp add: Let_def)
  qed
qed

text \<open>C30. \<open>interpolateParams\<close>, when every argument has a literal and the result fits a packet, replaces each placeholder by the literal
  of its argument, whatever the buffer held before. In the mode of the server each literal of a string is read back as exactly that string:
  no text an argument holds can end its literal.\<close>

theorem interpolate_fills:
  assumes "count_list query (CHR ''?'') = length args" "list_all2 (\<lambda>a l. literal nb a = Some l) args ls"
    "int (length (fill query ls)) + 4 \<le> maxAllowedPacket"
  shows "interpolateParams True nb junk maxAllowedPacket query args = Inr (Inr (fill query ls)) \<and>
    (\<forall>v l rest. (DString v, l) \<in> set (zip args ls) \<and> (rest = [] \<or> hd rest \<noteq> CHR 0x27) \<longrightarrow> read_literal nb (l @ rest) = Some (v, rest))"
proof (intro conjI allI impI)
  show "interpolateParams True nb junk maxAllowedPacket query args = Inr (Inr (fill query ls))"
    using interpolate_loop_fills [of query args nb ls "[]"] assms by (simp add: interpolateParams_def)
next
  fix v l rest
  assume v: "(DString v, l) \<in> set (zip args ls) \<and> (rest = [] \<or> hd rest \<noteq> CHR 0x27)"
  then have "literal nb (DString v) = Some l" using assms(2) by (auto simp: list_all2_iff)
  then show "read_literal nb (l @ rest) = Some (v, rest)"
    using v read_rest_escaped [of rest v] by (cases nb) (auto simp: literal_def read_literal_def)
qed

theorem interpolate_fills_witness:
  "interpolateParams True False ''xyz'' 100 ''a=? b=?'' [DNil, DString [CHR 0x27]] =
     Inr (Inr (''a=NULL b='' @ [CHR 0x27, CHR 0x5C, CHR 0x27, CHR 0x27]))"
  using interpolate_fills [of "''a=? b=?''" "[DNil, DString [CHR 0x27]]" False "[''NULL'', [CHR 0x27, CHR 0x5C, CHR 0x27, CHR 0x27]]" 100 "''xyz''"]
  by (simp add: literal_def backslash_code_def)

subsection \<open>Binary dates are printed\<close>

definition dd :: "int \<Rightarrow> string" where
  "dd p = [byte (48 + p div 10), byte (48 + p mod 10)]"

lemma two_dd: "0 \<le> p \<Longrightarrow> two p = (if p < 100 then Inr (dd p) else Inl IndexPanic)"
  by (simp add: two_def dd_def)

text \<open>C34. \<open>formatBinaryDateTime\<close> prints the seven bytes of a date and a time as \<open>YYYY-MM-DD hh:mm:ss\<close>; a year of five digits or another
  field of three digits, which a server can send, stops the program.\<close>

theorem formatBinaryDateTime_prints:
  assumes "0 \<le> y" "y < 65536" "{mo, d, h, mi, s} \<subseteq> {0..255}"
  shows "formatBinaryDateTime (le 2 y @ map byte [mo, d, h, mi, s]) 19 =
    (if y < 10000 \<and> {mo, d, h, mi, s} \<subseteq> {0..99}
     then Inr (Inr (dd (y div 100) @ dd (y mod 100) @ ''-'' @ dd mo @ ''-'' @ dd d @ '' '' @ dd h @ '':'' @ dd mi @ '':'' @ dd s))
     else Inl IndexPanic)"
proof -
  have le2: "le 2 y = [byte (y mod 256), byte (y div 256 mod 256)]" by (simp add: numeral_2_eq_2)
  have y: "y mod 256 + 256 * (y div 256 mod 256) = y" using assms(1,2) by simp
  have m: "y - 100 * (y div 100) = y mod 100" by (simp add: minus_mult_div_eq_mod)
  have d: "y div 100 < 100 \<longleftrightarrow> y < 10000" "0 \<le> y div 100" using assms(1) by (auto simp: pos_imp_zdiv_nonneg_iff)
  show ?thesis
    using assms d unfolding formatBinaryDateTime_def le2
    by (simp add: rn_byte_small rn_byte y m two_dd appendMicrosecs_def Let_def)
qed

theorem formatBinaryDateTime_prints_witness:
  "formatBinaryDateTime (le 2 2019 @ map byte [7, 1, 12, 30, 5]) 19 = Inr (Inr ''2019-07-01 12:30:05'')"
proof -
  have "dd 20 @ dd 19 @ ''-'' @ dd 7 @ ''-'' @ dd 1 @ '' '' @ dd 12 @ '':'' @ dd 30 @ '':'' @ dd 5 = ''2019-07-01 12:30:05''" by code_simp
  then show ?thesis using formatBinaryDateTime_prints [of 2019 7 1 12 30 5] by simp
qed

end
