(* ===== verification/Spec2Isabelle.thy ===== *)
theory Spec2Isabelle
  imports Fingerprint_Safety Fingerprint_Case Fingerprint_Literal Redis_Protocol Redis_Pool Redis_Queue
    Kafka_Calls Kafka_Assign Lib_Config Lib_Explain Lib_Review Mysql_Text
begin

text \<open>
  A verification library for SqlReview, the tool that samples the SQL statements a system executes, reduces them to fingerprints,
  queues them in Redis and reviews them with EXPLAIN.

  \<^bold>\<open>The program.\<close> testSQL.go starts a worker for each branch. A worker pops the statements that wait in a Redis list, and
  lib/soar.go gives each one its fingerprint (lib/fingerprint.go), pushes the fingerprint into a queue without duplicates
  (lib/unique_queue.go), and collects samples per fingerprint, which it posts to the second program. prodSQL.go receives them over HTTP,
  queues them in Redis and sends them to Kafka; lib/explain.go pops them, explains them on the database they belong to, and stores the
  score. Both programs read lib/config.go. The clients for Redis (redis/), Kafka (kafka/) and MySQL (mysql/) are part of the sources.

  \<^bold>\<open>Conventions.\<close> A Go string or byte slice is a list of bytes, an integer is an \<open>int\<close> with the wrap-around written out where it
  matters, or a word. A run-time panic is a value of \<open>go_panic\<close> in the left summand of a \<open>result\<close>; an error value of Go is part of
  the value on the right. A goroutine that is started is returned as its arguments, or is a step of an inductive relation where the
  interleaving matters. Code outside the sources is a parameter: the Unicode tables, MD5 and SHA-1, the compression libraries, JSON, the
  Redis server, the databases, the random numbers and the order in which a map is ranged over.

  \<^bold>\<open>The theories.\<close>
  \<^item> \<open>Go_Prelude\<close>: what the sources use of Go and of strings, strconv and unicode/utf8, and the shared lemmas.
  \<^item> \<open>Fingerprint\<close>: the state machine of lib/fingerprint.go, one definition per branch of its loop, over the record \<open>fp_state\<close>.
    \<open>Fingerprint_Safety\<close> shows that it does not panic without a closing parenthesis, \<open>Fingerprint_Case\<close> that its output is in lower
    case, \<open>Fingerprint_Literal\<close> by a simulation that the text of a literal does not matter.
  \<^item> \<open>Redis_Reply\<close>: the conversions of redis/reply.go. \<open>Redis_Conn\<close>: the writer, the reader and the operations of redis/conn.go;
    \<open>Redis_Protocol\<close>: that the reader inverts the protocol, and that a pipeline gets its replies in order.
  \<^item> \<open>Idle_List\<close>, \<open>Redis_Pool\<close>: redis/pool.go. The linked list of idle connections is a heap of cells that refines a list (locale
    \<open>deque\<close>); the critical sections of the pool are the steps of interleaved goroutines, with an invariant of every reachable state.
  \<^item> \<open>Redis_Queue\<close>: redis/script.go, and the Lua scripts and queues of lib/redis_pool.go, lib/unique_queue.go and
    lib/priority_queue.go, over any server with the laws of the locale \<open>redis_server\<close>, which a server in memory satisfies. The queue of
    two keys refines a list without duplicates.
  \<^item> \<open>Kafka_Bytes\<close>, \<open>Kafka_Encoder\<close>, \<open>Kafka_Decoder\<close>, \<open>Kafka_Fields\<close>: the codec of kafka/, with both passes of the encoder, and the
    notions \<open>decodes\<close> (reading inverts writing) and \<open>guarded\<close> (which panics a decoder can have). \<open>Kafka_Group_Messages\<close>,
    \<open>Kafka_Admin_Messages\<close>, \<open>Kafka_Txn_Messages\<close>, \<open>Kafka_Data_Messages\<close>, \<open>Kafka_Records\<close>, \<open>Kafka_Message_Set\<close> and
    \<open>Kafka_Produce_Fetch\<close> have one record, encoder and decoder for each message, with both facts for each.
  \<^item> \<open>Kafka_Version\<close>, \<open>Kafka_Bodies\<close>, \<open>Kafka_Request\<close>: versions, the keys and versions of all messages, and requests on a stream.
  \<^item> \<open>Kafka_Broker\<close>: kafka/broker.go, the callers and the goroutine that reads responses as a step relation. \<open>Kafka_Calls\<close>: its
    methods, over the locale \<open>response_codec\<close>, which every response that is read satisfies.
  \<^item> \<open>Kafka_Assign\<close>: the partitioners and the round-robin plan of a consumer group.
  \<^item> \<open>Lib_Config\<close>, \<open>Lib_Explain\<close>, \<open>Lib_Review\<close>: the configuration, the review of a plan, and the way of a statement from the list to
    its review, which composes the fingerprint and the queue.
  \<^item> \<open>Mysql_Text\<close>: mysql/utils.go and the replacement of placeholders of mysql/connection.go.

  \<^bold>\<open>Bounds and fuel.\<close> \<open>readReply\<close> recurses with a bound that the length of the input gives, and is shown to return. \<open>sendData\<close> has
  fuel, and any fuel above the number of waiting statements gives the result. The decoder of nested messages takes the depth of the stack,
  and is \<open>StackOverflow\<close> beyond it. \<open>hash_Partition\<close> is a partial function, where no value is a call that does not return. A slice is
  allocated up to 2^48 bytes, and panics beyond.

  \<^bold>\<open>Not modelled.\<close> Network connections, TLS, timers, log files, processes, HTTP and metrics are input and output. The Kafka client,
  the producers, the consumers and the consumer group are goroutines around such timers and connections; the messages they exchange, the
  choice of partitions and the plan are modelled on their own. The range strategy of a consumer group computes in floating point. Of the
  MySQL driver, the packets, the authentication and the data source names are left out, of the Redis client the scanning by reflection, the
  subscriptions and the wrapper of a pooled connection, of the broker the opening of a connection and SASL. The encoder of
  \<open>AlterConfigsResponse\<close>, which only a server uses, is left out too.
\<close>

end
